(* ===== verification/Prelude.thy ===== *)
theory Prelude
  imports Main "HOL-Library.AList" "HOL-Library.List_Lexorder" "HOL-Library.Char_ord"
    "HOL-Library.Sublist" "HOL-Library.Multiset"
begin

text \<open>
  Shared vocabulary of the development: the collections of rewrite rules the component
  theories feed, the association-list model of Go's \<open>map[K]V\<close> with the laws its clients
  rely on (the locale \<open>key_map\<close> and its interpretation \<open>gm\<close>), and generic facts about lists.

  A Go map is modelled as an association list without duplicate keys. The order of the list
  stands for the (unspecified) order in which \<open>range\<close> visits the map; lookups go through
  \<open>map_of\<close>, so two lists that differ only in order are the same map for every lookup.
\<close>

named_theorems go_eval \<open>equations that evaluate library functions on concrete arguments\<close>
named_theorems frame_simps \<open>which fields of the state an operation leaves alone\<close>
named_theorems wf_intros \<open>an operation keeps a well-formedness predicate\<close>

section \<open>Go maps\<close>

type_synonym ('k, 'v) gomap = "('k \<times> 'v) list"

abbreviation mget :: "('k, 'v) gomap \<Rightarrow> 'k \<Rightarrow> 'v option" where
  "mget m \<equiv> map_of m"

abbreviation mput :: "'k \<Rightarrow> 'v \<Rightarrow> ('k, 'v) gomap \<Rightarrow> ('k, 'v) gomap" where
  "mput \<equiv> AList.update"

abbreviation mdel :: "'k \<Rightarrow> ('k, 'v) gomap \<Rightarrow> ('k, 'v) gomap" where
  "mdel \<equiv> AList.delete"

abbreviation mkeys :: "('k, 'v) gomap \<Rightarrow> 'k list" where
  "mkeys m \<equiv> map fst m"

definition wf_map :: "('k, 'v) gomap \<Rightarrow> bool" where
  "wf_map m \<longleftrightarrow> distinct (map fst m)"

lemma wf_map_Nil [simp, wf_intros]: "wf_map []"
  by (simp add: wf_map_def)

lemma wf_map_put [simp, wf_intros]: "wf_map m \<Longrightarrow> wf_map (mput k v m)"
  by (simp add: wf_map_def distinct_update)

lemma wf_map_del [simp, wf_intros]: "wf_map m \<Longrightarrow> wf_map (mdel k m)"
  by (simp add: wf_map_def distinct_delete)

lemma mget_put [simp]: "mget (mput k v m) = (mget m)(k \<mapsto> v)"
  by (rule update_conv')

lemma mget_del [simp]: "mget (mdel k m) = (mget m)(k := None)"
  by (rule delete_conv')

lemma mget_eq_None_iff: "mget m k = None \<longleftrightarrow> k \<notin> set (mkeys m)"
  by (simp add: map_of_eq_None_iff)

lemma mget_in_set: "wf_map m \<Longrightarrow> mget m k = Some v \<longleftrightarrow> (k, v) \<in> set m"
  by (simp add: wf_map_def)

text \<open>
  What the rest of the program may assume of a Go map, whatever its representation: a store
  or a deletion changes exactly one lookup, and \<open>range\<close> visits every key once.
\<close>

locale key_map =
  fixes get :: "'m \<Rightarrow> 'k \<Rightarrow> 'v option"
    and put :: "'k \<Rightarrow> 'v \<Rightarrow> 'm \<Rightarrow> 'm"
    and del :: "'k \<Rightarrow> 'm \<Rightarrow> 'm"
    and keys :: "'m \<Rightarrow> 'k list"
    and inv :: "'m \<Rightarrow> bool"
  assumes get_put: "inv m \<Longrightarrow> get (put k v m) = (get m)(k \<mapsto> v)"
    and get_del: "inv m \<Longrightarrow> get (del k m) = (get m)(k := None)"
    and set_keys: "inv m \<Longrightarrow> set (keys m) = dom (get m)"
    and distinct_keys: "inv m \<Longrightarrow> distinct (keys m)"
    and inv_put: "inv m \<Longrightarrow> inv (put k v m)"
    and inv_del: "inv m \<Longrightarrow> inv (del k m)"
begin

lemma length_keys: "inv m \<Longrightarrow> length (keys m) = card (dom (get m))"
  using distinct_card [OF distinct_keys, of m] by (simp add: set_keys)

lemma finite_dom_get: "inv m \<Longrightarrow> finite (dom (get m))"
  using set_keys [of m] by (metis finite_set)

lemma size_put_new: "inv m \<Longrightarrow> get m k = None \<Longrightarrow>
    length (keys (put k v m)) = Suc (length (keys m))"
  by (simp add: length_keys inv_put get_put finite_dom_get domIff)

lemma size_put_old: "inv m \<Longrightarrow> get m k \<noteq> None \<Longrightarrow>
    length (keys (put k v m)) = length (keys m)"
  by (simp add: length_keys inv_put get_put insert_absorb domIff)

lemma size_del_old: "inv m \<Longrightarrow> get m k \<noteq> None \<Longrightarrow>
    Suc (length (keys (del k m))) = length (keys m)"
proof -
  assume "inv m" and "get m k \<noteq> None"
  then have "card (dom (get m)) = Suc (card (dom (get m) - {k}))"
    by (intro card.remove) (auto simp: finite_dom_get)
  with \<open>inv m\<close> show ?thesis
    by (simp add: length_keys inv_del get_del)
qed

lemma size_del_new: "inv m \<Longrightarrow> get m k = None \<Longrightarrow>
    length (keys (del k m)) = length (keys m)"
  by (simp add: length_keys inv_del get_del) (metis domIff Diff_empty Diff_insert0)

lemma empty_iff: "inv m \<Longrightarrow> keys m = [] \<longleftrightarrow> get m = Map.empty"
  by (metis set_keys dom_eq_empty_conv set_empty)

end

interpretation gm: key_map mget mput mdel mkeys wf_map
  by unfold_locales (auto simp: dom_map_of_conv_image_fst wf_map_def distinct_update distinct_delete)

lemma length_put: "wf_map m \<Longrightarrow>
    length (mput k v m) = (if mget m k = None then Suc (length m) else length m)"
  using gm.size_put_new [of m k v] gm.size_put_old [of m k v] by simp

lemma length_del: "wf_map m \<Longrightarrow>
    length (mdel k m) = (if mget m k = None then length m else length m - 1)"
  using gm.size_del_new [of m k] gm.size_del_old [of m k] by force

section \<open>Go sets, \<open>map[K]struct{}\<close>\<close>

text \<open>A Go map used as a set is the list of its keys, again without duplicates.\<close>

definition sadd :: "'a \<Rightarrow> 'a list \<Rightarrow> 'a list" where
  "sadd x xs = (if x \<in> set xs then xs else xs @ [x])"

definition sdel :: "'a \<Rightarrow> 'a list \<Rightarrow> 'a list" where
  "sdel x xs = removeAll x xs"

lemma set_sadd [simp]: "set (sadd x xs) = insert x (set xs)"
  by (auto simp: sadd_def)

lemma set_sdel [simp]: "set (sdel x xs) = set xs - {x}"
  by (auto simp: sdel_def)

lemma distinct_sadd [simp, wf_intros]: "distinct xs \<Longrightarrow> distinct (sadd x xs)"
  by (simp add: sadd_def)

lemma distinct_sdel [simp, wf_intros]: "distinct xs \<Longrightarrow> distinct (sdel x xs)"
  by (simp add: sdel_def distinct_removeAll)

lemma sadd_not_Nil [simp]: "sadd x xs \<noteq> []"
  by (simp add: sadd_def) (metis empty_iff empty_set)

section \<open>Lists\<close>

text \<open>The default value of a missing slot in a Go map of slices.\<close>

definition mget_list :: "('k, 'v list) gomap \<Rightarrow> 'k \<Rightarrow> 'v list" where
  "mget_list m k = (case mget m k of None \<Rightarrow> [] | Some xs \<Rightarrow> xs)"

lemma mget_list_put [simp]:
  "mget_list (mput k v m) k' = (if k' = k then v else mget_list m k')"
  by (simp add: mget_list_def)

lemma mget_list_del [simp]:
  "mget_list (mdel k m) k' = (if k' = k then [] else mget_list m k')"
  by (simp add: mget_list_def)

text \<open>A Go slice expression \<open>xs[lo:hi]\<close> with bounds already known to be in range.\<close>

definition subslice :: "nat \<Rightarrow> nat \<Rightarrow> 'a list \<Rightarrow> 'a list" where
  "subslice lo hi xs = take (hi - lo) (drop lo xs)"

lemma length_subslice [simp]: "hi \<le> length xs \<Longrightarrow> length (subslice lo hi xs) = hi - lo"
  by (simp add: subslice_def)

lemma nth_subslice: "lo + i < hi \<Longrightarrow> hi \<le> length xs \<Longrightarrow> subslice lo hi xs ! i = xs ! (lo + i)"
  by (simp add: subslice_def)

lemma set_subslice_subset: "set (subslice lo hi xs) \<subseteq> set xs"
  by (auto simp: subslice_def dest: in_set_takeD in_set_dropD)


section \<open>Simulations\<close>

text \<open>A sequence of operations, with the results of each.\<close>

fun run_ops :: "('op \<Rightarrow> 's \<Rightarrow> 's \<times> 'r) \<Rightarrow> 'op list \<Rightarrow> 's \<Rightarrow> 's \<times> 'r list" where
  "run_ops f [] s = (s, [])"
| "run_ops f (op # ops) s =
     (case f op s of (s1, r) \<Rightarrow> (case run_ops f ops s1 of (s2, rs) \<Rightarrow> (s2, r # rs)))"

text \<open>
  Two systems that give the same results from related states and stay related, operation by
  operation, do so for every sequence of operations.
\<close>

locale simulation =
  fixes rel :: "'s \<Rightarrow> 'a \<Rightarrow> bool"
    and exec :: "'op \<Rightarrow> 's \<Rightarrow> 's \<times> 'r"
    and spec :: "'op \<Rightarrow> 'a \<Rightarrow> 'a \<times> 'r"
    and ok :: "'op \<Rightarrow> bool"
  assumes sim: "rel s a \<Longrightarrow> ok op \<Longrightarrow>
      rel (fst (exec op s)) (fst (spec op a)) \<and> snd (exec op s) = snd (spec op a)"
begin

lemma run_sim:
  "rel s a \<Longrightarrow> list_all ok ops \<Longrightarrow>
     rel (fst (run_ops exec ops s)) (fst (run_ops spec ops a)) \<and>
     snd (run_ops exec ops s) = snd (run_ops spec ops a)"
proof (induction ops arbitrary: s a)
  case (Cons op ops)
  then have "rel (fst (exec op s)) (fst (spec op a))" "snd (exec op s) = snd (spec op a)"
    using sim [of s a op] by simp_all
  with Cons.IH [of "fst (exec op s)" "fst (spec op a)"] Cons.prems(2) show ?case
    by (simp split: prod.split) (metis fst_conv snd_conv)
qed simp

end

end
