(* ===== verification/GoLib.thy ===== *)
theory GoLib
  imports Prelude
begin

text \<open>
  The parts of Go and of its standard library that the server's code calls: 64-bit \<open>int\<close>
  arithmetic, \<open>strconv.Itoa\<close>, \<open>strconv.ParseInt\<close>/\<open>Atoi\<close> with their two kinds of
  error, \<open>strings.ToUpper\<close>, \<open>ToLower\<close>, \<open>TrimSpace\<close>, \<open>TrimRight\<close>, \<open>Split\<close>,
  \<open>SplitN\<close>, \<open>Fields\<close>, \<open>HasPrefix\<close>, \<open>Contains\<close> and \<open>bufio.Reader.ReadString\<close>.

  A Go string is a sequence of bytes, and so is a HOL \<open>string\<close> (a list of 8-bit
  characters). A Go \<open>int\<close> (64 bits on the server's platforms) is an \<open>int\<close> of HOL; where
  the source can overflow, \<open>wrap64\<close> writes the wrap-around out.
\<close>

section \<open>Integers\<close>

definition min_int64 :: int where "min_int64 = - (2 ^ 63)"
definition max_int64 :: int where "max_int64 = 2 ^ 63 - 1"

definition in_int64 :: "int \<Rightarrow> bool" where
  "in_int64 x \<longleftrightarrow> min_int64 \<le> x \<and> x \<le> max_int64"

text \<open>Two's complement: the value a 64-bit register holds after an exact result \<open>x\<close>.\<close>

definition wrap64 :: "int \<Rightarrow> int" where
  "wrap64 x = (x + 2 ^ 63) mod 2 ^ 64 - 2 ^ 63"

lemma wrap64_range: "in_int64 (wrap64 x)"
proof -
  have "0 \<le> (x + 2 ^ 63) mod 2 ^ 64" and "(x + 2 ^ 63) mod 2 ^ 64 < 2 ^ 64"
    by simp_all
  then show ?thesis
    by (simp add: in_int64_def wrap64_def min_int64_def max_int64_def)
qed

lemma wrap64_id [simp]: "in_int64 x \<Longrightarrow> wrap64 x = x"
  by (simp add: in_int64_def wrap64_def min_int64_def max_int64_def)

lemma wrap64_max [simp]: "wrap64 (max_int64 + 1) = min_int64"
  by (simp add: wrap64_def min_int64_def max_int64_def)

section \<open>Numbers and their text\<close>

definition CR :: char where "CR = CHR 0x0D"
definition LF :: char where "LF = CHR 0x0A"
definition crlf :: string where "crlf = [CR, LF]"

definition digit_char :: "nat \<Rightarrow> char" where
  "digit_char d = ''0123456789'' ! d"

definition is_digit :: "char \<Rightarrow> bool" where
  "is_digit c \<longleftrightarrow> 48 \<le> (of_char c :: nat) \<and> (of_char c :: nat) \<le> 57"

definition digit_val :: "char \<Rightarrow> nat" where
  "digit_val c = of_char c - 48"

fun nat_digits :: "nat \<Rightarrow> string" where
  "nat_digits n =
     (if n < 10 then [digit_char n] else nat_digits (n div 10) @ [digit_char (n mod 10)])"

declare nat_digits.simps [simp del]

text \<open>\<open>strconv.Itoa\<close> (and \<open>FormatInt\<close> in base 10, and \<open>%d\<close>).\<close>

definition Itoa :: "int \<Rightarrow> string" where
  "Itoa x = (if x < 0 then CHR ''-'' # nat_digits (nat (- x)) else nat_digits (nat x))"

text \<open>
  \<open>strconv.ParseInt(s, 10, 64)\<close>, which \<open>Atoi\<close> agrees with on 64-bit platforms. On a
  syntax error it returns 0, on a range error the nearest representable value, and some
  callers ignore the error and use the value: both are modelled.
\<close>

datatype num_err = ErrSyntax | ErrRange

fun parse_uint_loop :: "nat \<Rightarrow> string \<Rightarrow> num_err + nat" where
  "parse_uint_loop n [] = Inr n"
| "parse_uint_loop n (c # cs) =
     (if \<not> is_digit c then Inl ErrSyntax
      else let n' = n * 10 + digit_val c
           in if 2 ^ 64 \<le> n' then Inl ErrRange else parse_uint_loop n' cs)"

definition parse_uint :: "string \<Rightarrow> num_err + nat" where
  "parse_uint s = (if s = [] then Inl ErrSyntax else parse_uint_loop 0 s)"

definition ParseInt_parts :: "bool \<Rightarrow> string \<Rightarrow> int \<times> num_err option" where
  "ParseInt_parts neg s =
     (case parse_uint s of
        Inl ErrSyntax \<Rightarrow> (0, Some ErrSyntax)
      | Inl ErrRange \<Rightarrow> (if neg then min_int64 else max_int64, Some ErrRange)
      | Inr un \<Rightarrow>
          if \<not> neg \<and> 2 ^ 63 \<le> un then (max_int64, Some ErrRange)
          else if neg \<and> 2 ^ 63 < un then (min_int64, Some ErrRange)
          else (if neg then - int un else int un, None))"

definition ParseInt :: "string \<Rightarrow> int \<times> num_err option" where
  "ParseInt s =
     (case s of
        [] \<Rightarrow> (0, Some ErrSyntax)
      | c # cs \<Rightarrow>
          if c = CHR ''+'' then ParseInt_parts False cs
          else if c = CHR ''-'' then ParseInt_parts True cs
          else ParseInt_parts False s)"

abbreviation Atoi :: "string \<Rightarrow> int \<times> num_err option" where
  "Atoi \<equiv> ParseInt"

text \<open>The result where the caller stops at any error.\<close>

definition parse_ok :: "string \<Rightarrow> int option" where
  "parse_ok s = (case ParseInt s of (v, None) \<Rightarrow> Some v | (_, Some _) \<Rightarrow> None)"

subsection \<open>Digits\<close>

lemma digit_cases: "(d::nat) < 10 \<Longrightarrow>
  d = 0 \<or> d = 1 \<or> d = 2 \<or> d = 3 \<or> d = 4 \<or> d = 5 \<or> d = 6 \<or> d = 7 \<or> d = 8 \<or> d = 9"
  by arith

lemma is_digit_char [simp]: "d < 10 \<Longrightarrow> is_digit (digit_char d)"
  by (drule digit_cases) (auto simp: digit_char_def is_digit_def)

lemma digit_val_char [simp]: "d < 10 \<Longrightarrow> digit_val (digit_char d) = d"
  by (drule digit_cases) (auto simp: digit_char_def digit_val_def)

lemma digit_val_less: "is_digit c \<Longrightarrow> digit_val c < 10"
  by (auto simp: is_digit_def digit_val_def)

lemma nat_digits_not_Nil [simp]: "nat_digits n \<noteq> []"
  by (subst nat_digits.simps) simp

lemma nat_digits_all_digits: "c \<in> set (nat_digits n) \<Longrightarrow> is_digit c"
proof (induction n rule: nat_digits.induct)
  case (1 n)
  then show ?case
    by (cases "n < 10") (auto simp: nat_digits.simps [of n])
qed

lemma is_digit_not [simp]:
  "\<not> is_digit CR" "\<not> is_digit LF" "\<not> is_digit (CHR ''-'')" "\<not> is_digit (CHR ''+'')"
  "\<not> is_digit (CHR '' '')"
  by (simp_all add: is_digit_def CR_def LF_def)

lemma Itoa_chars: "c \<in> set (Itoa x) \<Longrightarrow> is_digit c \<or> c = CHR ''-''"
  by (auto simp: Itoa_def dest: nat_digits_all_digits split: if_splits)

lemma Itoa_no_LF: "LF \<notin> set (Itoa x)"
  using Itoa_chars [of LF x] by (auto simp: LF_def is_digit_def)

lemma Itoa_not_Nil [simp]: "Itoa x \<noteq> []"
  by (simp add: Itoa_def)

subsection \<open>Parsing what was printed\<close>

lemma parse_uint_loop_snoc:
  "parse_uint_loop n (cs @ [c]) =
     (case parse_uint_loop n cs of
        Inl e \<Rightarrow> Inl e
      | Inr m \<Rightarrow> parse_uint_loop m [c])"
  by (induction cs arbitrary: n) (auto simp: Let_def)

lemma parse_uint_loop_digits:
  "n < 2 ^ 64 \<Longrightarrow> parse_uint_loop 0 (nat_digits n) = Inr n"
proof (induction n rule: nat_digits.induct)
  case (1 n)
  show ?case
  proof (cases "n < 10")
    case True
    then show ?thesis by (simp add: nat_digits.simps [of n])
  next
    case False
    with 1 have "parse_uint_loop 0 (nat_digits (n div 10)) = Inr (n div 10)"
      by simp
    moreover have "n div 10 * 10 + n mod 10 = n" by simp
    ultimately show ?thesis
      using False "1.prems"
      by (simp add: nat_digits.simps [of n] parse_uint_loop_snoc Let_def mult.commute)
  qed
qed

lemma parse_uint_digits: "n < 2 ^ 64 \<Longrightarrow> parse_uint (nat_digits n) = Inr n"
  by (simp add: parse_uint_def parse_uint_loop_digits)

lemma ParseInt_digits_sign:
  "ParseInt (nat_digits n) = ParseInt_parts False (nat_digits n)"
proof -
  obtain c cs where d: "nat_digits n = c # cs"
    using nat_digits_not_Nil [of n] by (cases "nat_digits n") auto
  then have "is_digit c"
    using nat_digits_all_digits [of c n] by simp
  then have "c \<noteq> CHR ''+''" and "c \<noteq> CHR ''-''" by auto
  with d show ?thesis by (simp add: ParseInt_def)
qed

lemma ParseInt_Itoa: "in_int64 x \<Longrightarrow> ParseInt (Itoa x) = (x, None)"
proof -
  assume x: "in_int64 x"
  show ?thesis
  proof (cases "x < 0")
    case True
    then have "nat (- x) \<le> 2 ^ 63"
      using x by (simp add: in_int64_def min_int64_def nat_le_iff)
    with True show ?thesis
      by (simp add: Itoa_def ParseInt_def ParseInt_parts_def parse_uint_digits)
  next
    case False
    then have "nat x < 2 ^ 63"
      using x by (simp add: in_int64_def max_int64_def nat_less_iff)
    with False show ?thesis
      by (simp add: Itoa_def ParseInt_digits_sign ParseInt_parts_def parse_uint_digits)
  qed
qed

lemma parse_ok_Itoa [simp]: "in_int64 x \<Longrightarrow> parse_ok (Itoa x) = Some x"
  by (simp add: parse_ok_def ParseInt_Itoa)

lemma ParseInt_parts_range: "in_int64 (fst (ParseInt_parts neg s))"
  by (auto simp: ParseInt_parts_def in_int64_def min_int64_def max_int64_def
      split: sum.splits num_err.splits)

lemma ParseInt_range: "in_int64 (fst (ParseInt s))"
  by (auto simp: ParseInt_def ParseInt_parts_range split: list.splits)
     (simp_all add: in_int64_def min_int64_def max_int64_def)

lemma parse_ok_range: "parse_ok s = Some v \<Longrightarrow> in_int64 v"
  using ParseInt_range [of s] by (auto simp: parse_ok_def split: prod.splits option.splits)

lemma nat_digits_inject: "nat_digits a = nat_digits b \<Longrightarrow> a = b"
proof (induction a arbitrary: b rule: nat_digits.induct)
  case (1 a)
  show ?case
  proof (cases "a < 10")
    case True
    then have "nat_digits b = [digit_char a]"
      using "1.prems" by (simp add: nat_digits.simps [of a])
    then have "b < 10 \<and> digit_char b = digit_char a"
      by (subst (asm) nat_digits.simps) (auto split: if_splits)
    with True show ?thesis by (metis digit_val_char)
  next
    case False
    note a = this
    show ?thesis
    proof (cases "b < 10")
      case True
      with a "1.prems" show ?thesis by (simp add: nat_digits.simps [of a] nat_digits.simps [of b])
    next
      case False
      with a "1.prems" have "nat_digits (a div 10) = nat_digits (b div 10)"
        and "digit_char (a mod 10) = digit_char (b mod 10)"
        by (simp_all add: nat_digits.simps [of a] nat_digits.simps [of b])
      then have "a div 10 = b div 10" and "a mod 10 = b mod 10"
        using "1.IH" [OF a] by (auto dest: arg_cong [where f = digit_val])
      then show ?thesis by (metis div_mult_mod_eq)
    qed
  qed
qed

end
