(* ===== verification/GoStrings.thy ===== *)
theory GoStrings
  imports GoLib
begin

text \<open>
  The functions of Go's package \<open>strings\<close> and of \<open>bufio.Reader\<close> that the server calls.

  White space is Unicode's, as in \<open>unicode.IsSpace\<close>: the six ASCII characters and the UTF-8
  encodings of the others. None of these encodings can start in the middle of a rune, so
  matching them byte by byte is exact.

  \<open>ToUpper\<close> and \<open>ToLower\<close> are exact on ASCII strings. On other strings the server
  compares their results with ASCII words; the only runes outside ASCII with an ASCII letter as
  their upper case are U+0131 and U+017F, as their lower case U+0130 and U+212A. These are
  mapped, all other bytes outside ASCII are kept, so every such comparison has Go's outcome. The
  one place that prints a result, the error message for a command refused in subscriber mode,
  may show other letters than Go for a command name outside ASCII.
\<close>

section \<open>Case\<close>

definition set_bit5 :: "bool \<Rightarrow> char \<Rightarrow> char" where
  "set_bit5 b c = (case c of Char b0 b1 b2 b3 b4 b5 b6 b7 \<Rightarrow> Char b0 b1 b2 b3 b4 b b6 b7)"

definition upper_byte :: "char \<Rightarrow> char" where
  "upper_byte c =
     (if 97 \<le> (of_char c :: nat) \<and> (of_char c :: nat) \<le> 122 then set_bit5 False c else c)"

definition lower_byte :: "char \<Rightarrow> char" where
  "lower_byte c =
     (if 65 \<le> (of_char c :: nat) \<and> (of_char c :: nat) \<le> 90 then set_bit5 True c else c)"

fun ToUpper :: "string \<Rightarrow> string" where
  "ToUpper (c # d # s) =
     (if c = CHR 0xC4 \<and> d = CHR 0xB1 then CHR ''I'' # ToUpper s
      else if c = CHR 0xC5 \<and> d = CHR 0xBF then CHR ''S'' # ToUpper s
      else upper_byte c # ToUpper (d # s))"
| "ToUpper [c] = [upper_byte c]"
| "ToUpper [] = []"

fun ToLower :: "string \<Rightarrow> string" where
  "ToLower (c # d # e # s) =
     (if c = CHR 0xC4 \<and> d = CHR 0xB0 then CHR ''i'' # ToLower (e # s)
      else if c = CHR 0xE2 \<and> d = CHR 0x84 \<and> e = CHR 0xAA then CHR ''k'' # ToLower s
      else lower_byte c # ToLower (d # e # s))"
| "ToLower [c, d] =
     (if c = CHR 0xC4 \<and> d = CHR 0xB0 then ''i'' else [lower_byte c, lower_byte d])"
| "ToLower [c] = [lower_byte c]"
| "ToLower [] = []"

definition is_ascii :: "string \<Rightarrow> bool" where
  "is_ascii s \<longleftrightarrow> (\<forall>c \<in> set s. (of_char c :: nat) < 128)"

lemma ToUpper_ascii: "is_ascii s \<Longrightarrow> ToUpper s = map upper_byte s"
  by (induction s rule: ToUpper.induct) (auto simp: is_ascii_def)

lemma ToLower_ascii: "is_ascii s \<Longrightarrow> ToLower s = map lower_byte s"
  by (induction s rule: ToLower.induct) (auto simp: is_ascii_def)

section \<open>White space\<close>

definition space_runes :: "string list" where
  "space_runes =
     [[CHR 0x20], [CHR 0x09], [CHR 0x0A], [CHR 0x0B], [CHR 0x0C], [CHR 0x0D],
      [CHR 0xC2, CHR 0x85], [CHR 0xC2, CHR 0xA0], [CHR 0xE1, CHR 0x9A, CHR 0x80],
      [CHR 0xE2, CHR 0x80, CHR 0x80], [CHR 0xE2, CHR 0x80, CHR 0x81],
      [CHR 0xE2, CHR 0x80, CHR 0x82], [CHR 0xE2, CHR 0x80, CHR 0x83],
      [CHR 0xE2, CHR 0x80, CHR 0x84], [CHR 0xE2, CHR 0x80, CHR 0x85],
      [CHR 0xE2, CHR 0x80, CHR 0x86], [CHR 0xE2, CHR 0x80, CHR 0x87],
      [CHR 0xE2, CHR 0x80, CHR 0x88], [CHR 0xE2, CHR 0x80, CHR 0x89],
      [CHR 0xE2, CHR 0x80, CHR 0x8A], [CHR 0xE2, CHR 0x80, CHR 0xA8],
      [CHR 0xE2, CHR 0x80, CHR 0xA9], [CHR 0xE2, CHR 0x80, CHR 0xAF],
      [CHR 0xE2, CHR 0x81, CHR 0x9F], [CHR 0xE3, CHR 0x80, CHR 0x80]]"

definition match_prefix :: "string list \<Rightarrow> string \<Rightarrow> string option" where
  "match_prefix ps s = find (\<lambda>p. p \<noteq> [] \<and> prefix p s) ps"

lemma match_prefix_Some: "match_prefix ps s = Some p \<Longrightarrow> p \<noteq> [] \<and> prefix p s"
  by (auto simp: match_prefix_def find_Some_iff)

function strip_prefixes :: "string list \<Rightarrow> string \<Rightarrow> string" where
  "strip_prefixes ps s =
     (case match_prefix ps s of
        None \<Rightarrow> s
      | Some p \<Rightarrow> strip_prefixes ps (drop (length p) s))"
  by pat_completeness auto
termination
  by (relation "measure (\<lambda>(ps, s). length s)")
     (auto dest!: match_prefix_Some simp: prefix_def)

declare strip_prefixes.simps [simp del]

definition TrimSpace :: "string \<Rightarrow> string" where
  "TrimSpace s =
     rev (strip_prefixes (map rev space_runes) (rev (strip_prefixes space_runes s)))"

text \<open>\<open>strings.TrimRight(s, "\r\n")\<close>.\<close>

definition TrimRight_crlf :: "string \<Rightarrow> string" where
  "TrimRight_crlf s = rev (dropWhile (\<lambda>c. c = CR \<or> c = LF) (rev s))"

fun break_space :: "string \<Rightarrow> string \<times> string" where
  "break_space [] = ([], [])"
| "break_space (c # cs) =
     (if match_prefix space_runes (c # cs) \<noteq> None then ([], c # cs)
      else let (t, r) = break_space cs in (c # t, r))"

lemma break_space_length: "length (snd (break_space s)) \<le> length s"
  by (induction s) (auto simp: Let_def split: prod.splits)

lemma strip_prefixes_length: "length (strip_prefixes ps s) \<le> length s"
proof (induction ps s rule: strip_prefixes.induct)
  case (1 ps s)
  then show ?case
    by (subst strip_prefixes.simps) (fastforce split: option.splits)
qed

lemma strip_prefixes_done: "match_prefix ps (strip_prefixes ps s) = None"
proof (induction ps s rule: strip_prefixes.induct)
  case (1 ps s)
  then show ?case
    by (cases "match_prefix ps s") (simp_all add: strip_prefixes.simps [of ps s])
qed

text \<open>\<open>strings.Fields\<close>: the maximal runs of bytes with no white space.\<close>

function Fields :: "string \<Rightarrow> string list" where
  "Fields s =
     (let s' = strip_prefixes space_runes s
      in if s' = [] then []
         else let (t, r) = break_space s' in t # Fields r)"
  by pat_completeness auto
termination
proof (relation "measure length", simp)
  fix s s' p t r
  assume s': "s' = strip_prefixes space_runes s" and ne: "s' \<noteq> []"
    and p: "p = break_space s'" and tr: "(t, r) = p"
  have none: "match_prefix space_runes s' = None"
    using strip_prefixes_done [of space_runes s] s' by simp
  have "length r < length s'"
  proof (cases s')
    case (Cons c cs)
    then have "r = snd (break_space cs)"
      using p tr none by (auto simp: Let_def split: prod.splits)
    with Cons show ?thesis by (simp add: break_space_length le_imp_less_Suc)
  qed (use ne in simp)
  then show "(r, s) \<in> measure length"
    using strip_prefixes_length [of space_runes s] s' by simp
qed

declare Fields.simps [simp del]

section \<open>Splitting\<close>

text \<open>\<open>strings.Split(s, sep)\<close> for a separator of one byte.\<close>

fun split_on :: "char \<Rightarrow> string \<Rightarrow> string list" where
  "split_on c [] = [[]]"
| "split_on c (x # xs) =
     (if x = c then [] # split_on c xs
      else case split_on c xs of [] \<Rightarrow> [[x]] | p # ps \<Rightarrow> (x # p) # ps)"

text \<open>\<open>strings.SplitN(s, sep, 2)\<close> for a separator of one byte.\<close>

definition split_on2 :: "char \<Rightarrow> string \<Rightarrow> string list" where
  "split_on2 c s =
     (if c \<in> set s
      then [takeWhile (\<lambda>x. x \<noteq> c) s, tl (dropWhile (\<lambda>x. x \<noteq> c) s)]
      else [s])"

lemma split_on_not_Nil [simp]: "split_on c s \<noteq> []"
  by (induction s) (auto split: list.splits)

lemma split_on_plain: "c \<notin> set s \<Longrightarrow> split_on c s = [s]"
  by (induction s) auto

lemma split_on_append:
  "c \<notin> set p \<Longrightarrow> split_on c (p @ c # s) = p # split_on c s"
  by (induction p) auto

lemma length_split_on: "length (split_on c s) = Suc (count_list s c)"
proof (induction s)
  case (Cons x s)
  then show ?case
    by (cases "split_on c s") auto
qed simp

text \<open>Joining the pieces with the separator gives the string back.\<close>

fun join_with :: "char \<Rightarrow> string list \<Rightarrow> string" where
  "join_with c [] = []"
| "join_with c [p] = p"
| "join_with c (p # ps) = p @ c # join_with c ps"

lemma join_split: "join_with c (split_on c s) = s"
proof (induction s)
  case (Cons x s)
  then obtain p ps where "split_on c s = p # ps"
    using split_on_not_Nil [of c s] by (cases "split_on c s") auto
  with Cons show ?case by (cases ps) auto
qed simp

section \<open>Reading a line\<close>

text \<open>
  \<open>ReadString(delim)\<close> on the bytes still to come: the bytes up to and including the first
  delimiter and what follows, or \<open>None\<close> for \<open>io.EOF\<close>.
\<close>

fun ReadString :: "char \<Rightarrow> string \<Rightarrow> (string \<times> string) option" where
  "ReadString d [] = None"
| "ReadString d (c # cs) =
     (if c = d then Some ([c], cs)
      else case ReadString d cs of
             None \<Rightarrow> None
           | Some (l, r) \<Rightarrow> Some (c # l, r))"

lemma ReadString_append:
  "d \<notin> set p \<Longrightarrow> ReadString d (p @ d # s) = Some (p @ [d], s)"
  by (induction p) auto

lemma ReadString_split: "ReadString d s = Some (l, r) \<Longrightarrow> s = l @ r \<and> l \<noteq> []"
  by (induction s arbitrary: l r) (auto split: if_splits option.splits)

lemma ReadString_length: "ReadString d s = Some (l, r) \<Longrightarrow> length r < length s"
  by (auto dest!: ReadString_split)

lemma ReadString_mono: "ReadString d s = Some (l, r) \<Longrightarrow> ReadString d (s @ t) = Some (l, r @ t)"
  by (induction s arbitrary: l r) (auto split: if_splits option.splits)

subsection \<open>Trimming a printed number\<close>

lemma strip_prefixes_id:
  "match_prefix ps s = None \<Longrightarrow> strip_prefixes ps s = s"
  by (subst strip_prefixes.simps) simp

lemma match_prefix_None_hd:
  "(\<forall>p \<in> set ps. p = [] \<or> hd p \<noteq> c) \<Longrightarrow> match_prefix ps (c # cs) = None"
  by (auto simp: match_prefix_def find_None_iff prefix_Cons)

definition plain_char :: "char \<Rightarrow> bool" where
  "plain_char c \<longleftrightarrow> 32 < (of_char c :: nat) \<and> (of_char c :: nat) < 128"

lemma digit_plain: "is_digit c \<Longrightarrow> plain_char c"
  by (simp add: is_digit_def plain_char_def)

lemma minus_plain [simp]: "plain_char (CHR ''-'')"
  by (simp add: plain_char_def)

lemma plain_not_space: "plain_char c \<Longrightarrow> match_prefix space_runes (c # cs) = None"
  by (rule match_prefix_None_hd) (auto simp: space_runes_def plain_char_def)

lemma plain_not_space_rev: "plain_char c \<Longrightarrow> match_prefix (map rev space_runes) (c # cs) = None"
  by (rule match_prefix_None_hd) (auto simp: space_runes_def plain_char_def)

lemma strip_rev_crlf:
  "strip_prefixes (map rev space_runes) (LF # CR # s) = strip_prefixes (map rev space_runes) s"
proof -
  have "match_prefix (map rev space_runes) (LF # CR # s) = Some [LF]"
    and "match_prefix (map rev space_runes) (CR # s) = Some [CR]"
    by (simp_all add: match_prefix_def space_runes_def LF_def CR_def)
  then show ?thesis
    by (simp add: strip_prefixes.simps [of _ "LF # CR # s"] strip_prefixes.simps [of _ "CR # s"])
qed

lemma match_ascii_space:
  "match_prefix space_runes (CHR '' '' # s) = Some '' ''"
  "match_prefix space_runes (CHR 0x0A # s) = Some [CHR 0x0A]"
  "match_prefix space_runes (CHR 0x0D # s) = Some [CHR 0x0D]"
  "match_prefix (map rev space_runes) (CHR '' '' # s) = Some '' ''"
  "match_prefix (map rev space_runes) (CHR 0x0A # s) = Some [CHR 0x0A]"
  "match_prefix (map rev space_runes) (CHR 0x0D # s) = Some [CHR 0x0D]"
  by (simp_all add: match_prefix_def space_runes_def)

lemma strip_space_eval [go_eval]:
  "strip_prefixes space_runes [] = []"
  "plain_char c \<Longrightarrow> strip_prefixes space_runes (c # s) = c # s"
  "strip_prefixes space_runes (CHR '' '' # s) = strip_prefixes space_runes s"
  "strip_prefixes space_runes (CHR 0x0A # s) = strip_prefixes space_runes s"
  "strip_prefixes space_runes (CHR 0x0D # s) = strip_prefixes space_runes s"
  "strip_prefixes (map rev space_runes) [] = []"
  "plain_char c \<Longrightarrow> strip_prefixes (map rev space_runes) (c # s) = c # s"
  "strip_prefixes (map rev space_runes) (CHR '' '' # s) = strip_prefixes (map rev space_runes) s"
  "strip_prefixes (map rev space_runes) (CHR 0x0A # s) = strip_prefixes (map rev space_runes) s"
  "strip_prefixes (map rev space_runes) (CHR 0x0D # s) = strip_prefixes (map rev space_runes) s"
proof -
  show "strip_prefixes space_runes [] = []" "strip_prefixes (map rev space_runes) [] = []"
    by (rule strip_prefixes_id, simp add: match_prefix_def space_runes_def)+
  show "plain_char c \<Longrightarrow> strip_prefixes space_runes (c # s) = c # s"
    "plain_char c \<Longrightarrow> strip_prefixes (map rev space_runes) (c # s) = c # s"
    by (simp_all add: strip_prefixes_id plain_not_space plain_not_space_rev)
qed (subst strip_prefixes.simps, simp add: match_ascii_space)+

lemma match_space_eval [go_eval]:
  "plain_char c \<Longrightarrow> match_prefix space_runes (c # s) = None"
  "match_prefix space_runes (CHR '' '' # s) = Some '' ''"
  by (simp_all add: plain_not_space match_ascii_space)

lemmas parse_eval [go_eval] =
  ParseInt_def ParseInt_parts_def parse_uint_def is_digit_def digit_val_def

lemmas case_eval [go_eval] = upper_byte_def lower_byte_def set_bit5_def

lemmas print_eval [go_eval] = Itoa_def nat_digits.simps digit_char_def

lemma TrimSpace_plain_crlf:
  assumes "s \<noteq> []" and "\<forall>c \<in> set s. plain_char c"
  shows "TrimSpace (s @ crlf) = s"
proof -
  obtain c cs where c: "s = c # cs" using assms(1) by (cases s) auto
  obtain d ds where d: "rev s = d # ds" using assms(1) by (cases "rev s") auto
  have "c \<in> set s" using c by simp
  moreover have "d \<in> set s" using d by (metis list.set_intros(1) set_rev)
  ultimately have pc: "plain_char c" and pd: "plain_char d"
    using assms(2) by blast+
  have left: "strip_prefixes space_runes (s @ crlf) = s @ crlf"
    using c pc by (simp add: strip_prefixes_id plain_not_space)
  have "strip_prefixes (map rev space_runes) (rev s) = rev s"
    using d pd by (simp add: strip_prefixes_id plain_not_space_rev)
  then have right: "strip_prefixes (map rev space_runes) (rev (s @ crlf)) = rev s"
    by (simp add: crlf_def strip_rev_crlf)
  show ?thesis
    unfolding TrimSpace_def left right by simp
qed

lemma TrimSpace_Itoa_crlf [simp]: "TrimSpace (Itoa x @ crlf) = Itoa x"
proof (rule TrimSpace_plain_crlf)
  show "\<forall>c \<in> set (Itoa x). plain_char c"
    by (auto dest!: Itoa_chars intro: digit_plain)
qed simp

lemma ReadString_Itoa_crlf [simp]:
  "ReadString LF (Itoa x @ crlf @ s) = Some (Itoa x @ crlf, s)"
proof -
  have "LF \<notin> set (Itoa x @ [CR])"
    using Itoa_no_LF by (simp add: LF_def CR_def)
  then show ?thesis
    using ReadString_append [of LF "Itoa x @ [CR]" s] by (simp add: crlf_def)
qed

section \<open>Plain words\<close>

definition plain_word :: "string \<Rightarrow> bool" where
  "plain_word w \<longleftrightarrow> w \<noteq> [] \<and> list_all plain_char w"

lemma break_space_word:
  "list_all plain_char w \<Longrightarrow> break_space (w @ CHR '' '' # r) = (w, CHR '' '' # r)"
  "list_all plain_char w \<Longrightarrow> break_space w = (w, [])"
  by (induction w) (simp_all add: match_space_eval)

lemma strip_space_word:
  "plain_word w \<Longrightarrow> strip_prefixes space_runes (w @ r) = w @ r"
  "plain_word w \<Longrightarrow> strip_prefixes (map rev space_runes) (rev w @ r) = rev w @ r"
proof -
  assume w: "plain_word w"
  then obtain c cs where "w = c # cs" "plain_char c" by (cases w) (auto simp: plain_word_def)
  then show "strip_prefixes space_runes (w @ r) = w @ r" by (simp add: strip_space_eval)
  obtain d ds where d: "rev w = d # ds" using w by (cases "rev w") (auto simp: plain_word_def)
  then have "d \<in> set w" by (metis list.set_intros(1) set_rev)
  then have "plain_char d" using w by (simp add: plain_word_def list_all_iff)
  with d show "strip_prefixes (map rev space_runes) (rev w @ r) = rev w @ r"
    by (simp add: strip_space_eval)
qed

lemma Fields_Nil [simp]: "Fields [] = []"
  by (subst Fields.simps) (simp add: strip_space_eval)

lemma Fields_space: "Fields (CHR '' '' # r) = Fields r"
  by (subst (1 2) Fields.simps) (simp only: strip_space_eval)

lemma Fields_word:
  "plain_word w \<Longrightarrow> Fields (w @ CHR '' '' # r) = w # Fields r"
  "plain_word w \<Longrightarrow> Fields w = [w]"
proof -
  assume w: "plain_word w"
  then have ne: "w \<noteq> []" and pl: "list_all plain_char w" by (simp_all add: plain_word_def)
  show "Fields (w @ CHR '' '' # r) = w # Fields r"
    by (subst Fields.simps) (simp add: strip_space_word [OF w] break_space_word [OF pl] Fields_space)
  show "Fields w = [w]"
    using strip_space_word(1) [OF w, of "[]"]
    by (subst Fields.simps) (simp add: ne break_space_word(2) [OF pl])
qed

text \<open>White space around is trimmed off a text that begins and ends with words.\<close>

lemma TrimSpace_words:
  "plain_word a \<Longrightarrow> plain_word b \<Longrightarrow> TrimSpace (a @ m @ b) = a @ m @ b"
  "plain_word a \<Longrightarrow> TrimSpace a = a"
proof -
  assume a: "plain_word a"
  show "TrimSpace a = a"
    using strip_space_word [OF a, of "[]"] by (simp add: TrimSpace_def)
  assume b: "plain_word b"
  show "TrimSpace (a @ m @ b) = a @ m @ b"
    using strip_space_word(2) [OF b] by (simp add: TrimSpace_def strip_space_word(1) [OF a])
qed

end
