(* ===== verification/Resp.thy ===== *)
theory Resp
  imports GoStrings
begin

text \<open>
  The wire format: the parser of \<open>app/resp.go\<close>, the encoder \<open>encodeRESPArray\<close> of
  \<open>app/aof.go\<close> (used for the append-only file, for replication and for \<open>ACL GETUSER\<close>), and
  the reply writers of \<open>app/conn.go\<close> and \<open>app/commands.go\<close> as the bytes they write.

  The reader of the source is a stream of bytes; the model parses the list of bytes still to
  come and returns the rest. A Go \<open>any\<close> that comes out of the parser is nil, a string, an int
  or a slice, the four constructors of \<open>resp\<close>.
\<close>

section \<open>Values and results\<close>

datatype resp = RNull | RStr string | RInt int | RArr "resp list"

text \<open>
  Error values. \<open>replayAOFCommands\<close> compares an error's text with "EOF", so an error reply
  \<open>-EOF\<close> of the peer counts as the end of the stream, as in the source.
\<close>

datatype go_err = EOF | UnexpectedEOF | NumError num_err | ErrText string | UnknownPrefix char

definition err_is_EOF :: "go_err \<Rightarrow> bool" where
  "err_is_EOF e \<longleftrightarrow> e = EOF \<or> e = ErrText ''EOF''"

text \<open>
  What a parser call can do: return a value and the bytes after it, return an error, or panic
  (\<open>make([]byte, n)\<close> with an impossible length). \<open>PFuel\<close> marks an exhausted recursion
  bound; \<open>ParseRESP_total\<close> shows it never occurs.
\<close>

datatype 'a pres = POk 'a string | PErr go_err | PPanic | PFuel

text \<open>\<open>make([]byte, n)\<close> panics for a negative \<open>n\<close> and beyond the runtime's largest allocation.\<close>

definition max_alloc :: int where "max_alloc = 2 ^ 48"

section \<open>The parser\<close>

text \<open>
  The two statements three of the handlers start with: read a line, convert its trimmed text
  to a number. The source writes them out each time.
\<close>

definition read_int_line :: "string \<Rightarrow> go_err + int \<times> string" where
  "read_int_line inp =
     (case ReadString LF inp of
        None \<Rightarrow> Inl EOF
      | Some (line, rest) \<Rightarrow>
         (case Atoi (TrimSpace line) of
            (_, Some e) \<Rightarrow> Inl (NumError e)
          | (n, None) \<Rightarrow> Inr (n, rest)))"

definition handleRESPBulkString :: "string \<Rightarrow> resp pres" where
  "handleRESPBulkString inp =
     (case read_int_line inp of
        Inl e \<Rightarrow> PErr e
      | Inr (items, rest) \<Rightarrow>
          if items = -1 then POk RNull rest
          else if items < 0 \<or> max_alloc < items then PPanic
          else if length rest < nat items
            then PErr (if rest = [] then EOF else UnexpectedEOF)
          else if length rest < nat items + 2 then PErr EOF
          else POk (RStr (take (nat items) rest)) (drop (nat items + 2) rest))"

definition handleRESPSimpleString :: "string \<Rightarrow> resp pres" where
  "handleRESPSimpleString inp =
     (case ReadString LF inp of
        None \<Rightarrow> PErr EOF
      | Some (line, rest) \<Rightarrow> POk (RStr (TrimRight_crlf line)) rest)"

definition handleRESPError :: "string \<Rightarrow> resp pres" where
  "handleRESPError inp =
     (case ReadString LF inp of
        None \<Rightarrow> PErr EOF
      | Some (line, rest) \<Rightarrow> PErr (ErrText (TrimRight_crlf line)))"

definition handleRESPInteger :: "string \<Rightarrow> resp pres" where
  "handleRESPInteger inp =
     (case read_int_line inp of
        Inl e \<Rightarrow> PErr e
      | Inr (number, rest) \<Rightarrow> POk (RInt number) rest)"

text \<open>
  \<open>ParseRESP\<close>, \<open>handleRESPArray\<close> and its loop. The fuel bounds the nesting of arrays; the
  loop \<open>parse_elems\<close> counts down the elements still to read.
\<close>

fun parse_resp :: "nat \<Rightarrow> string \<Rightarrow> resp pres"
  and handleRESPArray :: "nat \<Rightarrow> string \<Rightarrow> resp pres"
  and parse_elems :: "nat \<Rightarrow> nat \<Rightarrow> string \<Rightarrow> resp list pres" where
  "parse_resp 0 inp = PFuel"
| "parse_resp (Suc f) [] = PErr EOF"
| "parse_resp (Suc f) (c # inp) =
     (if c = CHR ''*'' then handleRESPArray f inp
      else if c = CHR ''$'' then handleRESPBulkString inp
      else if c = CHR ''+'' then handleRESPSimpleString inp
      else if c = CHR ''-'' then handleRESPError inp
      else if c = CHR '':'' then handleRESPInteger inp
      else PErr (UnknownPrefix c))"
| "handleRESPArray f inp =
     (case read_int_line inp of
        Inl e \<Rightarrow> PErr e
      | Inr (cnt, rest) \<Rightarrow>
          if cnt = -1 then POk RNull rest
          else (case parse_elems f (nat cnt) rest of
                  POk arr rest' \<Rightarrow> POk (RArr arr) rest'
                | PErr e \<Rightarrow> PErr e
                | PPanic \<Rightarrow> PPanic
                | PFuel \<Rightarrow> PFuel))"
| "parse_elems f 0 inp = POk [] inp"
| "parse_elems f (Suc n) inp =
     (case parse_resp f inp of
        POk v rest \<Rightarrow>
          (case parse_elems f n rest of
             POk vs rest' \<Rightarrow> POk (v # vs) rest'
           | PErr e \<Rightarrow> PErr e
           | PPanic \<Rightarrow> PPanic
           | PFuel \<Rightarrow> PFuel)
      | PErr e \<Rightarrow> PErr e
      | PPanic \<Rightarrow> PPanic
      | PFuel \<Rightarrow> PFuel)"

declare handleRESPArray.simps [simp del]

definition ParseRESP :: "string \<Rightarrow> resp pres" where
  "ParseRESP inp = parse_resp (Suc (length inp)) inp"

section \<open>Encoders\<close>

text \<open>\<open>$<len>\r\n<bytes>\r\n\<close>: the bulk string form all writers share.\<close>

definition bulk :: "string \<Rightarrow> string" where
  "bulk s = ''$'' @ Itoa (int (length s)) @ crlf @ s @ crlf"

definition array_header :: "nat \<Rightarrow> string" where
  "array_header n = ''*'' @ Itoa (int n) @ crlf"

fun encode_item :: "resp \<Rightarrow> string" where
  "encode_item (RStr v) = bulk v"
| "encode_item (RArr vs) = array_header (length vs) @ concat (map encode_item vs)"
| "encode_item RNull = ''$-1'' @ crlf"
| "encode_item (RInt n) = bulk (Itoa n)"

definition encodeRESPArray :: "resp list \<Rightarrow> string" where
  "encodeRESPArray arr = array_header (length arr) @ concat (map encode_item arr)"

text \<open>
  The reply writers; each writes nothing when the connection is nil, which the handlers'
  model decides, so here they are the bytes alone.
\<close>

definition writeOK_bytes :: string where
  "writeOK_bytes = ''+OK'' @ crlf"

definition writeErr_bytes :: "string \<Rightarrow> string" where
  "writeErr_bytes msg =
     (if prefix ''ERR '' msg \<or> prefix ''NOAUTH '' msg \<or> prefix ''WRONGPASS '' msg
         \<or> prefix ''WRONGTYPE '' msg
      then ''-'' else ''-ERR '') @ msg @ crlf"

definition writeNullBulk_bytes :: string where
  "writeNullBulk_bytes = ''$-1'' @ crlf"

definition writeInteger_bytes :: "int \<Rightarrow> string" where
  "writeInteger_bytes value = '':'' @ Itoa value @ crlf"

definition writeString_bytes :: "string \<Rightarrow> string" where
  "writeString_bytes value = ''+'' @ value @ crlf"

definition writeBulkString_bytes :: "string \<Rightarrow> string" where
  "writeBulkString_bytes s = bulk s"

definition writeArrayResponse_bytes :: "string list \<Rightarrow> string" where
  "writeArrayResponse_bytes items = array_header (length items) @ concat (map bulk items)"

end
