(* ===== verification/RespFacts.thy ===== *)
theory RespFacts
  imports Resp
begin

text \<open>
  Facts about the wire format: the parser always terminates within its recursion bound and
  consumes input, its result does not depend on bytes that arrive later, it inverts the
  encoder, and every reply writer produces a message the parser accepts. The locale
  \<open>framing\<close> states what a reader of a log or of a replication stream relies on; the
  interpretation \<open>wire\<close> discharges it for \<open>encodeRESPArray\<close> and \<open>ParseRESP\<close>.
\<close>

section \<open>Progress and termination\<close>

lemma read_int_line_length: "read_int_line inp = Inr (n, rest) \<Longrightarrow> length rest < length inp"
  by (auto simp: read_int_line_def dest: ReadString_length split: option.splits prod.splits)

lemma read_int_line_extend:
  "read_int_line inp = Inr (n, rest) \<Longrightarrow> read_int_line (inp @ t) = Inr (n, rest @ t)"
  by (auto simp: read_int_line_def ReadString_mono split: option.splits prod.splits)

lemma leaf_shrinks:
  "handleRESPBulkString inp = POk v rest \<Longrightarrow> length rest < length inp"
  "handleRESPSimpleString inp = POk v rest \<Longrightarrow> length rest < length inp"
  "handleRESPInteger inp = POk v rest \<Longrightarrow> length rest < length inp"
  by (auto simp: handleRESPBulkString_def handleRESPSimpleString_def handleRESPInteger_def
      dest!: read_int_line_length dest: ReadString_length split: sum.splits option.splits if_splits)

lemma handleRESPError_never [simp]: "handleRESPError inp \<noteq> POk v rest"
  by (auto simp: handleRESPError_def split: option.splits)

text \<open>How the array handler and its loop can succeed or run out of fuel.\<close>

lemma handleRESPArray_POk:
  "handleRESPArray f inp = POk v rest \<longleftrightarrow>
     (\<exists>cnt mid. read_int_line inp = Inr (cnt, mid) \<and>
       (if cnt = -1 then v = RNull \<and> rest = mid
        else \<exists>arr. v = RArr arr \<and> parse_elems f (nat cnt) mid = POk arr rest))"
  by (auto simp: handleRESPArray.simps split: sum.splits pres.splits)

lemma handleRESPArray_PFuel:
  "handleRESPArray f inp = PFuel \<longleftrightarrow>
     (\<exists>cnt mid. read_int_line inp = Inr (cnt, mid) \<and> cnt \<noteq> -1 \<and>
       parse_elems f (nat cnt) mid = PFuel)"
  by (auto simp: handleRESPArray.simps split: sum.splits pres.splits)

lemma parse_elems_POk:
  "parse_elems f (Suc n) inp = POk vs rest \<longleftrightarrow>
     (\<exists>v mid ws. vs = v # ws \<and> parse_resp f inp = POk v mid \<and> parse_elems f n mid = POk ws rest)"
  by (auto split: pres.splits)

lemma parse_elems_PFuel:
  "parse_elems f (Suc n) inp = PFuel \<longleftrightarrow>
     parse_resp f inp = PFuel \<or>
     (\<exists>v mid. parse_resp f inp = POk v mid \<and> parse_elems f n mid = PFuel)"
  by (auto split: pres.splits)

lemmas parse_inversion =
  handleRESPArray_POk handleRESPArray_PFuel parse_elems_POk parse_elems_PFuel

text \<open>Case analysis on the prefix byte.\<close>

lemma parse_resp_Cons_POk:
  "parse_resp (Suc f) (c # inp) = POk v rest \<Longrightarrow>
     c = CHR ''*'' \<and> handleRESPArray f inp = POk v rest \<or>
     c = CHR ''$'' \<and> handleRESPBulkString inp = POk v rest \<or>
     c = CHR ''+'' \<and> handleRESPSimpleString inp = POk v rest \<or>
     c = CHR '':'' \<and> handleRESPInteger inp = POk v rest"
  by (simp split: if_splits)

lemma parse_shrinks:
  "parse_resp f inp = POk v rest \<Longrightarrow> length rest < length inp"
  "handleRESPArray f inp = POk v rest \<Longrightarrow> length rest < length inp"
  "parse_elems f n inp = POk vs rest \<Longrightarrow> length rest \<le> length inp"
proof (induction f inp and f inp and f n inp arbitrary: v rest and v rest and vs rest
    rule: parse_resp_handleRESPArray_parse_elems.induct)
  case (3 f c inp)
  show ?case
    using parse_resp_Cons_POk [OF "3.prems"]
    by (elim disjE) (auto dest!: "3.IH" dest: leaf_shrinks)
next
  case (4 f inp)
  then show ?case
    by (fastforce simp: handleRESPArray_POk dest: read_int_line_length split: if_splits)
next
  case (6 f n inp)
  then show ?case
    by (fastforce simp: parse_elems_POk simp del: parse_elems.simps)
qed simp_all

lemma leaf_not_fuel [simp]:
  "handleRESPBulkString inp \<noteq> PFuel" "handleRESPSimpleString inp \<noteq> PFuel"
  "handleRESPError inp \<noteq> PFuel" "handleRESPInteger inp \<noteq> PFuel"
  by (auto simp: handleRESPBulkString_def handleRESPSimpleString_def handleRESPError_def
      handleRESPInteger_def split: sum.splits option.splits)

lemma parse_enough_fuel:
  "length inp < f \<Longrightarrow> parse_resp f inp \<noteq> PFuel"
  "length inp \<le> f \<Longrightarrow> handleRESPArray f inp \<noteq> PFuel"
  "length inp < f \<Longrightarrow> parse_elems f n inp \<noteq> PFuel"
proof (induction f inp and f inp and f n inp
    rule: parse_resp_handleRESPArray_parse_elems.induct)
  case (4 f inp)
  then show ?case
    by (fastforce simp: handleRESPArray_PFuel dest: read_int_line_length)
next
  case (6 f n inp)
  then show ?case
    by (fastforce simp: parse_elems_PFuel simp del: parse_elems.simps dest: parse_shrinks)
qed auto

text \<open>Past the point where it does not run out, more fuel changes nothing.\<close>

lemma parse_Suc_fuel:
  "parse_resp f inp \<noteq> PFuel \<Longrightarrow> parse_resp (Suc f) inp = parse_resp f inp"
  "handleRESPArray f inp \<noteq> PFuel \<Longrightarrow> handleRESPArray (Suc f) inp = handleRESPArray f inp"
  "parse_elems f n inp \<noteq> PFuel \<Longrightarrow> parse_elems (Suc f) n inp = parse_elems f n inp"
proof (induction f inp and f inp and f n inp
    rule: parse_resp_handleRESPArray_parse_elems.induct)
  case (3 f c inp)
  then show ?case by (simp only: parse_resp.simps) (simp split: if_splits)
next
  case (4 f inp)
  show ?case
  proof (cases "read_int_line inp")
    case (Inr p)
    obtain cnt mid where "p = (cnt, mid)" by (cases p)
    with Inr 4 show ?thesis
      by (cases "parse_elems f (nat cnt) mid")
         (auto simp: handleRESPArray.simps [of f] handleRESPArray.simps [of "Suc f"])
  qed (simp add: handleRESPArray.simps)
next
  case (6 f n inp)
  then show ?case
    by (cases "parse_resp f inp") (auto split: pres.splits)
qed simp_all

lemma parse_more_fuel:
  assumes "parse_resp f inp \<noteq> PFuel" and "f \<le> g"
  shows "parse_resp g inp = parse_resp f inp"
  using assms(2)
proof (induction g rule: dec_induct)
  case (step g)
  then show ?case
    using parse_Suc_fuel(1) [of g inp] assms(1) by metis
qed (rule refl)

lemma parse_fuel_irrelevant:
  assumes "parse_resp f inp \<noteq> PFuel" and "parse_resp g inp \<noteq> PFuel"
  shows "parse_resp f inp = parse_resp g inp"
proof (cases "f \<le> g")
  case True
  then show ?thesis using parse_more_fuel [OF assms(1)] by metis
next
  case False
  then have "g \<le> f" by simp
  then show ?thesis using parse_more_fuel [OF assms(2)] by metis
qed

lemma ParseRESP_not_fuel: "ParseRESP inp \<noteq> PFuel"
  unfolding ParseRESP_def by (rule parse_enough_fuel) simp

lemma ParseRESP_eqI: "parse_resp f inp = r \<Longrightarrow> r \<noteq> PFuel \<Longrightarrow> ParseRESP inp = r"
  unfolding ParseRESP_def
  by (metis ParseRESP_def ParseRESP_not_fuel parse_fuel_irrelevant)

lemma ParseRESP_shrinks: "ParseRESP inp = POk v rest \<Longrightarrow> length rest < length inp"
  unfolding ParseRESP_def by (rule parse_shrinks)

section \<open>Later bytes do not matter\<close>

lemma leaf_extend:
  "handleRESPBulkString inp = POk v rest \<Longrightarrow> handleRESPBulkString (inp @ t) = POk v (rest @ t)"
  "handleRESPSimpleString inp = POk v rest \<Longrightarrow> handleRESPSimpleString (inp @ t) = POk v (rest @ t)"
  "handleRESPInteger inp = POk v rest \<Longrightarrow> handleRESPInteger (inp @ t) = POk v (rest @ t)"
  by (auto simp: handleRESPBulkString_def handleRESPSimpleString_def handleRESPInteger_def
      ReadString_mono read_int_line_extend split: sum.splits option.splits if_splits)

lemma parse_extend:
  "parse_resp f inp = POk v rest \<Longrightarrow> parse_resp f (inp @ t) = POk v (rest @ t)"
  "handleRESPArray f inp = POk v rest \<Longrightarrow> handleRESPArray f (inp @ t) = POk v (rest @ t)"
  "parse_elems f n inp = POk vs rest \<Longrightarrow> parse_elems f n (inp @ t) = POk vs (rest @ t)"
proof (induction f inp and f inp and f n inp arbitrary: v rest and v rest and vs rest
    rule: parse_resp_handleRESPArray_parse_elems.induct)
  case (3 f c inp)
  show ?case
    using parse_resp_Cons_POk [OF "3.prems"]
    by (elim disjE) (auto dest!: "3.IH" simp: leaf_extend)
next
  case (4 f inp)
  obtain cnt mid where line: "read_int_line inp = Inr (cnt, mid)"
    using "4.prems" by (auto simp: handleRESPArray_POk)
  then show ?case
    using 4 read_int_line_extend [OF line, of t]
    by (cases "cnt = -1") (auto simp: handleRESPArray_POk)
next
  case (6 f n inp)
  then show ?case
    by (fastforce simp: parse_elems_POk simp del: parse_elems.simps)
qed simp_all

lemma ParseRESP_extend:
  assumes "ParseRESP inp = POk v rest"
  shows "ParseRESP (inp @ t) = POk v (rest @ t)"
proof (rule ParseRESP_eqI)
  show "parse_resp (Suc (length inp)) (inp @ t) = POk v (rest @ t)"
    using assms unfolding ParseRESP_def by (rule parse_extend)
qed simp

section \<open>Round trip\<close>

text \<open>
  What the encoder's arguments satisfy in a running program: lengths that fit a Go slice, and
  for strings an allocation the reader's \<open>make\<close> accepts. An int comes back as its text, since
  \<open>encodeRESPArray\<close> writes every scalar as a bulk string.
\<close>

fun go_sized :: "resp \<Rightarrow> bool" where
  "go_sized RNull = True"
| "go_sized (RStr s) = (int (length s) \<le> max_alloc)"
| "go_sized (RInt n) = in_int64 n"
| "go_sized (RArr vs) = (int (length vs) \<le> max_int64 \<and> list_all go_sized vs)"

fun as_read :: "resp \<Rightarrow> resp" where
  "as_read RNull = RNull"
| "as_read (RStr s) = RStr s"
| "as_read (RInt n) = RStr (Itoa n)"
| "as_read (RArr vs) = RArr (map as_read vs)"

lemma length_nat_digits: "n < 10 ^ k \<Longrightarrow> 0 < k \<Longrightarrow> length (nat_digits n) \<le> k"
proof (induction n arbitrary: k rule: nat_digits.induct)
  case (1 n)
  show ?case
  proof (cases "n < 10")
    case False
    then obtain j where k: "k = Suc j" "0 < j"
      using "1.prems" by (cases k; cases "k - 1") auto
    then have "n div 10 < 10 ^ j"
      using "1.prems" by (simp add: less_mult_imp_div_less mult.commute)
    with False k "1.IH" show ?thesis
      by (simp add: nat_digits.simps [of n])
  qed (use "1.prems" in \<open>simp add: nat_digits.simps [of n]\<close>)
qed

lemma length_Itoa: "in_int64 n \<Longrightarrow> length (Itoa n) \<le> 20"
proof -
  assume n: "in_int64 n"
  then have "nat n < 10 ^ 19" and "nat (- n) < 10 ^ 19"
    by (simp_all add: in_int64_def min_int64_def max_int64_def) linarith+
  then have "length (nat_digits (nat n)) \<le> 19" and "length (nat_digits (nat (- n))) \<le> 19"
    by (simp_all add: length_nat_digits)
  then show ?thesis by (simp add: Itoa_def)
qed

lemma length_crlf [simp]: "length crlf = 2"
  by (simp add: crlf_def)

lemma read_int_line_Itoa [simp]:
  "in_int64 n \<Longrightarrow> read_int_line (Itoa n @ crlf @ s) = Inr (n, s)"
  by (simp add: read_int_line_def ParseInt_Itoa)

lemma int_length_in_int64: "int k \<le> max_int64 \<Longrightarrow> in_int64 (int k)"
  by (simp add: in_int64_def min_int64_def)

lemma alloc_in_int64: "int k \<le> max_alloc \<Longrightarrow> in_int64 (int k)"
  by (simp add: in_int64_def min_int64_def max_int64_def max_alloc_def)

lemma parse_bulk [simp]:
  "int (length v) \<le> max_alloc \<Longrightarrow> parse_resp (Suc f) (bulk v @ s) = POk (RStr v) s"
  by (simp add: bulk_def handleRESPBulkString_def alloc_in_int64)

lemma parse_array_header:
  "int n \<le> max_int64 \<Longrightarrow> parse_resp (Suc f) (array_header n @ s) =
     (case parse_elems f n s of
        POk arr rest \<Rightarrow> POk (RArr arr) rest
      | PErr e \<Rightarrow> PErr e
      | PPanic \<Rightarrow> PPanic
      | PFuel \<Rightarrow> PFuel)"
  by (simp add: array_header_def handleRESPArray.simps int_length_in_int64)

lemma parse_null: "parse_resp (Suc f) (''$-1'' @ crlf @ s) = POk RNull s"
proof -
  have "''-1'' = Itoa (-1)" by (simp add: go_eval)
  then have "read_int_line (''-1'' @ crlf @ s) = Inr (-1, s)"
    by (simp only:) (simp add: in_int64_def min_int64_def max_int64_def)
  then show ?thesis by (simp add: handleRESPBulkString_def)
qed

text \<open>The loop of the array handler, given that each element parses.\<close>

lemma parse_elems_concat:
  assumes "\<And>v s. v \<in> set vs \<Longrightarrow> parse_resp f (encode_item v @ s) = POk (g v) s"
  shows "parse_elems f (length vs) (concat (map encode_item vs) @ s) = POk (map g vs) s"
  using assms by (induction vs) auto

lemma parse_encode_item:
  "go_sized v \<Longrightarrow> size v < f \<Longrightarrow> parse_resp f (encode_item v @ s) = POk (as_read v) s"
proof (induction v arbitrary: f s)
  case RNull
  then obtain f' where "f = Suc f'" by (cases f) auto
  then show ?case using parse_null [of f' s] by simp
next
  case (RStr v)
  then show ?case by (cases f) auto
next
  case (RInt n)
  then have "int (length (Itoa n)) \<le> max_alloc"
    using length_Itoa [of n] by (simp add: max_alloc_def)
  with RInt show ?case by (cases f) auto
next
  case (RArr vs)
  then obtain f' where f: "f = Suc f'" by (cases f) auto
  have "parse_resp f' (encode_item v @ s) = POk (as_read v) s" if "v \<in> set vs" for v s
  proof (rule RArr.IH [OF that])
    show "go_sized v" using RArr.prems that by (simp add: list_all_iff)
    show "size v < f'"
      using RArr.prems f size_list_estimation' [OF that, of "size v" size] by simp
  qed
  from parse_elems_concat [of vs f' as_read, OF this] RArr.prems f show ?case
    by (simp add: parse_array_header)
qed

theorem ParseRESP_encode_item:
  "go_sized v \<Longrightarrow> ParseRESP (encode_item v @ s) = POk (as_read v) s"
  by (rule ParseRESP_eqI [OF parse_encode_item [OF _ lessI]]) simp_all

lemma encodeRESPArray_item: "encodeRESPArray arr = encode_item (RArr arr)"
  by (simp add: encodeRESPArray_def)

section \<open>Framing\<close>

text \<open>
  What the readers of a byte stream (the replay of the append-only file, a replica, the
  server's connection loop) rely on: one decoder call takes exactly one message off the front
  of the stream, whatever follows it.
\<close>

fun reads_off :: "(string \<Rightarrow> 'v pres) \<Rightarrow> 'v list \<Rightarrow> string \<Rightarrow> string \<Rightarrow> bool" where
  "reads_off dec [] inp rest = (inp = rest)"
| "reads_off dec (v # vs) inp rest =
     (case dec inp of POk w mid \<Rightarrow> w = v \<and> reads_off dec vs mid rest | _ \<Rightarrow> False)"

locale framing =
  fixes enc :: "'m \<Rightarrow> string"
    and dec :: "string \<Rightarrow> 'v pres"
    and view :: "'m \<Rightarrow> 'v"
    and fits :: "'m \<Rightarrow> bool"
  assumes dec_enc: "fits m \<Longrightarrow> dec (enc m @ s) = POk (view m) s"
    and dec_shrinks: "dec inp = POk v rest \<Longrightarrow> length rest < length inp"
    and dec_end: "dec [] = PErr EOF"
begin

lemma reads_off_messages:
  "list_all fits ms \<Longrightarrow> reads_off dec (map view ms) (concat (map enc ms) @ s) s"
  by (induction ms) (simp_all add: dec_enc)

lemma enc_not_Nil: "fits m \<Longrightarrow> enc m \<noteq> []"
  using dec_enc [of m "[]"] dec_end by auto

lemma reads_off_unique:
  "reads_off dec vs inp [] \<Longrightarrow> reads_off dec ws inp [] \<Longrightarrow> vs = ws"
proof (induction vs arbitrary: ws inp)
  case Nil
  then show ?case by (cases ws) (auto simp: dec_end)
next
  case (Cons v vs)
  then show ?case
    by (cases ws) (auto simp: dec_end split: pres.splits)
qed

text \<open>Two logs with the same bytes hold the same messages, as the reader sees them.\<close>

lemma log_determines_messages:
  assumes "list_all fits ms" and "list_all fits ns"
    and "concat (map enc ms) = concat (map enc ns)"
  shows "map view ms = map view ns"
  using reads_off_messages [OF assms(1), of "[]"] reads_off_messages [OF assms(2), of "[]"]
    assms(3) by (auto intro: reads_off_unique)

end

interpretation wire: framing encodeRESPArray ParseRESP
    "\<lambda>arr. as_read (RArr arr)" "\<lambda>arr. go_sized (RArr arr)"
proof unfold_locales
  fix m s
  assume "go_sized (RArr m)"
  then show "ParseRESP (encodeRESPArray m @ s) = POk (as_read (RArr m)) s"
    unfolding encodeRESPArray_item by (rule ParseRESP_encode_item)
next
  show "ParseRESP [] = PErr EOF" by (simp add: ParseRESP_def)
qed (rule ParseRESP_shrinks)

section \<open>Replies\<close>

lemma TrimRight_crlf_id: "CR \<notin> set v \<Longrightarrow> LF \<notin> set v \<Longrightarrow> TrimRight_crlf (v @ crlf) = v"
proof -
  assume v: "CR \<notin> set v" "LF \<notin> set v"
  then have "dropWhile (\<lambda>c. c = CR \<or> c = LF) (rev v) = rev v"
    by (cases "rev v") (auto simp: rev_eq_Cons_iff)
  then show ?thesis by (simp add: TrimRight_crlf_def crlf_def)
qed

lemma ReadString_line:
  "LF \<notin> set v \<Longrightarrow> ReadString LF (v @ crlf @ s) = Some (v @ crlf, s)"
  using ReadString_append [of LF "v @ [CR]" s] by (simp add: crlf_def CR_def LF_def)

lemma ParseRESP_simple:
  "CR \<notin> set v \<Longrightarrow> LF \<notin> set v \<Longrightarrow> ParseRESP (''+'' @ v @ crlf @ s) = POk (RStr v) s"
  by (simp add: ParseRESP_def handleRESPSimpleString_def ReadString_line TrimRight_crlf_id)

lemma ParseRESP_error:
  "CR \<notin> set v \<Longrightarrow> LF \<notin> set v \<Longrightarrow> ParseRESP (''-'' @ v @ crlf @ s) = PErr (ErrText v)"
  by (simp add: ParseRESP_def handleRESPError_def ReadString_line TrimRight_crlf_id)

lemma ParseRESP_integer:
  "in_int64 n \<Longrightarrow> ParseRESP ('':'' @ Itoa n @ crlf @ s) = POk (RInt n) s"
  by (simp add: ParseRESP_def handleRESPInteger_def)

lemma writeArrayResponse_encode:
  "writeArrayResponse_bytes items = encodeRESPArray (map RStr items)"
  by (simp add: writeArrayResponse_bytes_def encodeRESPArray_def comp_def)

section \<open>Properties\<close>





text \<open>
  C31: the parser always returns: whatever the bytes, the recursion bound of the model is never
  reached; a parsed value consumed at least one byte, and the result would have been the same
  with any further bytes behind it.
\<close>

theorem ParseRESP_total:
  "case ParseRESP inp of
     POk v rest \<Rightarrow> length rest < length inp \<and> (\<forall>t. ParseRESP (inp @ t) = POk v (rest @ t))
   | PErr e \<Rightarrow> True
   | PPanic \<Rightarrow> True
   | PFuel \<Rightarrow> False"
  using ParseRESP_not_fuel [of inp]
  by (cases "ParseRESP inp") (simp_all add: ParseRESP_shrinks ParseRESP_extend)

end
