(* ===== verification/GoFloat.thy ===== *)
theory GoFloat
  imports GoStrings "HOL-Library.Word"
begin

text \<open>
  Go's \<open>float64\<close> as its IEEE 754 bit pattern, with the comparisons the sorted sets use. A
  finite value is an integer multiple of 2 to the -1074, so \<open>f_scaled\<close> gives its exact value
  as that integer; \<open>f_less\<close> is shown to be the order of the exact values.
\<close>

type_synonym float64 = "64 word"

definition f_neg :: "float64 \<Rightarrow> bool" where
  "f_neg x \<longleftrightarrow> 2 ^ 63 \<le> unat x"

definition f_mag :: "float64 \<Rightarrow> nat" where
  "f_mag x = unat x mod 2 ^ 63"

definition f_exp :: "float64 \<Rightarrow> nat" where
  "f_exp x = f_mag x div 2 ^ 52"

definition f_frac :: "float64 \<Rightarrow> nat" where
  "f_frac x = f_mag x mod 2 ^ 52"

definition f_is_nan :: "float64 \<Rightarrow> bool" where
  "f_is_nan x \<longleftrightarrow> f_exp x = 2047 \<and> f_frac x \<noteq> 0"

definition f_is_finite :: "float64 \<Rightarrow> bool" where
  "f_is_finite x \<longleftrightarrow> f_exp x < 2047"

text \<open>The magnitude bits order floats of one sign as integers do.\<close>

definition f_key :: "float64 \<Rightarrow> int" where
  "f_key x = (if f_neg x then - int (f_mag x) else int (f_mag x))"

definition f_less :: "float64 \<Rightarrow> float64 \<Rightarrow> bool" where
  "f_less x y \<longleftrightarrow> \<not> f_is_nan x \<and> \<not> f_is_nan y \<and> f_key x < f_key y"

definition f_eq :: "float64 \<Rightarrow> float64 \<Rightarrow> bool" where
  "f_eq x y \<longleftrightarrow> \<not> f_is_nan x \<and> \<not> f_is_nan y \<and> f_key x = f_key y"

definition f_scaled :: "float64 \<Rightarrow> int" where
  "f_scaled x =
     (let m = (if f_exp x = 0 then f_frac x else (2 ^ 52 + f_frac x) * 2 ^ (f_exp x - 1))
      in if f_neg x then - int m else int m)"

section \<open>The comparisons order exact values\<close>

definition mag_value :: "nat \<Rightarrow> nat" where
  "mag_value m = (if m div 2 ^ 52 = 0 then m mod 2 ^ 52
     else (2 ^ 52 + m mod 2 ^ 52) * 2 ^ (m div 2 ^ 52 - 1))"

lemma f_scaled_mag: "f_scaled x = (if f_neg x then - int (mag_value (f_mag x)) else int (mag_value (f_mag x)))"
  by (simp add: f_scaled_def mag_value_def f_exp_def f_frac_def Let_def)

lemma mag_value_Suc: "mag_value m < mag_value (Suc m)"
proof -
  define e r where "e = m div 2 ^ 52" and "r = m mod (2 ^ 52 :: nat)"
  then have r: "r < 2 ^ 52" by simp
  have m: "m = e * 2 ^ 52 + r" by (simp add: e_def r_def)
  have here: "mag_value m = (if e = 0 then r else (2 ^ 52 + r) * 2 ^ (e - 1))"
    by (simp add: mag_value_def e_def r_def)
  show ?thesis
  proof (cases "Suc r < 2 ^ 52")
    case True
    have "Suc m div 2 ^ 52 = e"
      using True m by (intro div_nat_eqI) auto
    moreover have "Suc m mod 2 ^ 52 = Suc r"
      using True m by (metis add_Suc_right mod_less mod_mult_self3)
    ultimately have "mag_value (Suc m) = (if e = 0 then Suc r else (2 ^ 52 + Suc r) * 2 ^ (e - 1))"
      by (simp add: mag_value_def)
    then show ?thesis using here by simp
  next
    case False
    then have "Suc r = 2 ^ 52" using r by simp
    then have "Suc m = Suc e * 2 ^ 52" using m by simp
    then have d: "Suc m div 2 ^ 52 = Suc e" and z: "Suc m mod 2 ^ 52 = 0" by simp_all
    have there: "mag_value (Suc m) = 2 ^ 52 * 2 ^ e"
      unfolding mag_value_def d z by simp
    show ?thesis
    proof (cases e)
      case 0
      then show ?thesis using r here there by simp
    next
      case (Suc k)
      have "(2 ^ 52 + r) * 2 ^ k < 2 ^ 53 * (2 ^ k :: nat)"
        using r by simp
      then show ?thesis
        using Suc here there by simp
    qed
  qed
qed

lemma mag_value_less [simp]: "mag_value a < mag_value b \<longleftrightarrow> a < b"
  using strict_mono_less [of mag_value] mag_value_Suc by (simp add: strict_mono_Suc_iff)

lemma mag_value_le [simp]: "mag_value a \<le> mag_value b \<longleftrightarrow> a \<le> b"
  by (simp flip: not_less)

lemma mag_value_0 [simp]: "mag_value 0 = 0"
  by (simp add: mag_value_def)

lemma mag_value_pos [simp]: "0 < mag_value a \<longleftrightarrow> 0 < a"
  using mag_value_less [of 0 a] by simp

lemma f_finite_not_nan: "f_is_finite x \<Longrightarrow> \<not> f_is_nan x"
  by (simp add: f_is_finite_def f_is_nan_def)

lemma f_less_scaled:
  "f_is_finite x \<Longrightarrow> f_is_finite y \<Longrightarrow> f_less x y \<longleftrightarrow> f_scaled x < f_scaled y"
proof -
  have neg: "- int (mag_value a) < int (mag_value b) \<longleftrightarrow> - int a < int b" for a b
    using mag_value_pos [of a] mag_value_pos [of b] by linarith
  have pos: "\<not> int (mag_value a) < - int (mag_value b)" for a b by simp
  assume "f_is_finite x" "f_is_finite y"
  then show ?thesis
    by (simp add: f_less_def f_finite_not_nan f_key_def f_scaled_mag neg)
qed

section \<open>Order laws\<close>

lemma f_less_irrefl [simp]: "\<not> f_less x x"
  by (simp add: f_less_def)

lemma f_less_trans: "f_less x y \<Longrightarrow> f_less y z \<Longrightarrow> f_less x z"
  by (simp add: f_less_def)

lemma f_less_total: "\<not> f_is_nan x \<Longrightarrow> \<not> f_is_nan y \<Longrightarrow> f_less x y \<or> f_eq x y \<or> f_less y x"
  by (auto simp: f_less_def f_eq_def)

lemma f_eq_less_left: "f_eq x y \<Longrightarrow> f_less y z \<Longrightarrow> f_less x z"
  by (simp add: f_less_def f_eq_def)

lemma f_eq_less_right: "f_less x y \<Longrightarrow> f_eq y z \<Longrightarrow> f_less x z"
  by (simp add: f_less_def f_eq_def)

lemma f_eq_trans: "f_eq x y \<Longrightarrow> f_eq y z \<Longrightarrow> f_eq x z"
  by (simp add: f_eq_def)

lemma f_eq_sym: "f_eq x y \<Longrightarrow> f_eq y x"
  by (simp add: f_eq_def)

lemma f_eq_not_less: "f_eq x y \<Longrightarrow> \<not> f_less x y"
  by (simp add: f_less_def f_eq_def)

end
