(* ===== verification/Storage.thy ===== *)
theory Storage
  imports Resp GoFloat
begin

text \<open>
  The \<open>Store\<close> of \<open>app/storage.go\<close>: its record, authentication, strings with their expiry
  times, lists, key listing, counters and the waiter queues. Every method takes the mutex for
  its whole body (or for the part that touches the maps), so one call is one atomic step, a
  function from the store to the store and the result.

  Goroutines a method starts are not run by it: they are appended to the field \<open>spawned\<close>, and
  later steps run them. Times are nanoseconds since the epoch, unbounded as in \<open>time.Time\<close>;
  durations are 64-bit nanosecond counts and wrap. Connections are compared and used as map
  keys only; \<open>None\<close> is the nil connection of replayed and replicated commands.
\<close>

section \<open>Data\<close>

type_synonym conn = "nat option"

record stream_entry =
  entryID :: string
  entryFields :: "string list"

text \<open>The dynamic types a cache entry can have.\<close>

datatype cached =
    VStr string
  | VList "string list"
  | VZSet "(string, float64) gomap"
  | VStream "stream_entry list"

text \<open>
  Goroutines: the expiry cleanup of \<open>SetWithTTL\<close> with the time it wakes up, the delivery of a
  stream ID to a waiting reader, and a message pushed to a subscriber.
\<close>

datatype goroutine =
    Expire string int
  | SendTo nat string
  | Push conn "string list"

record store =
  cache :: "(string, cached) gomap"
  waiters :: "(string, nat list) gomap"
  expiry :: "(string, int) gomap"
  pubsub :: "(string, conn list) gomap"
  clientSubscriptions :: "(conn, string list) gomap"
  transactions :: "(conn, resp list list) gomap"
  watchedKeys :: "(string, conn list) gomap"
  dirtyClients :: "(conn, bool) gomap"
  authenticatedClients :: "(conn, bool) gomap"
  spawned :: "goroutine list"

definition NewStore :: "(string, cached) gomap \<Rightarrow> (string, int) gomap \<Rightarrow> store" where
  "NewStore data expi =
     \<lparr>cache = data, waiters = [], expiry = expi, pubsub = [], clientSubscriptions = [],
      transactions = [], watchedKeys = [], dirtyClients = [], authenticatedClients = [],
      spawned = []\<rparr>"

text \<open>Reading a Go \<open>map[K]bool\<close> gives false for a missing key.\<close>

definition mget_bool :: "('k, bool) gomap \<Rightarrow> 'k \<Rightarrow> bool" where
  "mget_bool m k = (mget m k = Some True)"

section \<open>Authentication\<close>

definition Authenticate :: "conn \<Rightarrow> 'a store_scheme \<Rightarrow> 'a store_scheme" where
  "Authenticate c s =
     (if c = None then s
      else s\<lparr>authenticatedClients := mput c True (authenticatedClients s)\<rparr>)"

definition IsAuthenticated :: "conn \<Rightarrow> 'a store_scheme \<Rightarrow> bool" where
  "IsAuthenticated c s = (c = None \<or> mget_bool (authenticatedClients s) c)"

definition RemoveAuth :: "conn \<Rightarrow> 'a store_scheme \<Rightarrow> 'a store_scheme" where
  "RemoveAuth c s =
     (if c = None then s
      else s\<lparr>authenticatedClients := mdel c (authenticatedClients s)\<rparr>)"

section \<open>Watched keys become dirty\<close>

definition mark_all :: "conn list \<Rightarrow> (conn, bool) gomap \<Rightarrow> (conn, bool) gomap" where
  "mark_all conns d = fold (\<lambda>c. mput c True) conns d"

definition markDirty :: "string \<Rightarrow> 'a store_scheme \<Rightarrow> 'a store_scheme" where
  "markDirty key s =
     (case mget (watchedKeys s) key of
        None \<Rightarrow> s
      | Some conns \<Rightarrow> s\<lparr>dirtyClients := mark_all conns (dirtyClients s)\<rparr>)"

section \<open>Strings and expiry\<close>

definition Set :: "string \<Rightarrow> cached \<Rightarrow> 'a store_scheme \<Rightarrow> 'a store_scheme" where
  "Set key v s =
     markDirty key (s\<lparr>cache := mput key v (cache s), expiry := mdel key (expiry s)\<rparr>)"

text \<open>\<open>time.Duration(ttlMillis) * time.Millisecond\<close>: a product of 64-bit integers.\<close>

definition millis :: "int \<Rightarrow> int" where
  "millis ttl = wrap64 (ttl * 1000000)"

definition SetWithTTL ::
  "int \<Rightarrow> string \<Rightarrow> cached \<Rightarrow> int \<Rightarrow> 'a store_scheme \<Rightarrow> 'a store_scheme" where
  "SetWithTTL now key v ttlMillis s =
     (let s1 = Set key v s;
          s2 = s1\<lparr>expiry := mput key (now + millis ttlMillis) (expiry s1)\<rparr>
      in s2\<lparr>spawned := spawned s2 @ [Expire key (now + max 0 (millis ttlMillis))]\<rparr>)"

text \<open>The body of the cleanup goroutine, run at time \<open>now\<close>.\<close>

definition run_Expire :: "int \<Rightarrow> string \<Rightarrow> 'a store_scheme \<Rightarrow> 'a store_scheme" where
  "run_Expire now key s =
     (case mget (expiry s) key of
        None \<Rightarrow> s
      | Some expTime \<Rightarrow>
          if \<not> now < expTime
          then s\<lparr>cache := mdel key (cache s), expiry := mdel key (expiry s)\<rparr>
          else s)"

definition Get :: "int \<Rightarrow> string \<Rightarrow> 'a store_scheme \<Rightarrow> 'a store_scheme \<times> cached option" where
  "Get now key s =
     (case (mget (cache s) key, mget (expiry s) key) of
        (Some v, Some expTime) \<Rightarrow>
          if expTime < now
          then (s\<lparr>cache := mdel key (cache s), expiry := mdel key (expiry s)\<rparr>, None)
          else (s, Some v)
      | (v, _) \<Rightarrow> (s, v))"

text \<open>\<open>Keys\<close>: the order is that of Go's map iteration, which the language leaves open.\<close>

definition Keys :: "string \<Rightarrow> 'a store_scheme \<Rightarrow> string list" where
  "Keys pattern s = (if pattern = ''*'' then mkeys (cache s) else [])"

section \<open>Lists\<close>

definition LPush :: "string \<Rightarrow> string list \<Rightarrow> 'a store_scheme \<Rightarrow> 'a store_scheme \<times> int" where
  "LPush key values s =
     (let newList = (case mget (cache s) key of
                       Some (VList l) \<Rightarrow> rev values @ l
                     | _ \<Rightarrow> rev values)
      in (markDirty key (s\<lparr>cache := mput key (VList newList) (cache s)\<rparr>),
          int (length newList)))"

definition RPush :: "string \<Rightarrow> string list \<Rightarrow> 'a store_scheme \<Rightarrow> 'a store_scheme \<times> int" where
  "RPush key values s =
     (let newList = (case mget (cache s) key of
                       Some (VList l) \<Rightarrow> l @ values
                     | _ \<Rightarrow> values)
      in (markDirty key (s\<lparr>cache := mput key (VList newList) (cache s)\<rparr>),
          int (length newList)))"

definition CleanUpExpiredKeyWaiter ::
  "string \<Rightarrow> nat \<Rightarrow> 'a store_scheme \<Rightarrow> 'a store_scheme" where
  "CleanUpExpiredKeyWaiter key ch s =
     (case mget (waiters s) key of
        None \<Rightarrow> s
      | Some queues \<Rightarrow>
          let queues' = remove1 ch queues
          in if queues' = [] then s\<lparr>waiters := mdel key (waiters s)\<rparr>
             else s\<lparr>waiters := mput key queues' (waiters s)\<rparr>)"

section \<open>Counters\<close>

datatype incr_err = InvalidType | NotAnInteger

definition Incr :: "string \<Rightarrow> 'a store_scheme \<Rightarrow> 'a store_scheme \<times> (incr_err + int)" where
  "Incr key s =
     (case mget (cache s) key of
        None \<Rightarrow> (markDirty key (s\<lparr>cache := mput key (VStr ''1'') (cache s)\<rparr>), Inr 1)
      | Some (VStr strVal) \<Rightarrow>
          (case Atoi strVal of
             (_, Some e) \<Rightarrow> (s, Inl NotAnInteger)
           | (v, None) \<Rightarrow>
               let intVal = wrap64 (v + 1)
               in (markDirty key (s\<lparr>cache := mput key (VStr (Itoa intVal)) (cache s)\<rparr>),
                   Inr intVal))
      | Some _ \<Rightarrow> (s, Inl InvalidType))"

end
