(* ===== verification/StorageFacts.thy ===== *)
theory StorageFacts
  imports Storage
begin

text \<open>
  What the string, list and counter operations of the store promise. The abstract view of the
  store at a time \<open>t\<close> is the partial function \<open>live t\<close> that maps a key to the value a client
  can still see; the locale \<open>keyspace\<close> states the contract of a write against such a view, and
  the interpretation \<open>ks\<close> shows that \<open>Set\<close> satisfies it at every time.
\<close>

section \<open>Frames\<close>

lemma markDirty_frame [simp, frame_simps]:
  "cache (markDirty k s) = cache s" "waiters (markDirty k s) = waiters s"
  "expiry (markDirty k s) = expiry s" "pubsub (markDirty k s) = pubsub s"
  "clientSubscriptions (markDirty k s) = clientSubscriptions s"
  "transactions (markDirty k s) = transactions s"
  "watchedKeys (markDirty k s) = watchedKeys s"
  "authenticatedClients (markDirty k s) = authenticatedClients s"
  "spawned (markDirty k s) = spawned s" "store.more (markDirty k s) = store.more s"
  by (simp_all add: markDirty_def split: option.splits)

lemma Set_frame [simp, frame_simps]:
  "cache (Set k v s) = mput k v (cache s)" "expiry (Set k v s) = mdel k (expiry s)"
  "waiters (Set k v s) = waiters s" "pubsub (Set k v s) = pubsub s"
  "clientSubscriptions (Set k v s) = clientSubscriptions s"
  "transactions (Set k v s) = transactions s" "watchedKeys (Set k v s) = watchedKeys s"
  "authenticatedClients (Set k v s) = authenticatedClients s" "spawned (Set k v s) = spawned s"
  "store.more (Set k v s) = store.more s"
  by (simp_all add: Set_def)

lemma Get_frame [simp, frame_simps]:
  "waiters (fst (Get now k s)) = waiters s" "pubsub (fst (Get now k s)) = pubsub s"
  "clientSubscriptions (fst (Get now k s)) = clientSubscriptions s"
  "transactions (fst (Get now k s)) = transactions s"
  "watchedKeys (fst (Get now k s)) = watchedKeys s"
  "dirtyClients (fst (Get now k s)) = dirtyClients s"
  "authenticatedClients (fst (Get now k s)) = authenticatedClients s"
  "spawned (fst (Get now k s)) = spawned s" "store.more (fst (Get now k s)) = store.more s"
  by (simp_all add: Get_def split: option.splits)

section \<open>Dirty tracking\<close>

lemma mget_mark_all:
  "mget (mark_all conns d) c = (if c \<in> set conns then Some True else mget d c)"
  unfolding mark_all_def by (induction conns arbitrary: d) auto

text \<open>A write makes exactly the watchers of its key dirty, and never cleans a client.\<close>

definition watches :: "conn \<Rightarrow> string \<Rightarrow> 'a store_scheme \<Rightarrow> bool" where
  "watches c k s \<longleftrightarrow> c \<in> set (mget_list (watchedKeys s) k)"

definition is_dirty :: "conn \<Rightarrow> 'a store_scheme \<Rightarrow> bool" where
  "is_dirty c s = mget_bool (dirtyClients s) c"

lemma is_dirty_markDirty [simp]:
  "is_dirty c (markDirty k s) \<longleftrightarrow> is_dirty c s \<or> watches c k s"
  by (auto simp: is_dirty_def watches_def markDirty_def mget_bool_def mget_list_def
      mget_mark_all split: option.splits)

lemma watches_markDirty [simp]: "watches c k (markDirty k' s) = watches c k s"
  by (simp add: watches_def)

lemma is_dirty_Set: "is_dirty c (Set k v s) \<longleftrightarrow> is_dirty c s \<or> watches c k s"
  by (simp add: Set_def) (simp add: is_dirty_def watches_def)

section \<open>The visible keyspace\<close>

definition live :: "int \<Rightarrow> 'a store_scheme \<Rightarrow> string \<Rightarrow> cached option" where
  "live now s k =
     (case mget (cache s) k of
        None \<Rightarrow> None
      | Some v \<Rightarrow>
          (case mget (expiry s) k of
             None \<Rightarrow> Some v
           | Some expTime \<Rightarrow> if expTime < now then None else Some v))"

lemma live_markDirty [simp]: "live t (markDirty k s) = live t s"
  by (auto simp: live_def fun_eq_iff split: option.splits)

text \<open>
  The contract of a write against a view of the keyspace: it changes the view at its own key
  only, to the value written. Its client is a log of writes: replaying one yields, at each key,
  the last value written there.
\<close>

locale keyspace =
  fixes look :: "'s \<Rightarrow> string \<Rightarrow> cached option"
    and upd :: "string \<Rightarrow> cached \<Rightarrow> 's \<Rightarrow> 's"
  assumes look_upd: "look (upd k v s) = (look s)(k \<mapsto> v)"
begin

lemma look_upd_same: "look (upd k v s) k = Some v"
  by (simp add: look_upd)

lemma look_upd_other: "k' \<noteq> k \<Longrightarrow> look (upd k v s) k' = look s k'"
  by (simp add: look_upd)

lemma look_log:
  "look (fold (\<lambda>(k, v). upd k v) kvs s) = look s ++ map_of (rev kvs)"
proof (induction kvs arbitrary: s)
  case (Cons kv kvs)
  obtain k v where "kv = (k, v)" by (cases kv)
  with Cons show ?case
    by (simp add: look_upd map_of_append fun_eq_iff map_add_def split: option.splits)
qed simp

lemma look_log_last:
  "look (upd k v (fold (\<lambda>(k, v). upd k v) kvs s)) k = Some v"
  by (simp add: look_upd)

end

lemma live_Set: "live t (Set k v s) = (live t s)(k \<mapsto> v)"
  by (auto simp: live_def fun_eq_iff split: option.splits)

interpretation ks: keyspace "live t" Set for t
  by unfold_locales (rule live_Set)

text \<open>\<open>Get\<close> answers with the visible value and, deleting an expired key, hides nothing else.\<close>

lemma Get_live: "snd (Get now k s) = live now s k"
  by (auto simp: Get_def live_def split: option.splits)

lemma live_Get: "now \<le> t \<Longrightarrow> live t (fst (Get now k s)) = live t s"
  by (auto simp: Get_def live_def fun_eq_iff split: option.splits)

lemma Get_None_cases:
  "snd (Get now k s) = None \<Longrightarrow>
     mget (cache s) k = None \<or> (\<exists>e. mget (expiry s) k = Some e \<and> e < now)"
  by (auto simp: Get_def split: option.splits if_splits)

text \<open>\<open>SetWithTTL\<close>: the value is visible up to and including its expiry time, then gone.\<close>

lemma live_SetWithTTL:
  "live t (SetWithTTL now k v ttl s) k' =
     (if k' = k then (if t \<le> now + millis ttl then Some v else None) else live t s k')"
  by (auto simp: SetWithTTL_def live_def Let_def split: option.splits)

lemma millis_exact: "\<bar>ttl\<bar> \<le> 9223372036854 \<Longrightarrow> millis ttl = ttl * 1000000"
  unfolding millis_def by (rule wrap64_id) (auto simp: in_int64_def min_int64_def max_int64_def)

text \<open>The cleanup goroutine removes only what no later \<open>Get\<close> would return.\<close>

lemma live_run_Expire: "now < t \<Longrightarrow> live t (run_Expire now k s) = live t s"
  by (auto simp: run_Expire_def live_def fun_eq_iff split: option.splits)

lemma run_Expire_keeps:
  "mget (expiry s) k = Some e \<Longrightarrow> now < e \<Longrightarrow> run_Expire now k s = s"
  "mget (expiry s) k = None \<Longrightarrow> run_Expire now k s = s"
  by (simp_all add: run_Expire_def)

lemma run_Expire_reclaims:
  "mget (expiry s) k = Some e \<Longrightarrow> e \<le> now \<Longrightarrow> mget (cache (run_Expire now k s)) k = None"
  by (simp add: run_Expire_def)

section \<open>Lists\<close>

definition list_at :: "'a store_scheme \<Rightarrow> string \<Rightarrow> string list" where
  "list_at s k = (case mget (cache s) k of Some (VList l) \<Rightarrow> l | _ \<Rightarrow> [])"

lemma LPush_spec:
  "cache (fst (LPush k vs s)) = mput k (VList (rev vs @ list_at s k)) (cache s)"
  "snd (LPush k vs s) = int (length vs + length (list_at s k))"
  "expiry (fst (LPush k vs s)) = expiry s" "waiters (fst (LPush k vs s)) = waiters s"
  by (auto simp: LPush_def list_at_def Let_def split: option.splits cached.splits)

lemma RPush_spec:
  "cache (fst (RPush k vs s)) = mput k (VList (list_at s k @ vs)) (cache s)"
  "snd (RPush k vs s) = int (length vs + length (list_at s k))"
  "expiry (fst (RPush k vs s)) = expiry s" "waiters (fst (RPush k vs s)) = waiters s"
  by (auto simp: RPush_def list_at_def Let_def split: option.splits cached.splits)

lemma is_dirty_cache [simp]: "is_dirty c (s\<lparr>cache := m\<rparr>) = is_dirty c s"
  by (simp add: is_dirty_def)

lemma watches_cache [simp]: "watches c k (s\<lparr>cache := m\<rparr>) = watches c k s"
  by (simp add: watches_def)

lemma is_dirty_LPush: "is_dirty c (fst (LPush k vs s)) \<longleftrightarrow> is_dirty c s \<or> watches c k s"
  by (simp add: LPush_def Let_def)

lemma is_dirty_RPush: "is_dirty c (fst (RPush k vs s)) \<longleftrightarrow> is_dirty c s \<or> watches c k s"
  by (simp add: RPush_def Let_def)

section \<open>Counters\<close>

lemma Incr_new:
  "mget (cache s) k = None \<Longrightarrow>
     snd (Incr k s) = Inr 1 \<and> mget (cache (fst (Incr k s))) k = Some (VStr ''1'')"
  by (simp add: Incr_def)

lemma Incr_string:
  "mget (cache s) k = Some (VStr t) \<Longrightarrow> parse_ok t = Some n \<Longrightarrow>
     snd (Incr k s) = Inr (wrap64 (n + 1)) \<and>
     cache (fst (Incr k s)) = mput k (VStr (Itoa (wrap64 (n + 1)))) (cache s)"
  by (auto simp: Incr_def parse_ok_def Let_def split: prod.splits option.splits)

lemma Incr_error:
  "snd (Incr k s) = Inl e \<Longrightarrow> fst (Incr k s) = s"
  by (auto simp: Incr_def Let_def split: option.splits cached.splits prod.splits)

lemma Incr_error_iff:
  "(\<exists>e. snd (Incr k s) = Inl e) \<longleftrightarrow>
     (\<exists>v. mget (cache s) k = Some v \<and> (\<forall>t. v = VStr t \<longrightarrow> parse_ok t = None))"
  by (auto simp: Incr_def parse_ok_def Let_def
      split: option.splits cached.splits prod.splits)

text \<open>Counting up from a representable value: each call answers with its own number.\<close>

fun Incr_times :: "nat \<Rightarrow> string \<Rightarrow> 'a store_scheme \<Rightarrow> 'a store_scheme" where
  "Incr_times 0 k s = s"
| "Incr_times (Suc n) k s = Incr_times n k (fst (Incr k s))"

lemma Incr_times_value:
  assumes "mget (cache s) k = Some (VStr (Itoa v))" and "in_int64 v" and "in_int64 (v + int n)"
  shows "mget (cache (Incr_times n k s)) k = Some (VStr (Itoa (v + int n)))"
  using assms
proof (induction n arbitrary: s v)
  case (Suc n)
  then have v1: "in_int64 (v + 1)"
    by (simp add: in_int64_def)
  then have "mget (cache (fst (Incr k s))) k = Some (VStr (Itoa (v + 1)))"
    using Incr_string [OF Suc.prems(1) parse_ok_Itoa [OF Suc.prems(2)]] by simp
  from Suc.IH [OF this v1] Suc.prems(3) show ?case
    by (simp add: algebra_simps)
qed simp

section \<open>Properties\<close>

text \<open>
  C28: reads see writes: after any log of \<open>Set\<close> calls, \<open>Get\<close> at any time answers with the last
  value the log wrote to the key, and with what was visible before if it wrote none.
\<close>

theorem Get_after_log:
  "snd (Get t k (fold (\<lambda>(k, v). Set k v) kvs s)) =
     (case map_of (rev kvs) k of Some v \<Rightarrow> Some v | None \<Rightarrow> snd (Get t k s))"
  by (simp add: Get_live ks.look_log map_add_def split: option.splits)

text \<open>
  C13: a key set with a time to live is readable up to and including its deadline and never
  after, whether or not the cleanup goroutine has run; the goroutine does nothing before the
  deadline, empties the cache entry from then on, and does nothing to a key that was set again
  without expiry in the meantime. The bound on the time to live is the largest one whose
  nanoseconds fit 64 bits.
\<close>

theorem ttl_exact:
  assumes "\<bar>ttl\<bar> \<le> 9223372036854"
    and deadline_def: "deadline = now + ttl * 1000000" and s'_def: "s' = SetWithTTL now k v ttl s"
  shows "snd (Get t k s') = (if t \<le> deadline then Some v else None) \<and>
    (k' \<noteq> k \<longrightarrow> snd (Get t k' s') = snd (Get t k' s)) \<and>
    (if w < deadline then run_Expire w k s' = s' else mget (cache (run_Expire w k s')) k = None) \<and>
    run_Expire w k (Set k v' s') = Set k v' s'"
proof -
  have m: "now + millis ttl = deadline" using assms(1) by (simp add: deadline_def millis_exact)
  have "mget (expiry s') k = Some deadline"
    by (simp add: s'_def SetWithTTL_def Let_def m)
  then show ?thesis
    by (simp add: Get_live s'_def live_SetWithTTL m run_Expire_keeps run_Expire_reclaims)
qed

theorem ttl_exact_witness:
  "snd (Get 1100000000 ''k'' (SetWithTTL 1000000000 ''k'' (VStr ''v'') 100 (NewStore [] []))) =
     Some (VStr ''v'') \<and>
   snd (Get 1100000001 ''k'' (SetWithTTL 1000000000 ''k'' (VStr ''v'') 100 (NewStore [] []))) = None"
  using ttl_exact [of 100 1100000000 1000000000 _ "''k''" "VStr ''v''" "NewStore [] []", OF _ _ refl]
  by simp

text \<open>
  C29: a counter that starts at a representable number and stays representable counts every
  call: after \<open>n\<close> calls of \<open>Incr\<close> the key holds the text of the sum. One step past the
  largest 64-bit integer the reply and the stored value wrap to the smallest one.
\<close>

theorem Incr_counts:
  assumes "mget (cache s) k = Some (VStr (Itoa v))" and "in_int64 v"
  shows "(in_int64 (v + int n) \<longrightarrow>
        mget (cache (Incr_times n k s)) k = Some (VStr (Itoa (v + int n)))) \<and>
      (v = max_int64 \<longrightarrow> snd (Incr k s) = Inr min_int64 \<and>
        mget (cache (fst (Incr k s))) k = Some (VStr (Itoa min_int64)))"
proof -
  have "wrap64 (max_int64 + 1) = min_int64"
    by (simp add: wrap64_def max_int64_def min_int64_def)
  with Incr_string [OF assms(1) parse_ok_Itoa [OF assms(2)]] show ?thesis
    by (simp add: Incr_times_value [OF assms])
qed

theorem Incr_counts_witness:
  "mget (cache (Incr_times 5 ''n'' (NewStore [(''n'', VStr (Itoa 40))] []))) ''n'' = Some (VStr ''45'') \<and>
   snd (Incr ''m'' (NewStore [(''m'', VStr (Itoa max_int64))] [])) = Inr min_int64"
  using Incr_counts [of "NewStore [(''n'', VStr (Itoa 40))] []" "''n''" 40 5]
    Incr_counts [of "NewStore [(''m'', VStr (Itoa max_int64))] []" "''m''" max_int64 0]
  by (simp add: NewStore_def in_int64_def min_int64_def max_int64_def go_eval)

end
