(* ===== verification/Waiters.thy ===== *)
theory Waiters
  imports StorageFacts
begin

text \<open>
  Blocked readers. \<open>BLPOP\<close> registers a channel in the queue of its key, \<open>LPUSH\<close> and \<open>RPUSH\<close>
  hand their values to the queue's channels before they store the rest. The source writes the
  queue operations out inside the handlers (\<open>app/commands.go\<close>); here they are \<open>add_waiter\<close>,
  \<open>take_waiter\<close> and the loop \<open>hand_off\<close>. The locale \<open>wait_queue\<close> is the contract of a
  per-key FIFO queue the loop relies on.
\<close>

definition queue_at :: "'a store_scheme \<Rightarrow> string \<Rightarrow> nat list" where
  "queue_at s k = mget_list (waiters s) k"

definition add_waiter :: "string \<Rightarrow> nat \<Rightarrow> 'a store_scheme \<Rightarrow> 'a store_scheme" where
  "add_waiter key ch s = s\<lparr>waiters := mput key (mget_list (waiters s) key @ [ch]) (waiters s)\<rparr>"

definition take_waiter :: "string \<Rightarrow> 'a store_scheme \<Rightarrow> ('a store_scheme \<times> nat) option" where
  "take_waiter key s =
     (case mget (waiters s) key of
        Some (waiterChan # queues) \<Rightarrow>
          Some (if queues = [] then s\<lparr>waiters := mdel key (waiters s)\<rparr>
                else s\<lparr>waiters := mput key queues (waiters s)\<rparr>, waiterChan)
      | _ \<Rightarrow> None)"

text \<open>
  What \<open>handleBLPOP\<close> does under the mutex to a list that is not empty: take its head, drop an
  emptied list, and mark the watchers of the key.
\<close>

definition pop_front :: "string \<Rightarrow> 'a store_scheme \<Rightarrow> ('a store_scheme \<times> string) option" where
  "pop_front key s =
     (case mget (cache s) key of
        Some (VList (val # rest)) \<Rightarrow>
          let s1 = s\<lparr>cache := mput key (VList rest) (cache s)\<rparr>;
              s2 = (if rest = [] then s1\<lparr>cache := mdel key (cache s1)\<rparr> else s1)
          in Some (markDirty key s2, val)
      | _ \<Rightarrow> None)"

text \<open>
  The loop over the pushed values: each goes to the first waiting channel, or to the values
  that remain to be stored. The result lists the sends \<open>waiterChan <- val\<close> in order.
\<close>

fun hand_off ::
  "string \<Rightarrow> string list \<Rightarrow> 'a store_scheme \<Rightarrow> 'a store_scheme \<times> (nat \<times> string) list \<times> string list"
where
  "hand_off key [] s = (s, [], [])"
| "hand_off key (val # values) s =
     (case take_waiter key s of
        Some (s', waiterChan) \<Rightarrow>
          (case hand_off key values s' of
             (t, sends, remaining) \<Rightarrow> (t, (waiterChan, val) # sends, remaining))
      | None \<Rightarrow>
          (case hand_off key values s of
             (t, sends, remaining) \<Rightarrow> (t, sends, val # remaining)))"

section \<open>The contract of the queues\<close>

locale wait_queue =
  fixes queue :: "'s \<Rightarrow> string \<Rightarrow> nat list"
    and enq :: "string \<Rightarrow> nat \<Rightarrow> 's \<Rightarrow> 's"
    and deq :: "string \<Rightarrow> 's \<Rightarrow> ('s \<times> nat) option"
  assumes queue_enq: "queue (enq k c s) = (queue s)(k := queue s k @ [c])"
    and deq_Nil: "queue s k = [] \<Longrightarrow> deq k s = None"
    and deq_Cons: "queue s k = c # cs \<Longrightarrow> \<exists>s'. deq k s = Some (s', c) \<and> queue s' = (queue s)(k := cs)"
begin

text \<open>A channel that was registered is served after exactly those registered before it.\<close>

fun deq_many :: "nat \<Rightarrow> string \<Rightarrow> 's \<Rightarrow> nat list" where
  "deq_many 0 k s = []"
| "deq_many (Suc n) k s =
     (case deq k s of None \<Rightarrow> [] | Some (s', c) \<Rightarrow> c # deq_many n k s')"

lemma deq_many_eq: "deq_many n k s = take n (queue s k)"
proof (induction n arbitrary: s)
  case (Suc n)
  show ?case
  proof (cases "queue s k")
    case (Cons c cs)
    with deq_Cons [OF this] Suc show ?thesis by auto
  qed (simp add: deq_Nil)
qed simp

lemma fifo: "deq_many (Suc (length (queue s k))) k (enq k c s) = queue s k @ [c]"
  by (simp add: deq_many_eq queue_enq del: deq_many.simps)

end

lemma queue_add_waiter: "queue_at (add_waiter k c s) = (queue_at s)(k := queue_at s k @ [c])"
  by (simp add: queue_at_def add_waiter_def fun_eq_iff)

lemma take_waiter_Nil: "queue_at s k = [] \<Longrightarrow> take_waiter k s = None"
  by (auto simp: queue_at_def take_waiter_def mget_list_def split: option.splits)

lemma take_waiter_Cons:
  "queue_at s k = c # cs \<Longrightarrow>
     \<exists>s'. take_waiter k s = Some (s', c) \<and> queue_at s' = (queue_at s)(k := cs)"
  by (auto simp: queue_at_def take_waiter_def mget_list_def fun_eq_iff split: option.splits)

interpretation wq: wait_queue queue_at add_waiter take_waiter
  by unfold_locales (simp_all add: queue_add_waiter take_waiter_Nil take_waiter_Cons)

lemma take_waiter_frame:
  "take_waiter k s = Some (s', c) \<Longrightarrow>
     cache s' = cache s \<and> expiry s' = expiry s \<and> watchedKeys s' = watchedKeys s \<and>
     dirtyClients s' = dirtyClients s \<and> store.more s' = store.more s"
  by (auto simp: take_waiter_def split: option.splits list.splits if_splits)

section \<open>The hand-off loop\<close>

text \<open>
  The loop in one equation: with \<open>q\<close> channels waiting, the first \<open>q\<close> values go to them in
  order, the others remain.
\<close>

lemma hand_off_spec:
  "hand_off k vs s = (t, sends, remaining) \<Longrightarrow>
     sends = zip (queue_at s k) vs \<and> remaining = drop (length (queue_at s k)) vs \<and>
     queue_at t = (queue_at s)(k := drop (length vs) (queue_at s k)) \<and>
     cache t = cache s \<and> expiry t = expiry s \<and> watchedKeys t = watchedKeys s \<and>
     dirtyClients t = dirtyClients s \<and> store.more t = store.more s"
proof (induction vs arbitrary: s t sends remaining)
  case (Cons v vs)
  show ?case
  proof (cases "queue_at s k")
    case Nil
    with Cons.prems obtain rem where
      r: "hand_off k vs s = (t, sends, rem)" "remaining = v # rem"
      by (auto simp: take_waiter_Nil split: prod.splits)
    from Cons.IH [OF r(1)] r(2) Nil show ?thesis by simp
  next
    case (Cons c cs)
    then obtain s' where s': "take_waiter k s = Some (s', c)"
        "queue_at s' = (queue_at s)(k := cs)"
      using take_waiter_Cons by blast
    with Cons.prems obtain snds where
      r: "hand_off k vs s' = (t, snds, remaining)" "sends = (c, v) # snds"
      by (auto split: prod.splits)
    from Cons.IH [OF r(1)] r(2) s' take_waiter_frame [OF s'(1)] Cons show ?thesis
      by (auto simp: fun_eq_iff)
  qed
qed simp

text \<open>No value is lost or duplicated, whatever the queue.\<close>

lemma hand_off_conserves:
  "hand_off k vs s = (t, sends, remaining) \<Longrightarrow> map snd sends @ remaining = vs"
proof -
  assume "hand_off k vs s = (t, sends, remaining)"
  from hand_off_spec [OF this]
  have "sends = zip (queue_at s k) vs" "remaining = drop (length (queue_at s k)) vs" by simp_all
  then show ?thesis
    by (simp add: map_snd_zip_take) (metis append_take_drop_id length_take min.commute take_all
        take_take nat_le_linear drop_all append_Nil2 min_def)
qed

lemma hand_off_no_waiter:
  "queue_at s k = [] \<Longrightarrow> hand_off k vs s = (s, [], vs)"
  by (induction vs) (simp_all add: take_waiter_Nil)

text \<open>\<open>CleanUpExpiredKeyWaiter\<close> removes one registration and leaves the order of the others.\<close>

lemma CleanUp_queue:
  "queue_at (CleanUpExpiredKeyWaiter k ch s) = (queue_at s)(k := remove1 ch (queue_at s k))"
  by (auto simp: queue_at_def CleanUpExpiredKeyWaiter_def mget_list_def Let_def fun_eq_iff
      split: option.splits)

lemma CleanUp_frame [frame_simps]:
  "cache (CleanUpExpiredKeyWaiter k ch s) = cache s"
  "expiry (CleanUpExpiredKeyWaiter k ch s) = expiry s"
  by (auto simp: CleanUpExpiredKeyWaiter_def Let_def split: option.splits)

text \<open>No queue in the map is ever empty: the invariant the handlers' cleanup code keeps.\<close>

definition wf_waiters :: "'a store_scheme \<Rightarrow> bool" where
  "wf_waiters s \<longleftrightarrow> wf_map (waiters s) \<and> (\<forall>k. mget (waiters s) k \<noteq> Some [])"

lemma wf_waiters_add [wf_intros]: "wf_waiters s \<Longrightarrow> wf_waiters (add_waiter k c s)"
  by (auto simp: wf_waiters_def add_waiter_def)

lemma wf_waiters_take [wf_intros]:
  "wf_waiters s \<Longrightarrow> take_waiter k s = Some (s', c) \<Longrightarrow> wf_waiters s'"
  by (auto simp: wf_waiters_def take_waiter_def split: option.splits list.splits if_splits)

lemma wf_waiters_CleanUp [wf_intros]:
  "wf_waiters s \<Longrightarrow> wf_waiters (CleanUpExpiredKeyWaiter k c s)"
  by (auto simp: wf_waiters_def CleanUpExpiredKeyWaiter_def Let_def split: option.splits)

lemma wf_waiters_hand_off [wf_intros]:
  "wf_waiters s \<Longrightarrow> hand_off k vs s = (t, sends, remaining) \<Longrightarrow> wf_waiters t"
proof (induction vs arbitrary: s t sends remaining)
  case (Cons v vs)
  then show ?case
    by (cases "take_waiter k s") (auto split: prod.splits, blast dest: wf_waiters_take)
qed simp

end
