(* ===== verification/ZSetFacts.thy ===== *)
theory ZSetFacts
  imports ZSets
begin

text \<open>
  What the sorted set operations promise: updates and removals as changes of the map from
  members to scores with the counts the server replies, the order of \<open>ZRANGE\<close>, its index
  arithmetic against a plain specification, and the agreement of \<open>ZRANK\<close> with it.
\<close>

definition zset_at :: "'a store_scheme \<Rightarrow> string \<Rightarrow> (string, float64) gomap" where
  "zset_at s k = (case mget (cache s) k of Some (VZSet z) \<Rightarrow> z | _ \<Rightarrow> [])"

definition nodes_of :: "(string, float64) gomap \<Rightarrow> ZSetNode list" where
  "nodes_of z = map (\<lambda>(m, sc). \<lparr>nodeMember = m, nodeScore = sc\<rparr>) z"

definition proper_node :: "ZSetNode \<Rightarrow> bool" where
  "proper_node n \<longleftrightarrow> \<not> f_is_nan (nodeScore n)"

text \<open>No score is NaN; the order of the source is total only then.\<close>

definition no_nan :: "(string, float64) gomap \<Rightarrow> bool" where
  "no_nan z \<longleftrightarrow> list_all (\<lambda>(m, sc). \<not> f_is_nan sc) z"

section \<open>The order of the nodes\<close>

interpretation zorder: keyed_order node_less nodeMember proper_node
proof unfold_locales
  fix x y z
  assume "proper_node x" "proper_node y" "proper_node z"
    and "node_less x y" "node_less y z"
  then show "node_less x z"
    by (auto simp: node_less_def proper_node_def split: if_splits
        dest: f_eq_trans f_less_trans f_eq_less_left f_eq_less_right
        intro: f_eq_sym order_less_trans)
       (metis f_eq_less_left f_eq_less_right f_eq_not_less f_eq_sym f_less_irrefl f_less_trans)+
next
  fix x y
  assume "proper_node x" "proper_node y" "nodeMember x \<noteq> nodeMember y"
  then show "node_less x y \<or> node_less y x"
    using f_less_total [of "nodeScore x" "nodeScore y"] neq_iff [of "nodeMember x" "nodeMember y"]
    by (auto simp: node_less_def proper_node_def dest: f_eq_sym f_eq_not_less)
qed (auto simp: node_less_def)

lemma members_nodes_of [simp]: "map nodeMember (nodes_of z) = mkeys z"
  by (auto simp: nodes_of_def)

lemma length_nodes_of [simp]: "length (nodes_of z) = length z"
  by (simp add: nodes_of_def)

lemma ready_nodes_of: "wf_map z \<Longrightarrow> no_nan z \<Longrightarrow> zorder.ready (nodes_of z)"
  by (simp add: zorder.ready_def wf_map_def)
     (auto simp: nodes_of_def no_nan_def list_all_iff proper_node_def)

lemma getSorted_eq: "getSortedZSetNodes k s = sort_by node_less (nodes_of (zset_at s k))"
  by (auto simp: getSortedZSetNodes_def zset_at_def nodes_of_def split: option.splits cached.splits)

lemma getSorted_sorted:
  "wf_map (zset_at s k) \<Longrightarrow> no_nan (zset_at s k) \<Longrightarrow>
     sorted_wrt node_less (getSortedZSetNodes k s)"
  unfolding getSorted_eq by (rule zorder.sorted_sort_by [OF ready_nodes_of])

lemma getSorted_members: "set (map nodeMember (getSortedZSetNodes k s)) = set (mkeys (zset_at s k))"
  unfolding getSorted_eq by (metis mset_map_sort_by members_nodes_of set_mset_mset)

lemma distinct_getSorted:
  "wf_map (zset_at s k) \<Longrightarrow> distinct (map nodeMember (getSortedZSetNodes k s))"
proof -
  assume "wf_map (zset_at s k)"
  moreover have "mset (map nodeMember (sort_by node_less (nodes_of (zset_at s k)))) =
      mset (mkeys (zset_at s k))"
    by (metis mset_map_sort_by members_nodes_of)
  ultimately show ?thesis
    unfolding getSorted_eq wf_map_def by (metis mset_eq_imp_distinct_iff)
qed

text \<open>The comparison in terms of exact values, for finite scores.\<close>

lemma node_less_exact:
  "f_is_finite (nodeScore a) \<Longrightarrow> f_is_finite (nodeScore b) \<Longrightarrow>
     node_less a b \<longleftrightarrow> f_scaled (nodeScore a) < f_scaled (nodeScore b) \<or>
       (f_scaled (nodeScore a) = f_scaled (nodeScore b) \<and> nodeMember a < nodeMember b)"
  using f_less_scaled [of "nodeScore a" "nodeScore b"] f_less_scaled [of "nodeScore b" "nodeScore a"]
    f_less_total [of "nodeScore a" "nodeScore b"]
  by (auto simp: node_less_def f_finite_not_nan dest: f_eq_not_less f_eq_sym)

section \<open>Updates\<close>

lemma ZAdd_other_type:
  "mget (cache s) k = Some v \<Longrightarrow> (\<forall>z. v \<noteq> VZSet z) \<Longrightarrow> ZAdd k sc m s = (s, 0)"
  by (auto simp: ZAdd_def split: cached.splits)

definition holds_other_type :: "'a store_scheme \<Rightarrow> string \<Rightarrow> bool" where
  "holds_other_type s k \<longleftrightarrow>
     (case mget (cache s) k of None \<Rightarrow> False | Some (VZSet z) \<Rightarrow> False | Some _ \<Rightarrow> True)"

lemma ZAdd_spec:
  "\<not> holds_other_type s k \<Longrightarrow>
     zset_at (fst (ZAdd k sc m s)) k = mput m sc (zset_at s k) \<and>
     snd (ZAdd k sc m s) = (if mget (zset_at s k) m = None then 1 else 0) \<and>
     (\<forall>k'. k' \<noteq> k \<longrightarrow> mget (cache (fst (ZAdd k sc m s))) k' = mget (cache s) k')"
  by (auto simp: ZAdd_def zset_at_def holds_other_type_def Let_def
      split: option.splits cached.splits)

lemma ZCard_eq: "ZCard k s = int (length (zset_at s k))"
  by (auto simp: ZCard_def zset_at_def split: option.splits cached.splits)

lemma getZscore_eq: "getZscoreValue k m s = mget (zset_at s k) m"
  by (auto simp: getZscoreValue_def zset_at_def split: option.splits cached.splits)

lemma wf_map_ZAdd:
  "wf_map (zset_at s k) \<Longrightarrow> wf_map (zset_at (fst (ZAdd k sc m s)) k)"
  by (cases "holds_other_type s k")
     (auto simp: ZAdd_spec, auto simp: holds_other_type_def ZAdd_def split: option.splits cached.splits)

text \<open>\<open>ZADD\<close>'s reply counts exactly how much the cardinality grows.\<close>

lemma ZAdd_card:
  "wf_map (zset_at s k) \<Longrightarrow>
     ZCard k (fst (ZAdd k sc m s)) = ZCard k s + snd (ZAdd k sc m s)"
proof (cases "holds_other_type s k")
  case True
  then show ?thesis
    by (auto simp: holds_other_type_def ZAdd_def split: option.splits cached.splits)
next
  case False
  assume "wf_map (zset_at s k)"
  with ZAdd_spec [OF False] show ?thesis by (simp add: ZCard_eq length_put)
qed

lemma remove_members_spec:
  "wf_map z \<Longrightarrow> remove_members ms z = (z', n) \<Longrightarrow>
     wf_map z' \<and> mget z' = mget z |` (- set ms) \<and> int (length z') = int (length z) - n \<and>
     0 \<le> n \<and> n = int (card (set ms \<inter> dom (mget z)))"
proof (induction ms arbitrary: z z' n)
  case (Cons m ms)
  show ?case
  proof (cases "mget z m")
    case None
    with Cons.prems have "remove_members ms z = (z', n)" by simp
    from Cons.IH [OF Cons.prems(1) this]
    show ?thesis using None by (auto simp: restrict_map_def fun_eq_iff domIff Int_insert_left)
  next
    case (Some sc)
    with Cons.prems obtain n0 where r: "remove_members ms (mdel m z) = (z', n0)" "n = n0 + 1"
      by (auto split: prod.splits)
    note ih = Cons.IH [OF wf_map_del [OF Cons.prems(1)] r(1)]
    have "0 < length z" using Some by auto
    then have "int (length z') = int (length z) - n"
      using ih r(2) Some Cons.prems(1) by (simp add: length_del of_nat_diff Suc_leI)
    moreover have "mget z' = mget z |` (- set (m # ms))"
      using ih by (auto simp: restrict_map_def fun_eq_iff)
    moreover have "n = int (card (set (m # ms) \<inter> dom (mget z)))"
    proof -
      have "set (m # ms) \<inter> dom (mget z) = insert m (set ms \<inter> dom ((mget z)(m := None)))"
        using Some by auto
      moreover have "finite (set ms \<inter> dom ((mget z)(m := None)))" by simp
      moreover have "m \<notin> set ms \<inter> dom ((mget z)(m := None))" by simp
      ultimately have "card (set (m # ms) \<inter> dom (mget z)) =
          Suc (card (set ms \<inter> dom (mget (mdel m z))))"
        by (metis card_insert_disjoint mget_del)
      then show ?thesis using ih r(2) by linarith
    qed
    ultimately show ?thesis using ih r(2) by simp
  qed
qed (auto simp: restrict_map_def)

text \<open>
  \<open>ZREM\<close> replies with the number of members that were there, removes them and nothing else,
  and drops the key when no member is left.
\<close>

lemma ZRem_spec:
  assumes wf: "wf_map z" and z: "mget (cache s) k = Some (VZSet z)"
    and r: "ZRem k ms s = (s', n)"
  shows "n = int (card (set ms \<inter> dom (mget z)))"
    and "mget (zset_at s' k) = mget z |` (- set ms)"
    and "mget (cache s') k = None \<longleftrightarrow> dom (mget z) \<subseteq> set ms"
    and "k' \<noteq> k \<Longrightarrow> mget (cache s') k' = mget (cache s) k'"
proof -
  obtain z' n' where rm: "remove_members ms z = (z', n')" by (cases "remove_members ms z")
  note spec = remove_members_spec [OF wf rm]
  have c: "cache s' = (if z' = [] then mdel k (mput k (VZSet z') (cache s))
      else mput k (VZSet z') (cache s))" and n: "n = n'"
    using r rm z by (auto simp: ZRem_def Let_def split: if_splits)
  show "n = int (card (set ms \<inter> dom (mget z)))" using spec n by simp
  show "mget (zset_at s' k) = mget z |` (- set ms)"
    using spec c by (cases "z' = []") (auto simp: zset_at_def)
  have "z' = [] \<longleftrightarrow> mget z |` (- set ms) = Map.empty"
    using gm.empty_iff [of z'] spec by simp
  also have "\<dots> \<longleftrightarrow> dom (mget z) \<subseteq> set ms"
    by (force simp: restrict_map_def fun_eq_iff)
  finally show "mget (cache s') k = None \<longleftrightarrow> dom (mget z) \<subseteq> set ms"
    using c by auto
  show "k' \<noteq> k \<Longrightarrow> mget (cache s') k' = mget (cache s) k'" using c by auto
qed

section \<open>Ranges and ranks\<close>

text \<open>
  A plain specification of Redis index ranges: negative indices count from the end, and the
  result holds exactly the positions of the list between the two, ends included. The source
  computes it with two clamps and an early return.
\<close>

definition from_end :: "int \<Rightarrow> int \<Rightarrow> int" where
  "from_end len i = (if i < 0 then len + i else i)"

definition range_spec :: "int \<Rightarrow> int \<Rightarrow> 'a list \<Rightarrow> 'a list" where
  "range_spec start stop xs =
     (let len = int (length xs)
      in map (\<lambda>i. xs ! i)
           (filter (\<lambda>i. from_end len start \<le> int i \<and> int i \<le> from_end len stop) [0..<length xs]))"

lemma filter_interval:
  "filter (\<lambda>i. a \<le> i \<and> i < b) [0..<n] = [a..<min b n]"
proof (induction n)
  case (Suc n)
  then show ?case
    by (cases "b \<le> n") (auto simp: min_def upt_Suc_append le_Suc_eq)
qed simp

lemma subslice_map_nth: "hi \<le> length xs \<Longrightarrow> subslice lo hi xs = map (\<lambda>i. xs ! i) [lo..<hi]"
  by (rule nth_equalityI) (simp_all add: nth_subslice)

lemma range_spec_eq:
  "range_spec start stop xs =
     (let len = int (length xs);
          lo = max 0 (from_end len start);
          hi = min (len - 1) (from_end len stop)
      in if hi < lo \<or> len \<le> lo then [] else subslice (nat lo) (nat (hi + 1)) xs)"
proof -
  define len lo hi where "len = int (length xs)" and "lo = max 0 (from_end len start)"
    and "hi = min (len - 1) (from_end len stop)"
  have "filter (\<lambda>i. from_end len start \<le> int i \<and> int i \<le> from_end len stop) [0..<length xs] =
      filter (\<lambda>i. nat lo \<le> i \<and> i < nat (hi + 1)) [0..<length xs]"
    by (rule filter_cong) (auto simp: lo_def hi_def len_def)
  also have "\<dots> = [nat lo..<min (nat (hi + 1)) (length xs)]"
    by (rule filter_interval)
  also have "min (nat (hi + 1)) (length xs) = nat (hi + 1)"
    by (auto simp: hi_def len_def)
  finally have eq: "range_spec start stop xs = map (\<lambda>i. xs ! i) [nat lo..<nat (hi + 1)]"
    by (simp add: range_spec_def Let_def flip: len_def)
  show ?thesis
  proof (cases "hi < lo \<or> len \<le> lo")
    case True
    then have "nat (hi + 1) \<le> nat lo" by (auto simp: hi_def lo_def)
    with True eq show ?thesis
      by (simp add: Let_def flip: len_def lo_def hi_def)
  next
    case False
    have "nat (hi + 1) \<le> length xs" by (auto simp: hi_def len_def)
    with False eq show ?thesis
      by (simp add: Let_def subslice_map_nth flip: len_def lo_def hi_def)
  qed
qed

lemma map_subslice: "map f (subslice lo hi xs) = subslice lo hi (map f xs)"
  by (simp add: subslice_def take_map drop_map)

text \<open>\<open>ZRANGE\<close> returns the positions of the specification, of the members in order.\<close>

lemma ZRange_eq_spec:
  "ZRange k start stop s = range_spec start stop (map nodeMember (getSortedZSetNodes k s))"
proof (cases "getSortedZSetNodes k s = []")
  case True
  then show ?thesis by (simp add: ZRange_def range_spec_def)
next
  case False
  have "min (len - 1) x = (if len \<le> x then len - 1 else x)"
    and "max 0 x = (if x < 0 then 0 else x)" for len x :: int
    by auto
  with False show ?thesis
    unfolding range_spec_eq ZRange_def Let_def from_end_def length_map
    by (simp only: map_subslice if_False if_distrib [of "map nodeMember"] list.map)
qed

lemma range_spec_all: "range_spec 0 (-1) xs = xs"
proof -
  have "filter (\<lambda>i. from_end (int (length xs)) 0 \<le> int i \<and> int i \<le> from_end (int (length xs)) (- 1))
      [0..<length xs] = [0..<length xs]"
    by (rule filter_True) (auto simp: from_end_def)
  then show ?thesis by (simp add: range_spec_def Let_def map_nth)
qed

lemma range_spec_single:
  "i < length xs \<Longrightarrow> range_spec (int i) (int i) xs = [xs ! i]"
proof -
  assume i: "i < length xs"
  have "filter (\<lambda>j. from_end (int (length xs)) (int i) \<le> int j \<and> int j \<le> from_end (int (length xs)) (int i))
      [0..<length xs] = filter (\<lambda>j. i \<le> j \<and> j < Suc i) [0..<length xs]"
    by (rule filter_cong) (auto simp: from_end_def)
  with i show ?thesis
    by (simp add: range_spec_def Let_def filter_interval)
qed

lemma rank_from_shift: "rank_from i m ns = (if m \<in> set (map nodeMember ns) then i + rank_from 0 m ns else -1)"
proof (induction ns arbitrary: i)
  case (Cons n ns)
  show ?case
    using Cons [of "i + 1"] Cons [of 1] by auto
qed simp

lemma rank_from_nth:
  "m \<in> set (map nodeMember ns) \<Longrightarrow>
     \<exists>j < length ns. rank_from 0 m ns = int j \<and> nodeMember (ns ! j) = m"
proof (induction ns)
  case (Cons n ns)
  show ?case
  proof (cases "nodeMember n = m")
    case False
    with Cons obtain j where j: "j < length ns" "rank_from 0 m ns = int j" "nodeMember (ns ! j) = m"
      by auto
    have "rank_from 1 m ns = 1 + int j"
      using rank_from_shift [of 1 m ns] j(2) False Cons.prems by simp
    with False j show ?thesis by (intro exI [of _ "Suc j"]) simp
  qed auto
qed simp

text \<open>
  \<open>ZRANK\<close> inverts \<open>ZRANGE\<close>: a member's rank is the position at which the range finds it, and
  a missing member has rank -1.
\<close>

lemma ZRank_missing: "mget (zset_at s k) m = None \<Longrightarrow> ZRank k m s = -1"
  unfolding ZRank_def by (metis rank_from_shift getSorted_members mget_eq_None_iff)

lemma ZRank_position:
  "mget (zset_at s k) m \<noteq> None \<Longrightarrow>
     \<exists>j < length (zset_at s k). ZRank k m s = int j \<and>
        map nodeMember (getSortedZSetNodes k s) ! j = m"
proof -
  assume "mget (zset_at s k) m \<noteq> None"
  then have "m \<in> set (map nodeMember (getSortedZSetNodes k s))"
    unfolding getSorted_members by (metis mget_eq_None_iff)
  from rank_from_nth [OF this] show ?thesis
    by (auto simp: ZRank_def getSorted_eq)
qed

lemma ZRank_ZRange:
  "mget (zset_at s k) m \<noteq> None \<Longrightarrow> ZRange k (ZRank k m s) (ZRank k m s) s = [m]"
proof -
  assume "mget (zset_at s k) m \<noteq> None"
  from ZRank_position [OF this] obtain j where
    j: "j < length (zset_at s k)" "ZRank k m s = int j"
       "map nodeMember (getSortedZSetNodes k s) ! j = m" by blast
  then have "j < length (map nodeMember (getSortedZSetNodes k s))"
    by (simp add: getSorted_eq)
  from range_spec_single [OF this] j show ?thesis by (simp add: ZRange_eq_spec)
qed

text \<open>The rank counts the members that come before.\<close>

lemma sorted_before:
  "sorted_wrt R xs \<Longrightarrow> j < length xs \<Longrightarrow> (\<forall>x \<in> set xs. \<not> R x x) \<Longrightarrow>
   (\<And>x y. x \<in> set xs \<Longrightarrow> y \<in> set xs \<Longrightarrow> R x y \<Longrightarrow> \<not> R y x) \<Longrightarrow>
     {i. i < length xs \<and> R (xs ! i) (xs ! j)} = {..<j}"
proof (intro set_eqI iffI)
  fix i
  assume a: "sorted_wrt R xs" "j < length xs" "\<forall>x \<in> set xs. \<not> R x x"
    "\<And>x y. x \<in> set xs \<Longrightarrow> y \<in> set xs \<Longrightarrow> R x y \<Longrightarrow> \<not> R y x"
  {
    assume "i \<in> {i. i < length xs \<and> R (xs ! i) (xs ! j)}"
    then have i: "i < length xs" "R (xs ! i) (xs ! j)" by auto
    show "i \<in> {..<j}"
    proof (rule ccontr)
      assume "i \<notin> {..<j}"
      then consider "i = j" | "j < i" by force
      then show False
      proof cases
        case 1
        with i a(3) show ?thesis by auto
      next
        case 2
        then have "R (xs ! j) (xs ! i)"
          using a(1) i(1) by (simp add: sorted_wrt_iff_nth_less)
        with a(4) [of "xs ! j" "xs ! i"] i a(2) show ?thesis by simp
      qed
    qed
  }
  assume "i \<in> {..<j}"
  then show "i \<in> {i. i < length xs \<and> R (xs ! i) (xs ! j)}"
    using a(1,2) by (simp add: sorted_wrt_iff_nth_less)
qed

lemma set_getSorted: "set (getSortedZSetNodes k s) = set (nodes_of (zset_at s k))"
  by (simp add: getSorted_eq)

lemma node_at: "n \<in> set (nodes_of z) \<longleftrightarrow> (nodeMember n, nodeScore n) \<in> set z"
  by (cases n) (auto simp: nodes_of_def image_iff split: prod.splits)

lemma card_before:
  assumes "sorted_wrt R xs" and "distinct xs" and "j < length xs"
    and "\<And>x. x \<in> set xs \<Longrightarrow> \<not> R x x"
    and "\<And>x y. x \<in> set xs \<Longrightarrow> y \<in> set xs \<Longrightarrow> R x y \<Longrightarrow> \<not> R y x"
  shows "card {x \<in> set xs. R x (xs ! j)} = j"
proof -
  have "{x \<in> set xs. R x (xs ! j)} = (\<lambda>i. xs ! i) ` {i. i < length xs \<and> R (xs ! i) (xs ! j)}"
    by (auto simp: in_set_conv_nth)
  also have "{i. i < length xs \<and> R (xs ! i) (xs ! j)} = {..<j}"
    using assms by (intro sorted_before) auto
  also have "card ((\<lambda>i. xs ! i) ` {..<j}) = j"
    using assms(2,3) by (subst card_image) (auto simp: inj_on_def nth_eq_iff_index_eq)
  finally show ?thesis .
qed

lemma ZRank_counts:
  assumes wf: "wf_map (zset_at s k)" and nn: "no_nan (zset_at s k)"
    and m: "mget (zset_at s k) m = Some sc"
  shows "ZRank k m s =
    int (card {n \<in> set (nodes_of (zset_at s k)). node_less n \<lparr>nodeMember = m, nodeScore = sc\<rparr>})"
proof -
  let ?ns = "getSortedZSetNodes k s"
  obtain j where j: "j < length ?ns" "ZRank k m s = int j" "nodeMember (?ns ! j) = m"
    using ZRank_position [of s k m] m by (auto simp: getSorted_eq)
  have in_nodes: "?ns ! j \<in> set (nodes_of (zset_at s k))"
    using j(1) by (metis nth_mem set_getSorted)
  then have "nodeScore (?ns ! j) = sc"
    using j(3) m wf by (auto simp: node_at wf_map_def)
  then have node: "?ns ! j = \<lparr>nodeMember = m, nodeScore = sc\<rparr>" using j(3) by simp
  have proper: "proper_node n" if "n \<in> set ?ns" for n
    using that nn by (auto simp: set_getSorted node_at no_nan_def list_all_iff proper_node_def)
  have "card {n \<in> set ?ns. node_less n (?ns ! j)} = j"
  proof (rule card_before)
    show "sorted_wrt node_less ?ns" by (rule getSorted_sorted [OF wf nn])
    show "distinct ?ns" using distinct_getSorted [OF wf] by (simp add: distinct_map)
    show "\<not> node_less x x" if "x \<in> set ?ns" for x
      using zorder.less_irrefl proper [OF that] by blast
    show "\<not> node_less y x" if "x \<in> set ?ns" "y \<in> set ?ns" "node_less x y" for x y
      using zorder.less_trans [of x y x] zorder.less_irrefl [of x] proper that by blast
  qed (rule j(1))
  with j(2) show ?thesis by (simp only: node set_getSorted)
qed

section \<open>Properties\<close>

text \<open>
  C14: \<open>ZRANGE\<close> returns the members at the requested positions (negative ones counted from the
  end, out-of-range ones clamped) of the one list of all members that is sorted by score and
  then by name.
\<close>

theorem ZRange_sorted:
  assumes "wf_map (zset_at s k)" and "no_nan (zset_at s k)"
    and "sorted_wrt node_less ns" and "mset ns = mset (nodes_of (zset_at s k))"
  shows "ZRange k start stop s = range_spec start stop (map nodeMember ns)"
  using zorder.sort_by_unique [OF ready_nodes_of [OF assms(1,2)] assms(4,3)]
  by (simp add: ZRange_eq_spec getSorted_eq)

text \<open>1.0, 2.0 and 2.0 in the encoding of 64-bit floats.\<close>

definition abc_zset :: "(string, float64) gomap" where
  "abc_zset = [(''c'', 0x4000000000000000), (''a'', 0x4000000000000000), (''b'', 0x3FF0000000000000)]"

lemmas f_float_defs = f_is_nan_def f_exp_def f_frac_def f_mag_def f_key_def f_neg_def

lemma no_nan_abc: "no_nan abc_zset"
  by (simp add: no_nan_def abc_zset_def f_float_defs)

theorem ZRange_sorted_witness:
  "ZRange ''z'' 0 (-1) (NewStore [(''z'', VZSet abc_zset)] []) = [''b'', ''a'', ''c'']"
proof -
  let ?s = "NewStore [(''z'', VZSet abc_zset)] []"
  let ?ns = "[\<lparr>nodeMember = ''b'', nodeScore = 0x3FF0000000000000\<rparr>,
    \<lparr>nodeMember = ''a'', nodeScore = 0x4000000000000000\<rparr>,
    \<lparr>nodeMember = ''c'', nodeScore = 0x4000000000000000\<rparr>]"
  have z: "zset_at ?s ''z'' = abc_zset" by (simp add: zset_at_def NewStore_def)
  have 1: "wf_map abc_zset" by (simp add: wf_map_def abc_zset_def)
  have 2: "no_nan abc_zset" by (rule no_nan_abc)
  have 3: "sorted_wrt node_less ?ns"
    by (simp add: node_less_def f_less_def f_eq_def f_float_defs)
  have 4: "mset ?ns = mset (nodes_of abc_zset)" by (simp add: abc_zset_def nodes_of_def)
  show ?thesis
    using ZRange_sorted [of ?s "''z''", unfolded z, OF 1 2 3 4, of 0 "-1"]
    by (simp only: range_spec_all list.map ZSetNode.select_convs)
qed

text \<open>
  C16: the rank of a member is the number of members that come before it in that order, it is
  the position at which \<open>ZRANGE\<close> finds the member, and -1 stands for a missing one.
\<close>

theorem ZRank_is_position:
  assumes "wf_map (zset_at s k)" and "no_nan (zset_at s k)"
  shows "case mget (zset_at s k) m of
      Some sc \<Rightarrow> ZRank k m s =
          int (card {n \<in> set (nodes_of (zset_at s k)). node_less n \<lparr>nodeMember = m, nodeScore = sc\<rparr>}) \<and>
        ZRange k (ZRank k m s) (ZRank k m s) s = [m]
    | None \<Rightarrow> ZRank k m s = -1"
proof (cases "mget (zset_at s k) m")
  case (Some sc)
  then show ?thesis
    using ZRank_counts [OF assms Some] ZRank_ZRange [of s k m] by (simp only: option.case) simp
qed (simp add: ZRank_missing)

theorem ZRank_is_position_witness:
  "ZRange ''z'' (ZRank ''z'' ''a'' (NewStore [(''z'', VZSet abc_zset)] []))
     (ZRank ''z'' ''a'' (NewStore [(''z'', VZSet abc_zset)] [])) (NewStore [(''z'', VZSet abc_zset)] []) =
     [''a''] \<and>
   ZRank ''z'' ''x'' (NewStore [(''z'', VZSet abc_zset)] []) = -1"
proof -
  let ?s = "NewStore [(''z'', VZSet abc_zset)] []"
  have z: "zset_at ?s ''z'' = abc_zset" by (simp add: zset_at_def NewStore_def)
  have 1: "wf_map abc_zset" by (simp add: wf_map_def abc_zset_def)
  have 2: "no_nan abc_zset" by (rule no_nan_abc)
  note position = ZRank_is_position [of ?s "''z''", unfolded z, OF 1 2]
  have a: "mget abc_zset ''a'' = Some 0x4000000000000000" and x: "mget abc_zset ''x'' = None"
    by (simp_all add: abc_zset_def)
  show ?thesis
    using position [of "''a''", unfolded a option.case] position [of "''x''", unfolded x option.case]
    by blast
qed

text \<open>
  C15: the replies of \<open>ZADD\<close> and \<open>ZREM\<close> are the exact changes of the cardinality \<open>ZCARD\<close>
  reports; \<open>ZADD\<close> changes the score of its member only, \<open>ZREM\<close> removes exactly the members
  named (counted once even when named twice), and the key goes with its last member.
\<close>

theorem ZAdd_ZRem_account:
  assumes "wf_map z" and "mget (cache s) k = Some (VZSet z)"
  shows "ZCard k (fst (ZAdd k sc m s)) = ZCard k s + snd (ZAdd k sc m s) \<and>
    mget (zset_at (fst (ZAdd k sc m s)) k) = (mget z)(m \<mapsto> sc) \<and>
    snd (ZRem k ms s) = int (card (set ms \<inter> dom (mget z))) \<and>
    mget (zset_at (fst (ZRem k ms s)) k) = mget z |` (- set ms) \<and>
    (mget (cache (fst (ZRem k ms s))) k = None) = (dom (mget z) \<subseteq> set ms)"
proof -
  have z: "zset_at s k = z" using assms(2) by (simp add: zset_at_def)
  note rem = ZRem_spec [OF assms, of ms "fst (ZRem k ms s)" "snd (ZRem k ms s)",
      OF surjective_pairing]
  show ?thesis
    using ZAdd_spec [of s k sc m] ZAdd_card [of s k sc m] assms rem(1-3)
    by (simp add: holds_other_type_def z)
qed

theorem ZAdd_ZRem_account_witness:
  "snd (ZRem ''z'' [''a'', ''x'', ''a''] (NewStore [(''z'', VZSet abc_zset)] [])) = 1 \<and>
   mget (cache (fst (ZRem ''z'' [''a'', ''b'', ''c''] (NewStore [(''z'', VZSet abc_zset)] [])))) ''z'' = None"
proof -
  let ?s = "NewStore [(''z'', VZSet abc_zset)] []"
  have 1: "wf_map abc_zset" by (simp add: wf_map_def abc_zset_def)
  have 2: "mget (cache ?s) ''z'' = Some (VZSet abc_zset)" by (simp add: NewStore_def)
  have d: "dom (mget abc_zset) = {''a'', ''b'', ''c''}" by (auto simp: abc_zset_def)
  have i: "set [''a'', ''x'', ''a''] \<inter> {''a'', ''b'', ''c''} = {''a''}" by auto
  note account = ZAdd_ZRem_account [OF 1 2, unfolded d]
  have "snd (ZRem ''z'' [''a'', ''x'', ''a''] ?s) = int (card {''a''})"
    using account [of _ _ "[''a'', ''x'', ''a'']", unfolded i] by blast
  moreover have "{''a'', ''b'', ''c''} \<subseteq> set [''a'', ''b'', ''c'']" by simp
  then have "mget (cache (fst (ZRem ''z'' [''a'', ''b'', ''c''] ?s))) ''z'' = None"
    using account [of _ _ "[''a'', ''b'', ''c'']"] by blast
  ultimately show ?thesis by simp
qed

end
