(* ===== verification/Streams.thy ===== *)
theory Streams
  imports Waiters
begin

text \<open>
  Streams (\<open>app/storage.go\<close>): IDs of the form \<open><ms>-<seq>\<close>, \<open>XAdd\<close> with its three ways of
  choosing an ID, and the range reads. Milliseconds and sequence numbers are 64-bit.
\<close>

section \<open>IDs\<close>

text \<open>Errors that reach the client with their text; a failed \<open>ParseInt\<close> keeps its argument.\<close>

datatype store_err = Msg string | ParseIntErr string num_err

definition parse_int_err :: "string \<Rightarrow> store_err + int" where
  "parse_int_err s =
     (case ParseInt s of (v, None) \<Rightarrow> Inr v | (_, Some e) \<Rightarrow> Inl (ParseIntErr s e))"

definition parseStreamID :: "string \<Rightarrow> store_err + int \<times> int" where
  "parseStreamID sid =
     (case split_on (CHR ''-'') sid of
        [p0, p1] \<Rightarrow>
          (case parse_int_err p0 of
             Inl e \<Rightarrow> Inl e
           | Inr ms \<Rightarrow>
               (case parse_int_err p1 of
                  Inl e \<Rightarrow> Inl e
                | Inr seq \<Rightarrow> Inr (ms, seq)))
      | _ \<Rightarrow> Inl (Msg ''invalid id format''))"

definition parseMaybeStarID :: "string \<Rightarrow> store_err + int \<times> int \<times> bool" where
  "parseMaybeStarID sid =
     (case split_on (CHR ''-'') sid of
        [p0, p1] \<Rightarrow>
          (case parse_int_err p0 of
             Inl e \<Rightarrow> Inl e
           | Inr ms \<Rightarrow>
               if p1 = ''*'' then Inr (ms, 0, True)
               else (case parse_int_err p1 of
                       Inl e \<Rightarrow> Inl e
                     | Inr seq \<Rightarrow> Inr (ms, seq, False)))
      | _ \<Rightarrow> Inl (Msg ''invalid id format''))"

text \<open>\<open>fmt.Sprintf("%d-%d", ms, seq)\<close>.\<close>

definition format_id :: "int \<Rightarrow> int \<Rightarrow> string" where
  "format_id ms seq = Itoa ms @ ''-'' @ Itoa seq"

section \<open>Appending\<close>

definition too_small :: store_err where
  "too_small =
     Msg ''The ID specified in XADD is equal or smaller than the target stream top item''"

definition wrongtype :: store_err where
  "wrongtype = Msg ''WRONGTYPE Operation against a key holding the wrong kind of value''"

text \<open>The requested ID: the clock for \<open>*\<close>, else the text; \<open>True\<close> asks for a generated sequence.\<close>

definition requested_id :: "int \<Rightarrow> string \<Rightarrow> store_err + int \<times> int \<times> bool" where
  "requested_id now sid =
     (if sid = ''*'' then Inr (now div 1000000, 0, True)
      else (case parseMaybeStarID sid of
              Inl e \<Rightarrow> Inl (Msg ''invalid stream ID specified'')
            | Inr r \<Rightarrow> Inr r))"

text \<open>The last ID of the stream, 0-0 for an empty one or one whose text does not parse.\<close>

definition last_id :: "stream_entry list \<Rightarrow> int \<times> int" where
  "last_id entries =
     (if entries = [] then (0, 0)
      else (case parseStreamID (entryID (last entries)) of
              Inl e \<Rightarrow> (0, 0)
            | Inr p \<Rightarrow> p))"

definition next_seq :: "int \<times> int \<times> bool \<Rightarrow> int \<times> int \<Rightarrow> store_err + int" where
  "next_seq req lastID =
     (case (req, lastID) of
        ((newMs, newSeq, seqIsStar), (lastMs, lastSeq)) \<Rightarrow>
          if seqIsStar then
            (if newMs < lastMs then Inl too_small
             else if newMs = lastMs then Inr (wrap64 (lastSeq + 1))
             else Inr 0)
          else if newMs = 0 \<and> newSeq = 0
            then Inl (Msg ''The ID specified in XADD must be greater than 0-0'')
          else if newMs < lastMs \<or> (newMs = lastMs \<and> newSeq \<le> lastSeq) then Inl too_small
          else Inr newSeq)"

definition stream_entries :: "string \<Rightarrow> 'a store_scheme \<Rightarrow> store_err + stream_entry list" where
  "stream_entries key s =
     (case mget (cache s) key of
        None \<Rightarrow> Inr []
      | Some (VStream entries) \<Rightarrow> Inr entries
      | Some _ \<Rightarrow> Inl wrongtype)"

text \<open>Every waiting channel gets the new ID, each from a goroutine of its own.\<close>

definition notify_waiters :: "string \<Rightarrow> string \<Rightarrow> 'a store_scheme \<Rightarrow> 'a store_scheme" where
  "notify_waiters key finalID s =
     (case mget (waiters s) key of
        None \<Rightarrow> s
      | Some queues \<Rightarrow>
          if queues = [] then s
          else s\<lparr>spawned := spawned s @ map (\<lambda>ch. SendTo ch finalID) queues,
                 waiters := mdel key (waiters s)\<rparr>)"

definition XAdd ::
  "int \<Rightarrow> string \<Rightarrow> string \<Rightarrow> string list \<Rightarrow> 'a store_scheme \<Rightarrow> 'a store_scheme \<times> (store_err + string)"
where
  "XAdd now key sid flds s =
     (case requested_id now sid of
        Inl e \<Rightarrow> (s, Inl e)
      | Inr req \<Rightarrow>
          (case stream_entries key s of
             Inl e \<Rightarrow> (s, Inl e)
           | Inr entries \<Rightarrow>
               (case next_seq req (last_id entries) of
                  Inl e \<Rightarrow> (s, Inl e)
                | Inr finalSeq \<Rightarrow>
                    let finalID = format_id (fst req) finalSeq;
                        entry = \<lparr>entryID = finalID, entryFields = flds\<rparr>;
                        s1 = markDirty key
                               (s\<lparr>cache := mput key (VStream (entries @ [entry])) (cache s)\<rparr>)
                    in (notify_waiters key finalID s1, Inr finalID))))"

section \<open>Reading\<close>

definition parseIDOptionalSeq :: "string \<Rightarrow> bool \<Rightarrow> store_err + int \<times> int" where
  "parseIDOptionalSeq sid isStart =
     (if sid = ''-'' then Inr (0, 0)
      else if sid = ''+'' then Inr (max_int64, max_int64)
      else if CHR ''-'' \<in> set sid then parseStreamID sid
      else (case parse_int_err sid of
              Inl e \<Rightarrow> Inl e
            | Inr ms \<Rightarrow> if isStart then Inr (ms, 0) else Inr (ms, max_int64)))"

definition id_less :: "int \<times> int \<Rightarrow> int \<times> int \<Rightarrow> bool" where
  "id_less a b \<longleftrightarrow> fst a < fst b \<or> (fst a = fst b \<and> snd a < snd b)"

text \<open>The loop of \<open>XRange\<close>: entries whose ID does not parse are skipped.\<close>

definition in_range :: "int \<times> int \<Rightarrow> int \<times> int \<Rightarrow> stream_entry \<Rightarrow> bool" where
  "in_range start stop e =
     (case parseStreamID (entryID e) of
        Inl err \<Rightarrow> False
      | Inr eid \<Rightarrow> \<not> id_less eid start \<and> \<not> id_less stop eid)"

definition XRange ::
  "string \<Rightarrow> string \<Rightarrow> string \<Rightarrow> 'a store_scheme \<Rightarrow> store_err + stream_entry list" where
  "XRange key startID endID s =
     (if mget (cache s) key = None then Inr []
      else (case stream_entries key s of
              Inl e \<Rightarrow> Inl e
            | Inr entries \<Rightarrow>
                (case parseIDOptionalSeq startID True of
                   Inl e \<Rightarrow> Inl e
                 | Inr start \<Rightarrow>
                     (case parseIDOptionalSeq endID False of
                        Inl e \<Rightarrow> Inl e
                      | Inr stop \<Rightarrow> Inr (filter (in_range start stop) entries)))))"

definition after_id :: "int \<times> int \<Rightarrow> stream_entry \<Rightarrow> bool" where
  "after_id start e =
     (case parseStreamID (entryID e) of
        Inl err \<Rightarrow> False
      | Inr eid \<Rightarrow> id_less start eid)"

fun XRead_loop ::
  "(string \<times> string) list \<Rightarrow> (string, stream_entry list) gomap \<Rightarrow> 'a store_scheme \<Rightarrow>
     store_err + (string, stream_entry list) gomap" where
  "XRead_loop [] result s = Inr result"
| "XRead_loop ((key, sid) # rest) result s =
     (case parseIDOptionalSeq sid True of
        Inl e \<Rightarrow> Inl e
      | Inr start \<Rightarrow>
          (case stream_entries key s of
             Inl e \<Rightarrow> Inl e
           | Inr entries \<Rightarrow> XRead_loop rest (mput key (filter (after_id start) entries) result) s))"

definition XRead ::
  "string list \<Rightarrow> string list \<Rightarrow> 'a store_scheme \<Rightarrow>
     store_err + (string, stream_entry list) gomap" where
  "XRead keys ids s =
     (if length keys \<noteq> length ids then Inl (Msg ''mismatched keys and ids'')
      else XRead_loop (zip keys ids) [] s)"

end
