(* ===== verification/StreamFacts.thy ===== *)
theory StreamFacts
  imports Streams RespFacts
begin

text \<open>
  Streams keep strictly increasing IDs, and their reads are what the IDs promise. The locale
  \<open>ordered_log\<close> is the contract of a log whose cursor tests are monotone along the log; its
  clients are readers that poll it. The interpretation \<open>slog\<close> is the stream of the store.
\<close>

section \<open>IDs and their text\<close>

definition valid_id :: "int \<times> int \<Rightarrow> bool" where
  "valid_id p \<longleftrightarrow> 0 \<le> fst p \<and> fst p \<le> max_int64 \<and> 0 \<le> snd p \<and> snd p \<le> max_int64"

lemma valid_id_in_int64: "valid_id (a, b) \<Longrightarrow> in_int64 a \<and> in_int64 b"
  by (simp add: valid_id_def in_int64_def min_int64_def)

lemma parse_int_err_Itoa: "in_int64 n \<Longrightarrow> parse_int_err (Itoa n) = Inr n"
  by (simp add: parse_int_err_def ParseInt_Itoa)

lemma no_minus_Itoa: "0 \<le> n \<Longrightarrow> CHR ''-'' \<notin> set (Itoa n)"
  using nat_digits_all_digits [of "CHR ''-''" "nat n"] by (auto simp: Itoa_def)

lemma split_format:
  "0 \<le> a \<Longrightarrow> split_on (CHR ''-'') (format_id a b) = Itoa a # split_on (CHR ''-'') (Itoa b)"
  by (simp add: format_id_def split_on_append no_minus_Itoa)

lemma parse_format: "valid_id (a, b) \<Longrightarrow> parseStreamID (format_id a b) = Inr (a, b)"
  using valid_id_in_int64 [of a b]
  by (simp add: parseStreamID_def split_format split_on_plain no_minus_Itoa parse_int_err_Itoa
      valid_id_def)

text \<open>A negative sequence number prints with a second dash and is not an ID any more.\<close>

lemma parse_format_negative:
  "0 \<le> a \<Longrightarrow> b < 0 \<Longrightarrow> parseStreamID (format_id a b) = Inl (Msg ''invalid id format'')"
proof -
  assume ab: "0 \<le> a" "b < 0"
  obtain p ps where ps: "split_on (CHR ''-'') (nat_digits (nat (- b))) = p # ps"
    using split_on_not_Nil [of "CHR ''-''" "nat_digits (nat (- b))"] by (meson list.exhaust)
  have "split_on (CHR ''-'') (format_id a b) = [Itoa a, []] @ p # ps"
    using ab ps by (simp add: split_format Itoa_def [of b])
  then show ?thesis by (cases ps) (simp_all add: parseStreamID_def)
qed

lemma split_part_no_sep: "p \<in> set (split_on c s) \<Longrightarrow> c \<notin> set p"
proof (induction s arbitrary: p)
  case (Cons x s)
  then show ?case
    by (cases "split_on c s") (auto split: if_splits)
qed simp

lemma ParseInt_nonneg: "CHR ''-'' \<notin> set s \<Longrightarrow> 0 \<le> fst (ParseInt s)"
  by (auto simp: ParseInt_def ParseInt_parts_def max_int64_def
      split: list.splits sum.splits num_err.splits)

lemma parse_int_err_valid:
  "parse_int_err s = Inr n \<Longrightarrow> CHR ''-'' \<notin> set s \<Longrightarrow> 0 \<le> n \<and> n \<le> max_int64"
  using ParseInt_nonneg [of s] ParseInt_range [of s]
  by (auto simp: parse_int_err_def in_int64_def split: prod.splits option.splits)

lemma parseStreamID_parts:
  "parseStreamID sid = Inr (a, b) \<Longrightarrow>
     \<exists>p0 p1. split_on (CHR ''-'') sid = [p0, p1] \<and> parse_int_err p0 = Inr a \<and> parse_int_err p1 = Inr b"
  by (auto simp: parseStreamID_def split: list.splits sum.splits)

lemma parseMaybeStarID_parts:
  "parseMaybeStarID sid = Inr (a, b, star) \<Longrightarrow>
     \<exists>p0 p1. split_on (CHR ''-'') sid = [p0, p1] \<and> parse_int_err p0 = Inr a \<and>
       (if star then b = 0 else parse_int_err p1 = Inr b)"
  by (auto simp: parseMaybeStarID_def split: list.splits sum.splits if_splits)

lemma split_pair_no_sep: "split_on c s = [p0, p1] \<Longrightarrow> c \<notin> set p0 \<and> c \<notin> set p1"
  using split_part_no_sep [of p0 c s] split_part_no_sep [of p1 c s] by simp

lemma parseStreamID_valid: "parseStreamID sid = Inr p \<Longrightarrow> valid_id p"
  by (cases p) (auto simp: valid_id_def dest!: parseStreamID_parts split_pair_no_sep
      dest: parse_int_err_valid)

lemma parseMaybeStarID_valid:
  assumes "parseMaybeStarID sid = Inr (ms, sq, star)"
  shows "valid_id (ms, sq)"
proof -
  obtain p0 p1 where p: "split_on (CHR ''-'') sid = [p0, p1]" "parse_int_err p0 = Inr ms"
      "if star then sq = 0 else parse_int_err p1 = Inr sq"
    using parseMaybeStarID_parts [OF assms] by blast
  have "0 \<le> ms \<and> ms \<le> max_int64"
    using p(2) split_pair_no_sep [OF p(1)] by (blast dest: parse_int_err_valid)
  moreover have "0 \<le> sq \<and> sq \<le> max_int64"
  proof (cases star)
    case True
    with p(3) show ?thesis by (simp add: max_int64_def)
  next
    case False
    with p(3) split_pair_no_sep [OF p(1)] show ?thesis by (auto dest: parse_int_err_valid)
  qed
  ultimately show ?thesis by (simp add: valid_id_def)
qed

lemma requested_id_valid:
  "0 \<le> now \<Longrightarrow> now \<le> max_int64 \<Longrightarrow> requested_id now sid = Inr (ms, sq, star) \<Longrightarrow> valid_id (ms, sq)"
  by (auto simp: requested_id_def dest: parseMaybeStarID_valid split: if_splits sum.splits)
     (auto simp: valid_id_def max_int64_def)

section \<open>The order of IDs\<close>

lemma id_less_irrefl [simp]: "\<not> id_less a a"
  by (simp add: id_less_def)

lemma id_less_trans: "id_less a b \<Longrightarrow> id_less b c \<Longrightarrow> id_less a c"
  by (auto simp: id_less_def)

lemma id_less_total: "a \<noteq> b \<Longrightarrow> id_less a b \<or> id_less b a"
  by (cases a; cases b) (auto simp: id_less_def)

definition pid :: "stream_entry \<Rightarrow> int \<times> int" where
  "pid e = (case parseStreamID (entryID e) of Inr p \<Rightarrow> p | Inl err \<Rightarrow> (0, 0))"

definition has_id :: "stream_entry \<Rightarrow> bool" where
  "has_id e \<longleftrightarrow> (case parseStreamID (entryID e) of Inr p \<Rightarrow> True | Inl err \<Rightarrow> False)"

definition entry_before :: "stream_entry \<Rightarrow> stream_entry \<Rightarrow> bool" where
  "entry_before a b \<longleftrightarrow> has_id a \<and> has_id b \<and> id_less (pid a) (pid b)"

text \<open>The invariant of a stream: every ID parses, and the IDs increase strictly from 0-0.\<close>

definition wf_stream :: "stream_entry list \<Rightarrow> bool" where
  "wf_stream es \<longleftrightarrow>
     list_all (\<lambda>e. has_id e \<and> id_less (0, 0) (pid e)) es \<and> sorted_wrt entry_before es"

lemma after_id_pid: "after_id start e \<longleftrightarrow> has_id e \<and> id_less start (pid e)"
  by (simp add: after_id_def has_id_def pid_def split: sum.splits)

lemma in_range_pid:
  "in_range start stop e \<longleftrightarrow> has_id e \<and> \<not> id_less (pid e) start \<and> \<not> id_less stop (pid e)"
  by (simp add: in_range_def has_id_def pid_def split: sum.splits)

lemma last_id_pid: "es \<noteq> [] \<Longrightarrow> has_id (last es) \<Longrightarrow> last_id es = pid (last es)"
  by (auto simp: last_id_def pid_def has_id_def split: sum.splits)

lemma pid_valid: "has_id e \<Longrightarrow> valid_id (pid e)"
  by (auto simp: has_id_def pid_def dest: parseStreamID_valid split: sum.splits)

section \<open>Ordered logs and their readers\<close>

locale ordered_log =
  fixes before :: "'e \<Rightarrow> 'e \<Rightarrow> bool"
    and past :: "'c \<Rightarrow> 'e \<Rightarrow> bool"
  assumes past_mono: "before x y \<Longrightarrow> past c x \<Longrightarrow> past c y"
begin

text \<open>What lies past a cursor is a suffix of the log.\<close>

lemma filter_past: "sorted_wrt before es \<Longrightarrow> filter (past c) es = dropWhile (\<lambda>e. \<not> past c e) es"
proof (induction es)
  case (Cons e es)
  show ?case
  proof (cases "past c e")
    case True
    with Cons.prems have "\<forall>x \<in> set es. past c x" by (auto intro: past_mono)
    with True show ?thesis by simp
  qed (use Cons in simp)
qed simp

lemma log_partition:
  "sorted_wrt before es \<Longrightarrow> takeWhile (\<lambda>e. \<not> past c e) es @ filter (past c) es = es"
  by (simp add: filter_past)

text \<open>
  A reader that polls with the cursor of the last entry it saw gets exactly the entries
  appended since, once each and in order.
\<close>

lemma poll_appended:
  assumes "sorted_wrt before (es @ new)" and "list_all (\<lambda>e. \<not> past c e) es"
    and "list_all (past c) new"
  shows "filter (past c) (es @ new) = new"
  using assms by (auto simp: list_all_iff filter_empty_conv filter_id_conv)

end

interpretation slog: ordered_log entry_before after_id
  by unfold_locales (auto simp: entry_before_def after_id_pid intro: id_less_trans)

section \<open>Appending\<close>

text \<open>The generated or requested ID is above the top unless the sequence number wraps.\<close>

lemma next_seq_above:
  assumes "next_seq (ms, sq, star) lastID = Inr q" and "valid_id (ms, sq)" and "valid_id lastID"
    and "ms = fst lastID \<and> star \<longrightarrow> snd lastID < max_int64"
  shows "valid_id (ms, q) \<and> id_less lastID (ms, q)"
proof (cases lastID)
  case (Pair a b)
  show ?thesis
  proof (cases "star \<and> ms = a")
    case True
    then have "q = wrap64 (b + 1)" and "b < max_int64"
      using assms Pair by (simp_all add: next_seq_def)
    moreover have "in_int64 (b + 1)"
      using assms(3) \<open>b < max_int64\<close> Pair by (simp add: valid_id_def in_int64_def min_int64_def)
    ultimately show ?thesis
      using True assms(2,3) Pair by (simp add: valid_id_def id_less_def)
  next
    case False
    then show ?thesis
      using assms(1,2) Pair
      by (auto simp: next_seq_def valid_id_def id_less_def max_int64_def split: if_splits)
  qed
qed

lemma wf_stream_last_id: "wf_stream es \<Longrightarrow> valid_id (last_id es)"
proof (cases "es = []")
  case False
  assume "wf_stream es"
  with False have "has_id (last es)" by (simp add: wf_stream_def list_all_iff)
  with False show ?thesis by (simp add: last_id_pid pid_valid)
qed (simp add: last_id_def valid_id_def max_int64_def)

lemma wf_stream_below_last:
  "wf_stream es \<Longrightarrow> e \<in> set es \<Longrightarrow> pid e = last_id es \<or> id_less (pid e) (last_id es)"
proof -
  assume wf: "wf_stream es" and e: "e \<in> set es"
  then have ne: "es \<noteq> []" by auto
  then obtain ds l where es: "es = ds @ [l]" by (metis append_butlast_last_id)
  have "has_id l" using wf es by (simp add: wf_stream_def)
  then have "last_id es = pid l" using ne es by (simp add: last_id_pid)
  with wf e es show ?thesis by (auto simp: wf_stream_def sorted_wrt_append entry_before_def)
qed

lemma wf_stream_snoc:
  assumes "wf_stream es" and "has_id e" and "id_less (last_id es) (pid e)"
  shows "wf_stream (es @ [e])"
proof -
  have "id_less (pid x) (pid e)" if "x \<in> set es" for x
    using wf_stream_below_last [OF assms(1) that] assms(3) by (auto intro: id_less_trans)
  moreover have "id_less (0, 0) (pid e)"
    using assms wf_stream_last_id [OF assms(1)]
    by (auto simp: id_less_def valid_id_def)
  ultimately show ?thesis
    using assms by (auto simp: wf_stream_def sorted_wrt_append entry_before_def list_all_iff)
qed

lemma new_entry_id:
  "valid_id (ms, q) \<Longrightarrow>
     has_id \<lparr>entryID = format_id ms q, entryFields = fs\<rparr> \<and>
     pid \<lparr>entryID = format_id ms q, entryFields = fs\<rparr> = (ms, q)"
  by (simp add: has_id_def pid_def parse_format)

lemma XAdd_error: "snd (XAdd now k sid fs s) = Inl e \<Longrightarrow> fst (XAdd now k sid fs s) = s"
  by (auto simp: XAdd_def Let_def split: sum.splits)

lemma notify_waiters_frame [frame_simps]:
  "cache (notify_waiters k sid s) = cache s" "expiry (notify_waiters k sid s) = expiry s"
  "watchedKeys (notify_waiters k sid s) = watchedKeys s"
  "dirtyClients (notify_waiters k sid s) = dirtyClients s"
  by (auto simp: notify_waiters_def split: option.splits)

text \<open>A successful \<open>XAdd\<close>, taken apart.\<close>

lemma XAdd_ok:
  assumes "XAdd now k sid fs s = (s', Inr newID)"
  obtains es ms sq star q where
    "stream_entries k s = Inr es" and "requested_id now sid = Inr (ms, sq, star)"
    and "next_seq (ms, sq, star) (last_id es) = Inr q" and "newID = format_id ms q"
    and "cache s' = mput k (VStream (es @ [\<lparr>entryID = newID, entryFields = fs\<rparr>])) (cache s)"
  using assms by (auto simp: XAdd_def Let_def frame_simps split: sum.splits)

text \<open>No room left in the sequence number of the stream's top item.\<close>

definition seq_exhausted :: "stream_entry list \<Rightarrow> bool" where
  "seq_exhausted es \<longleftrightarrow> snd (last_id es) = max_int64"

lemma XAdd_appends_above:
  assumes add: "XAdd now k sid fs s = (s', Inr newID)" and now: "0 \<le> now" "now \<le> max_int64"
    and es: "stream_entries k s = Inr es" and wf: "wf_stream es" and room: "\<not> seq_exhausted es"
  shows "wf_stream (es @ [\<lparr>entryID = newID, entryFields = fs\<rparr>])"
    and "stream_entries k s' = Inr (es @ [\<lparr>entryID = newID, entryFields = fs\<rparr>])"
    and "\<exists>p. parseStreamID newID = Inr p \<and> id_less (last_id es) p"
proof -
  obtain ms sq star q where
    req: "requested_id now sid = Inr (ms, sq, star)"
    and q: "next_seq (ms, sq, star) (last_id es) = Inr q" and sid: "newID = format_id ms q"
    and c: "cache s' = mput k (VStream (es @ [\<lparr>entryID = newID, entryFields = fs\<rparr>])) (cache s)"
    by (rule XAdd_ok [OF add]) (use es in auto)
  have "snd (last_id es) < max_int64"
    using wf_stream_last_id [OF wf] room by (simp add: seq_exhausted_def valid_id_def)
  then have above: "valid_id (ms, q)" "id_less (last_id es) (ms, q)"
    using next_seq_above [OF q requested_id_valid [OF now req] wf_stream_last_id [OF wf]] by blast+
  show "\<exists>p. parseStreamID newID = Inr p \<and> id_less (last_id es) p"
    using above sid by (simp add: parse_format)
  show "wf_stream (es @ [\<lparr>entryID = newID, entryFields = fs\<rparr>])"
    unfolding sid using new_entry_id [OF above(1)] above(2) by (intro wf_stream_snoc [OF wf]) simp_all
  show "stream_entries k s' = Inr (es @ [\<lparr>entryID = newID, entryFields = fs\<rparr>])"
    using c by (simp add: stream_entries_def)
qed

section \<open>Reading\<close>

lemma valid_below_max: "valid_id p \<Longrightarrow> \<not> id_less (max_int64, max_int64) p"
  by (cases p) (auto simp: id_less_def valid_id_def)

lemma valid_not_below_zero: "valid_id p \<Longrightarrow> \<not> id_less p (0, 0)"
  by (cases p) (auto simp: id_less_def valid_id_def)

lemma dash_in_id: "parseStreamID sid = Inr p \<Longrightarrow> CHR ''-'' \<in> set sid"
proof (rule ccontr)
  assume "parseStreamID sid = Inr p" and "CHR ''-'' \<notin> set sid"
  then show False by (simp add: parseStreamID_def split_on_plain)
qed

lemma parseIDOptionalSeq_id:
  "parseStreamID sid = Inr p \<Longrightarrow> parseIDOptionalSeq sid b = Inr p"
proof -
  assume p: "parseStreamID sid = Inr p"
  have "sid \<noteq> ''-''"
    using p by (auto simp: parseStreamID_def parse_int_err_def go_eval)
  moreover have "sid \<noteq> ''+''" using dash_in_id [OF p] by auto
  ultimately show ?thesis using dash_in_id [OF p] p by (simp add: parseIDOptionalSeq_def)
qed

lemma has_id_parse: "has_id e \<Longrightarrow> parseStreamID (entryID e) = Inr (pid e)"
  by (auto simp: has_id_def pid_def split: sum.splits)

lemma stream_entries_cases:
  "mget (cache s) k = Some (VStream es) \<Longrightarrow> stream_entries k s = Inr es"
  by (simp add: stream_entries_def)

lemma XRange_between:
  assumes "mget (cache s) k = Some (VStream es)"
    and "parseIDOptionalSeq lo True = Inr p" and "parseIDOptionalSeq hi False = Inr q"
  shows "XRange k lo hi s = Inr (filter (in_range p q) es)"
  using assms by (simp add: XRange_def stream_entries_cases)

lemma XRange_all:
  assumes "mget (cache s) k = Some (VStream es)" and wf: "wf_stream es"
  shows "XRange k ''-'' ''+'' s = Inr es"
proof -
  have "filter (in_range (0, 0) (max_int64, max_int64)) es = es"
    using wf by (intro filter_True)
      (auto simp: wf_stream_def list_all_iff in_range_pid valid_below_max pid_valid
        dest: valid_not_below_zero [OF pid_valid])
  then show ?thesis
    using XRange_between [OF assms(1), of "''-''" "(0, 0)" "''+''"]
    by (simp add: parseIDOptionalSeq_def)
qed

lemma wf_stream_pid_inj:
  "wf_stream es \<Longrightarrow> e \<in> set es \<Longrightarrow> e' \<in> set es \<Longrightarrow> pid e = pid e' \<Longrightarrow> e = e'"
proof -
  assume wf: "wf_stream es" and e: "e \<in> set es" "e' \<in> set es" "pid e = pid e'"
  obtain i j where ij: "i < length es" "j < length es" "e = es ! i" "e' = es ! j"
    using e by (auto simp: in_set_conv_nth)
  have below: "id_less (pid (es ! a)) (pid (es ! b))" if "a < b" "b < length es" for a b
    using wf that by (simp add: wf_stream_def sorted_wrt_iff_nth_less entry_before_def)
  have "\<not> i < j" "\<not> j < i"
    using below [of i j] below [of j i] e(3) ij by auto
  with ij show ?thesis by simp
qed

lemma wf_stream_distinct: "wf_stream es \<Longrightarrow> distinct es"
proof -
  assume "wf_stream es"
  then have "sorted_wrt (\<lambda>a b. a \<noteq> b) es"
    unfolding wf_stream_def by (auto elim!: sorted_wrt_mono_rel [rotated] simp: entry_before_def)
  then show ?thesis by (simp add: distinct_conv_nth sorted_wrt_iff_nth_less) (metis nat_neq_iff)
qed

lemma filter_single:
  "distinct xs \<Longrightarrow> x \<in> set xs \<Longrightarrow> (\<And>y. y \<in> set xs \<Longrightarrow> P y \<longleftrightarrow> y = x) \<Longrightarrow> filter P xs = [x]"
proof (induction xs)
  case (Cons a xs)
  then show ?case
    by (cases "a = x") (auto simp: filter_empty_conv)
qed simp

lemma XRange_point:
  assumes c: "mget (cache s) k = Some (VStream es)" and wf: "wf_stream es" and e: "e \<in> set es"
  shows "XRange k (entryID e) (entryID e) s = Inr [e]"
proof -
  have p: "parseStreamID (entryID e) = Inr (pid e)"
    using wf e by (intro has_id_parse) (simp add: wf_stream_def list_all_iff)
  have "filter (in_range (pid e) (pid e)) es = [e]"
  proof (rule filter_single [OF wf_stream_distinct [OF wf] e])
    fix y assume y: "y \<in> set es"
    then have "has_id y" using wf by (simp add: wf_stream_def list_all_iff)
    then show "in_range (pid e) (pid e) y \<longleftrightarrow> y = e"
      using wf_stream_pid_inj [OF wf y e] id_less_total [of "pid y" "pid e"]
      by (auto simp: in_range_pid)
  qed
  then show ?thesis using XRange_between [OF c] p by (simp add: parseIDOptionalSeq_id)
qed

text \<open>A reader of one stream.\<close>

lemma XRead_one:
  assumes "mget (cache s) k = Some (VStream es)" and "parseIDOptionalSeq sid True = Inr p"
  shows "XRead [k] [sid] s = Inr [(k, filter (after_id p) es)]"
  using assms by (simp add: XRead_def stream_entries_cases)

lemma wf_stream_polled:
  assumes wf: "wf_stream (es @ new)" and ne: "es \<noteq> []"
  shows "filter (after_id (pid (last es))) (es @ new) = new"
proof (rule slog.poll_appended)
  obtain ds l where es: "es = ds @ [l]" using ne by (metis append_butlast_last_id)
  show "sorted_wrt entry_before (es @ new)" using wf by (simp add: wf_stream_def)
  show "list_all (\<lambda>e. \<not> after_id (pid (last es)) e) es"
    using wf es by (auto simp: wf_stream_def sorted_wrt_append list_all_iff after_id_pid
        entry_before_def dest: id_less_trans)
  show "list_all (after_id (pid (last es))) new"
    using wf es by (auto simp: wf_stream_def sorted_wrt_append list_all_iff after_id_pid entry_before_def)
qed

lemma XRead_poll:
  assumes c: "mget (cache s) k = Some (VStream (es @ new))" and wf: "wf_stream (es @ new)"
    and ne: "es \<noteq> []"
  shows "XRead [k] [entryID (last es)] s = Inr [(k, new)]"
proof -
  have "has_id (last es)" using wf ne by (simp add: wf_stream_def list_all_iff)
  from XRead_one [OF c parseIDOptionalSeq_id [OF has_id_parse [OF this]]]
  show ?thesis by (simp only: wf_stream_polled [OF wf ne])
qed

section \<open>Waiting readers\<close>

lemma notify_waiters_queue:
  "queue_at (notify_waiters k sid s) = (queue_at s)(k := [])"
  "spawned (notify_waiters k sid s) = spawned s @ map (\<lambda>ch. SendTo ch sid) (queue_at s k)"
  by (auto simp: notify_waiters_def queue_at_def mget_list_def fun_eq_iff split: option.splits)

lemma markDirty_queue [simp]:
  "queue_at (markDirty k s) = queue_at s" "queue_at (s\<lparr>cache := m\<rparr>) = queue_at s"
  by (simp_all add: queue_at_def fun_eq_iff)

lemma XAdd_notifies:
  "XAdd now k sid fs s = (s', Inr newID) \<Longrightarrow>
     spawned s' = spawned s @ map (\<lambda>ch. SendTo ch newID) (queue_at s k) \<and> queue_at s' k = []"
  by (auto simp: XAdd_def Let_def notify_waiters_queue split: sum.splits)

section \<open>Properties\<close>

text \<open>
  C17: a stream whose IDs increase strictly from 0-0 keeps doing so: an accepted \<open>XAdd\<close>
  appends one entry whose ID parses and is above the top item, hands that ID to every blocked
  reader of the key, and a refused one changes nothing. The sequence number of the top item
  must not be the largest one (see the next property), and the clock a 64-bit count.
\<close>

theorem XAdd_monotone:
  assumes "mget (cache s) k = Some (VStream es)" and "wf_stream es" and "\<not> seq_exhausted es"
    and "0 \<le> now" and "now \<le> max_int64"
  shows "case XAdd now k sid fs s of
      (s', Inr newID) \<Rightarrow>
        wf_stream (es @ [\<lparr>entryID = newID, entryFields = fs\<rparr>]) \<and>
        mget (cache s') k = Some (VStream (es @ [\<lparr>entryID = newID, entryFields = fs\<rparr>])) \<and>
        spawned s' = spawned s @ map (\<lambda>ch. SendTo ch newID) (queue_at s k) \<and> queue_at s' k = []
    | (s', Inl e) \<Rightarrow> s' = s"
proof (cases "XAdd now k sid fs s")
  case (Pair s' r)
  show ?thesis
  proof (cases r)
    case (Inr newID)
    then have ok: "XAdd now k sid fs s = (s', Inr newID)" using Pair by simp
    note es = stream_entries_cases [OF assms(1)]
    have "mget (cache s') k = Some (VStream (es @ [\<lparr>entryID = newID, entryFields = fs\<rparr>]))"
      by (rule XAdd_ok [OF ok]) (use es in auto)
    then show ?thesis
      using XAdd_appends_above(1) [OF ok assms(4,5) es assms(2,3)] XAdd_notifies [OF ok] Pair Inr
      by simp
  qed (use Pair XAdd_error [of now k sid fs s] in simp)
qed

definition two_entries :: "stream_entry list" where
  "two_entries = [\<lparr>entryID = ''5-1'', entryFields = [''a'', ''b'']\<rparr>,
                  \<lparr>entryID = ''5-2'', entryFields = [''c'', ''d'']\<rparr>]"

lemma two_entries_ids: "parseStreamID ''5-1'' = Inr (5, 1)" "parseStreamID ''5-2'' = Inr (5, 2)"
  by (simp_all add: parseStreamID_def parse_int_err_def go_eval)

lemma two_entries_wf: "wf_stream two_entries"
  by (simp add: wf_stream_def two_entries_def has_id_def pid_def entry_before_def id_less_def
      two_entries_ids)

theorem XAdd_monotone_witness:
  "mget (cache (fst (XAdd 0 ''s'' ''5-*'' [''e'', ''f''] (NewStore [(''s'', VStream two_entries)] [])))) ''s'' =
     Some (VStream (two_entries @ [\<lparr>entryID = ''5-3'', entryFields = [''e'', ''f'']\<rparr>])) \<and>
   wf_stream (two_entries @ [\<lparr>entryID = ''5-3'', entryFields = [''e'', ''f'']\<rparr>])"
proof -
  let ?s = "NewStore [(''s'', VStream two_entries)] []"
  have c: "mget (cache ?s) ''s'' = Some (VStream two_entries)" by (simp add: NewStore_def)
  have l: "last_id two_entries = (5, 2)" by (simp add: last_id_def two_entries_def two_entries_ids)
  have x: "\<not> seq_exhausted two_entries" by (simp add: seq_exhausted_def l max_int64_def)
  have "parseMaybeStarID ''5-*'' = Inr (5, 0, True)"
    by (simp add: parseMaybeStarID_def parse_int_err_def go_eval)
  then have r: "requested_id 0 ''5-*'' = Inr (5, 0, True)" by (simp add: requested_id_def)
  have w: "wrap64 3 = 3" by (simp add: wrap64_def)
  have n: "snd (XAdd 0 ''s'' ''5-*'' [''e'', ''f''] ?s) = Inr ''5-3''"
    by (simp add: XAdd_def r stream_entries_cases [OF c] l next_seq_def Let_def format_id_def w go_eval)
  show ?thesis
    using XAdd_monotone [OF c two_entries_wf x, where now = 0 and sid = "''5-*''" and fs = "[''e'', ''f'']"] n
    by (cases "XAdd 0 ''s'' ''5-*'' [''e'', ''f''] ?s") (simp add: max_int64_def)
qed



text \<open>
  C18: the end of a millisecond's sequence numbers is not checked: asked for the next sequence
  number after the largest one, \<open>XAdd\<close> answers with an ID that counts as a success, is not
  parsed by any read, and is therefore missing from the full range.
\<close>

theorem XAdd_sequence_overflow:
  assumes "mget (cache s) k = Some (VStream es)" and "wf_stream es" and "es \<noteq> []"
    and "last_id es = (ms, max_int64)" and "requested_id now sid = Inr (ms, q, True)"
    and "newID = format_id ms min_int64"
  shows "snd (XAdd now k sid fs s) = Inr newID \<and>
    parseStreamID newID = Inl (Msg ''invalid id format'') \<and>
    XRange k ''-'' ''+'' (fst (XAdd now k sid fs s)) = Inr es"
proof -
  have ms: "0 \<le> ms" using wf_stream_last_id [OF assms(2)] assms(4) by (simp add: valid_id_def)
  have w: "wrap64 (max_int64 + 1) = min_int64"
    by (simp add: wrap64_def max_int64_def min_int64_def)
  note es = stream_entries_cases [OF assms(1)]
  have n: "snd (XAdd now k sid fs s) = Inr newID"
    by (simp add: XAdd_def assms(4-6) es next_seq_def w Let_def)
  then have ok: "XAdd now k sid fs s = (fst (XAdd now k sid fs s), Inr newID)"
    by (metis prod.collapse)
  have bad: "parseStreamID newID = Inl (Msg ''invalid id format'')"
    unfolding assms(6) by (rule parse_format_negative [OF ms]) (simp add: min_int64_def)
  let ?t = "fst (XAdd now k sid fs s)"
  have c: "mget (cache ?t) k = Some (VStream (es @ [\<lparr>entryID = newID, entryFields = fs\<rparr>]))"
    by (rule XAdd_ok [OF ok]) (use es in auto)
  have "filter (in_range (0, 0) (max_int64, max_int64)) es = es"
    using XRange_all [OF assms(1,2)] XRange_between [OF assms(1), of "''-''" "(0, 0)" "''+''"]
    by (simp add: parseIDOptionalSeq_def)
  then show ?thesis
    using n bad XRange_between [OF c, of "''-''" "(0, 0)" "''+''"]
    by (simp add: parseIDOptionalSeq_def in_range_def)
qed

theorem XAdd_sequence_overflow_witness:
  "snd (XAdd 0 ''s'' ''5-*'' [''a'', ''b'']
      (NewStore [(''s'', VStream [\<lparr>entryID = format_id 5 max_int64, entryFields = []\<rparr>])] [])) =
     Inr (format_id 5 min_int64)"
proof -
  let ?es = "[\<lparr>entryID = format_id 5 max_int64, entryFields = []\<rparr>]"
  have v: "valid_id (5, max_int64)" by (simp add: valid_id_def max_int64_def)
  have wf: "wf_stream ?es"
    using new_entry_id [OF v] by (simp add: wf_stream_def id_less_def)
  have l: "last_id ?es = (5, max_int64)" by (simp add: last_id_def parse_format [OF v])
  have "parseMaybeStarID ''5-*'' = Inr (5, 0, True)"
    by (simp add: parseMaybeStarID_def parse_int_err_def go_eval)
  then have r: "requested_id 0 ''5-*'' = Inr (5, 0, True)" by (simp add: requested_id_def)
  have c: "mget (cache (NewStore [(''s'', VStream ?es)] [])) ''s'' = Some (VStream ?es)"
    by (simp add: NewStore_def)
  from XAdd_sequence_overflow [OF c wf _ l r refl] show ?thesis by simp
qed

end
