(* ===== verification/PubSub.thy ===== *)
theory PubSub
  imports StorageFacts
begin

text \<open>
  Publish and subscribe (\<open>app/storage.go\<close>): two maps, from channels to their subscribers and
  from clients to their channels, that the code keeps in step by hand. The locale \<open>registry\<close> is
  the contract of a relation stored in both directions; the interpretation \<open>subs\<close> shows that
  \<open>Subscribe\<close> and \<open>Unsubscribe\<close> meet it. \<open>RemoveSubscriber\<close>, called when a client goes away,
  updates one direction only.
\<close>

section \<open>The operations\<close>

definition Subscribe :: "conn \<Rightarrow> string \<Rightarrow> 'a store_scheme \<Rightarrow> 'a store_scheme \<times> int" where
  "Subscribe c channel s =
     (let s1 = s\<lparr>pubsub := mput channel (sadd c (mget_list (pubsub s) channel)) (pubsub s)\<rparr>;
          s2 = s1\<lparr>clientSubscriptions :=
                 mput c (sadd channel (mget_list (clientSubscriptions s1) c)) (clientSubscriptions s1)\<rparr>
      in (s2, int (length (mget_list (clientSubscriptions s2) c))))"

definition Unsubscribe :: "conn \<Rightarrow> string \<Rightarrow> 'a store_scheme \<Rightarrow> 'a store_scheme \<times> int" where
  "Unsubscribe c channel s =
     (let s1 = (case mget (pubsub s) channel of
                  None \<Rightarrow> s
                | Some subscribers \<Rightarrow>
                    let rest = sdel c subscribers
                    in if rest = [] then s\<lparr>pubsub := mdel channel (pubsub s)\<rparr>
                       else s\<lparr>pubsub := mput channel rest (pubsub s)\<rparr>)
      in (case mget (clientSubscriptions s1) c of
            None \<Rightarrow> (s1, 0)
          | Some channels \<Rightarrow>
              let rest = sdel channel channels;
                  remainingCount = int (length rest)
              in (if rest = []
                  then s1\<lparr>clientSubscriptions := mdel c (clientSubscriptions s1)\<rparr>
                  else s1\<lparr>clientSubscriptions := mput c rest (clientSubscriptions s1)\<rparr>,
                  remainingCount)))"

text \<open>The subscriber sets stay in the map, possibly empty; the client's channels stay too.\<close>

definition RemoveSubscriber :: "conn \<Rightarrow> 'a store_scheme \<Rightarrow> 'a store_scheme" where
  "RemoveSubscriber c s = s\<lparr>pubsub := map (\<lambda>(ch, subscribers). (ch, sdel c subscribers)) (pubsub s)\<rparr>"

definition IsSubscribed :: "conn \<Rightarrow> 'a store_scheme \<Rightarrow> bool" where
  "IsSubscribed c s =
     (case mget (clientSubscriptions s) c of
        None \<Rightarrow> False
      | Some channels \<Rightarrow> 0 < length channels)"

definition PublishMessageOnChannel ::
  "string \<Rightarrow> string \<Rightarrow> 'a store_scheme \<Rightarrow> 'a store_scheme \<times> int" where
  "PublishMessageOnChannel channel message s =
     (case mget (pubsub s) channel of
        None \<Rightarrow> (s, 0)
      | Some subscribers \<Rightarrow>
          (s\<lparr>spawned := spawned s @
               map (\<lambda>subscriber. Push subscriber [''message'', channel, message]) subscribers\<rparr>,
           int (length subscribers)))"

section \<open>A relation kept in both directions\<close>

definition subscribers_of :: "'a store_scheme \<Rightarrow> string \<Rightarrow> conn set" where
  "subscribers_of s ch = set (mget_list (pubsub s) ch)"

definition channels_of :: "'a store_scheme \<Rightarrow> conn \<Rightarrow> string set" where
  "channels_of s c = set (mget_list (clientSubscriptions s) c)"

locale registry =
  fixes members :: "'s \<Rightarrow> 'ch \<Rightarrow> 'c set"
    and groups :: "'s \<Rightarrow> 'c \<Rightarrow> 'ch set"
    and join :: "'c \<Rightarrow> 'ch \<Rightarrow> 's \<Rightarrow> 's"
    and leave :: "'c \<Rightarrow> 'ch \<Rightarrow> 's \<Rightarrow> 's"
  assumes members_join: "members (join c ch s) = (members s)(ch := insert c (members s ch))"
    and groups_join: "groups (join c ch s) = (groups s)(c := insert ch (groups s c))"
    and members_leave: "members (leave c ch s) = (members s)(ch := members s ch - {c})"
    and groups_leave: "groups (leave c ch s) = (groups s)(c := groups s c - {ch})"
begin

definition agree :: "'s \<Rightarrow> bool" where
  "agree s \<longleftrightarrow> (\<forall>c ch. c \<in> members s ch \<longleftrightarrow> ch \<in> groups s c)"

lemma agree_join: "agree s \<Longrightarrow> agree (join c ch s)"
  by (auto simp: agree_def members_join groups_join)

lemma agree_leave: "agree s \<Longrightarrow> agree (leave c ch s)"
  by (auto simp: agree_def members_leave groups_leave)

text \<open>Any sequence of joins and leaves: the last word on a pair decides it.\<close>

fun run :: "(bool \<times> 'c \<times> 'ch) list \<Rightarrow> 's \<Rightarrow> 's" where
  "run [] s = s"
| "run ((True, c, ch) # ops) s = run ops (join c ch s)"
| "run ((False, c, ch) # ops) s = run ops (leave c ch s)"

lemma agree_run: "agree s \<Longrightarrow> agree (run ops s)"
  by (induction ops s rule: run.induct) (auto intro: agree_join agree_leave)

lemma members_run:
  "c \<in> members (run ops s) ch \<longleftrightarrow>
     (case map_of (rev (map (\<lambda>(b, c, ch). ((c, ch), b)) ops)) (c, ch) of
        Some b \<Rightarrow> b
      | None \<Rightarrow> c \<in> members s ch)"
  by (induction ops s rule: run.induct)
     (auto simp: map_of_append members_join members_leave map_add_def split: option.splits)

end

lemma Subscribe_views:
  "subscribers_of (fst (Subscribe c ch s)) = (subscribers_of s)(ch := insert c (subscribers_of s ch))"
  "channels_of (fst (Subscribe c ch s)) = (channels_of s)(c := insert ch (channels_of s c))"
  by (auto simp: Subscribe_def Let_def subscribers_of_def channels_of_def fun_eq_iff)

lemma sdel_Nil [simp]: "sdel x [] = []"
  by (simp add: sdel_def)

lemma mget_list_simps [simp]:
  "mget m k = None \<Longrightarrow> mget_list m k = []" "mget m k = Some xs \<Longrightarrow> mget_list m k = xs"
  by (simp_all add: mget_list_def)

lemma Unsubscribe_lists:
  "mget_list (pubsub (fst (Unsubscribe c ch s))) =
     (mget_list (pubsub s))(ch := sdel c (mget_list (pubsub s) ch))"
  "mget_list (clientSubscriptions (fst (Unsubscribe c ch s))) =
     (mget_list (clientSubscriptions s))(c := sdel ch (mget_list (clientSubscriptions s) c))"
  "snd (Unsubscribe c ch s) = int (length (sdel ch (mget_list (clientSubscriptions s) c)))"
  by (cases "mget (pubsub s) ch"; cases "mget (clientSubscriptions s) c";
      simp add: Unsubscribe_def Let_def fun_eq_iff)+

lemma Unsubscribe_views:
  "subscribers_of (fst (Unsubscribe c ch s)) = (subscribers_of s)(ch := subscribers_of s ch - {c})"
  "channels_of (fst (Unsubscribe c ch s)) = (channels_of s)(c := channels_of s c - {ch})"
  by (simp_all add: subscribers_of_def channels_of_def Unsubscribe_lists fun_eq_iff)

interpretation subs: registry subscribers_of channels_of
    "\<lambda>c ch s. fst (Subscribe c ch s)" "\<lambda>c ch s. fst (Unsubscribe c ch s)"
  by unfold_locales (rule Subscribe_views Unsubscribe_views)+

section \<open>Counts\<close>

text \<open>The sets are lists without repetitions, and no client is mapped to an empty set.\<close>

definition wf_pubsub :: "'a store_scheme \<Rightarrow> bool" where
  "wf_pubsub s \<longleftrightarrow> (\<forall>ch. distinct (mget_list (pubsub s) ch)) \<and>
     (\<forall>c. distinct (mget_list (clientSubscriptions s) c)) \<and>
     (\<forall>c. mget (clientSubscriptions s) c \<noteq> Some [])"

lemma wf_pubsub_Subscribe [wf_intros]: "wf_pubsub s \<Longrightarrow> wf_pubsub (fst (Subscribe c ch s))"
  by (auto simp: wf_pubsub_def Subscribe_def Let_def)

lemma wf_pubsub_Unsubscribe [wf_intros]: "wf_pubsub s \<Longrightarrow> wf_pubsub (fst (Unsubscribe c ch s))"
proof -
  assume wf: "wf_pubsub s"
  have "mget (clientSubscriptions (fst (Unsubscribe c ch s))) c' \<noteq> Some []" for c'
    using wf by (auto simp: wf_pubsub_def Unsubscribe_def Let_def split: option.split)
  then show ?thesis using wf by (simp add: wf_pubsub_def Unsubscribe_lists)
qed

lemma Subscribe_count:
  "wf_pubsub s \<Longrightarrow> snd (Subscribe c ch s) = int (card (insert ch (channels_of s c)))"
proof -
  assume "wf_pubsub s"
  then have "distinct (sadd ch (mget_list (clientSubscriptions s) c))" by (simp add: wf_pubsub_def)
  from distinct_card [OF this] show ?thesis
    by (simp add: Subscribe_def Let_def channels_of_def)
qed

lemma Unsubscribe_count:
  "wf_pubsub s \<Longrightarrow> snd (Unsubscribe c ch s) = int (card (channels_of s c - {ch}))"
proof -
  assume "wf_pubsub s"
  then have "distinct (sdel ch (mget_list (clientSubscriptions s) c))" by (simp add: wf_pubsub_def)
  from distinct_card [OF this] show ?thesis
    by (simp add: Unsubscribe_lists channels_of_def)
qed

lemma IsSubscribed_channels: "IsSubscribed c s \<longleftrightarrow> channels_of s c \<noteq> {}"
  by (cases "mget (clientSubscriptions s) c") (simp_all add: IsSubscribed_def channels_of_def)

text \<open>A message goes to every subscriber once; the count is their number.\<close>

lemma Publish_spec:
  "PublishMessageOnChannel ch msg s =
     (s\<lparr>spawned := spawned s @ map (\<lambda>c. Push c [''message'', ch, msg]) (mget_list (pubsub s) ch)\<rparr>,
      int (length (mget_list (pubsub s) ch)))"
  by (auto simp: PublishMessageOnChannel_def mget_list_def split: option.split)

lemma mget_map_snd: "mget (map (\<lambda>(k, v). (k, f v)) m) k = map_option f (mget m k)"
  by (induction m) auto

lemma RemoveSubscriber_views:
  "subscribers_of (RemoveSubscriber c s) = (\<lambda>ch. subscribers_of s ch - {c})"
  "channels_of (RemoveSubscriber c s) = channels_of s"
  by (auto simp: RemoveSubscriber_def subscribers_of_def channels_of_def mget_list_def mget_map_snd
      fun_eq_iff split: option.split)

lemma wf_pubsub_run: "wf_pubsub s \<Longrightarrow> wf_pubsub (subs.run ops s)"
  by (induction ops s rule: subs.run.induct) (auto intro: wf_intros)

lemma wf_pubsub_NewStore: "wf_pubsub (NewStore d e)"
  by (simp add: wf_pubsub_def NewStore_def)

section \<open>Properties\<close>

text \<open>
  C23: after any history of \<open>Subscribe\<close> and \<open>Unsubscribe\<close> calls, a message published on a
  channel is pushed exactly once to exactly the clients whose last call for the channel was a
  subscription; the count replied is their number; a client counts as subscribed exactly when
  it is a member of some channel; and once a disconnected client has been removed no message
  is pushed to it any more.
\<close>

theorem publish_reaches_subscribers:
  "let s = subs.run ops (NewStore d e);
       targets = mget_list (pubsub s) ch;
       subscribed = (\<lambda>c ch. map_of (rev (map (\<lambda>(b, c, ch). ((c, ch), b)) ops)) (c, ch) = Some True)
   in PublishMessageOnChannel ch msg s =
        (s\<lparr>spawned := spawned s @ map (\<lambda>c. Push c [''message'', ch, msg]) targets\<rparr>,
         int (length targets)) \<and>
      distinct targets \<and> set targets = {c. subscribed c ch} \<and>
      (IsSubscribed c s = (\<exists>ch'. subscribed c ch')) \<and>
      set (mget_list (pubsub (RemoveSubscriber c s)) ch) = {c'. subscribed c' ch} - {c}"
proof -
  define s where "s = subs.run ops (NewStore d e)"
  have wf: "wf_pubsub s" unfolding s_def by (intro wf_pubsub_run wf_pubsub_NewStore)
  have none: "c \<notin> subscribers_of (NewStore d e) ch" for c ch
    by (simp add: subscribers_of_def NewStore_def)
  have member: "c \<in> subscribers_of s ch \<longleftrightarrow>
      map_of (rev (map (\<lambda>(b, c, ch). ((c, ch), b)) ops)) (c, ch) = Some True" for c ch
    unfolding s_def subs.members_run by (simp add: none split: option.split)
  have "subs.agree s"
    unfolding s_def
    by (rule subs.agree_run) (simp add: subs.agree_def subscribers_of_def channels_of_def NewStore_def)
  then have "IsSubscribed c s \<longleftrightarrow> (\<exists>ch'. c \<in> subscribers_of s ch')"
    by (auto simp: IsSubscribed_channels subs.agree_def)
  moreover have "set (mget_list (pubsub s) ch) =
      {c. map_of (rev (map (\<lambda>(b, c, ch). ((c, ch), b)) ops)) (c, ch) = Some True}"
    using member by (auto simp: subscribers_of_def)
  moreover have "set (mget_list (pubsub (RemoveSubscriber c s)) ch) = set (mget_list (pubsub s) ch) - {c}"
    using RemoveSubscriber_views(1) [of c s] by (simp add: subscribers_of_def fun_eq_iff)
  ultimately show ?thesis
    using wf member
    by (simp add: s_def [symmetric] Let_def Publish_spec wf_pubsub_def)
qed

text \<open>
  C40: what a disconnect leaves behind: the set of channels of the client is not touched by
  \<open>RemoveSubscriber\<close>, so the two maps disagree from then on, and the client's connection still
  counts as subscribed; a channel whose last subscriber left this way stays in the map.
\<close>

theorem RemoveSubscriber_leaks:
  "IsSubscribed c (RemoveSubscriber c (fst (Subscribe c ch s))) \<and>
   \<not> subs.agree (RemoveSubscriber c (fst (Subscribe c ch s))) \<and>
   mget (pubsub (RemoveSubscriber c (fst (Subscribe c ch s)))) ch \<noteq> None"
proof -
  let ?t = "RemoveSubscriber c (fst (Subscribe c ch s))"
  have "ch \<in> channels_of ?t c" "c \<notin> subscribers_of ?t ch"
    by (simp_all add: RemoveSubscriber_views Subscribe_views)
  moreover have "mget (pubsub ?t) ch \<noteq> None"
    by (simp add: RemoveSubscriber_def mget_map_snd Subscribe_def Let_def)
  ultimately show ?thesis by (auto simp: IsSubscribed_channels subs.agree_def)
qed

end
