(* ===== verification/Transactions.thy ===== *)
theory Transactions
  imports StreamFacts ZSetFacts PubSub
begin

text \<open>
  Transactions and optimistic locking (\<open>app/storage.go\<close>): the queue of a client between
  \<open>MULTI\<close> and \<open>EXEC\<close>, the watched keys and the dirty marks. The locale \<open>change_detection\<close> is
  the contract of optimistic locking: an operation marks exactly the clients that watch a key
  it writes, and a key it does not write keeps its value. The interpretation \<open>watch\<close> shows that
  every operation of the store meets it.
\<close>

section \<open>The operations\<close>

definition StartTx :: "conn \<Rightarrow> 'a store_scheme \<Rightarrow> 'a store_scheme \<times> bool" where
  "StartTx c s =
     (if mget (transactions s) c \<noteq> None then (s, False)
      else (s\<lparr>transactions := mput c [] (transactions s)\<rparr>, True))"

definition QueueCommand :: "conn \<Rightarrow> resp list \<Rightarrow> 'a store_scheme \<Rightarrow> 'a store_scheme" where
  "QueueCommand c arr s =
     (case mget (transactions s) c of
        None \<Rightarrow> s
      | Some queue \<Rightarrow> s\<lparr>transactions := mput c (queue @ [arr]) (transactions s)\<rparr>)"

definition IsInTx :: "conn \<Rightarrow> 'a store_scheme \<Rightarrow> bool" where
  "IsInTx c s = (mget (transactions s) c \<noteq> None)"

definition ClearTx :: "conn \<Rightarrow> 'a store_scheme \<Rightarrow> 'a store_scheme" where
  "ClearTx c s = s\<lparr>transactions := mdel c (transactions s)\<rparr>"

definition GetAndClearTx ::
  "conn \<Rightarrow> 'a store_scheme \<Rightarrow> 'a store_scheme \<times> resp list list \<times> bool" where
  "GetAndClearTx c s =
     (case mget (transactions s) c of
        None \<Rightarrow> (s, [], False)
      | Some queue \<Rightarrow> (s\<lparr>transactions := mdel c (transactions s)\<rparr>, queue, True))"

definition watch_key :: "conn \<Rightarrow> string \<Rightarrow> 'a store_scheme \<Rightarrow> 'a store_scheme" where
  "watch_key c key s =
     s\<lparr>watchedKeys := mput key (sadd c (mget_list (watchedKeys s) key)) (watchedKeys s)\<rparr>"

definition Watch :: "conn \<Rightarrow> string list \<Rightarrow> 'a store_scheme \<Rightarrow> 'a store_scheme" where
  "Watch c keys s = fold (watch_key c) keys s"

definition Unwatch :: "conn \<Rightarrow> 'a store_scheme \<Rightarrow> 'a store_scheme" where
  "Unwatch c s =
     s\<lparr>watchedKeys := filter (\<lambda>(key, conns). conns \<noteq> [])
          (map (\<lambda>(key, conns). (key, sdel c conns)) (watchedKeys s)),
       dirtyClients := mdel c (dirtyClients s)\<rparr>"

definition IsDirty :: "conn \<Rightarrow> 'a store_scheme \<Rightarrow> bool" where
  "IsDirty c s = mget_bool (dirtyClients s) c"

section \<open>Queues\<close>

lemma QueueCommand_queue:
  "mget (transactions s) c = Some q \<Longrightarrow>
     mget (transactions (QueueCommand c arr s)) c = Some (q @ [arr])"
  by (simp add: QueueCommand_def)

text \<open>What was queued comes back, in order, and the transaction is over.\<close>

lemma queue_round_trip:
  assumes "mget (transactions s) c = None"
  shows "GetAndClearTx c (fold (QueueCommand c) arrs (fst (StartTx c s))) =
     (s\<lparr>transactions := mdel c (transactions (fold (QueueCommand c) arrs (fst (StartTx c s))))\<rparr>, arrs, True)"
proof -
  have gen: "mget (transactions (fold (QueueCommand c) arrs t)) c = Some (q @ arrs) \<and>
      (fold (QueueCommand c) arrs t)\<lparr>transactions := ts\<rparr> = t\<lparr>transactions := ts\<rparr>"
    if "mget (transactions t) c = Some q" for t :: "'a store_scheme" and q ts
    using that
  proof (induction arrs arbitrary: t q)
    case (Cons arr arrs)
    from Cons.IH [OF QueueCommand_queue [OF Cons.prems], of arr] Cons.prems show ?case
      by (simp add: QueueCommand_def)
  qed simp
  have "mget (transactions (fst (StartTx c s))) c = Some []" using assms by (simp add: StartTx_def)
  from gen [OF this] show ?thesis
    using assms by (simp add: GetAndClearTx_def StartTx_def)
qed

section \<open>Change detection\<close>

lemma IsDirty_is_dirty: "IsDirty c s = is_dirty c s"
  by (simp add: IsDirty_def is_dirty_def)

lemma watches_watch_key: "watches c k (watch_key c' k' s) \<longleftrightarrow> watches c k s \<or> (c = c' \<and> k = k')"
  by (auto simp: watches_def watch_key_def mget_list_def split: option.splits)

lemma watches_Watch: "watches c k (Watch c' keys s) \<longleftrightarrow> watches c k s \<or> (c = c' \<and> k \<in> set keys)"
  unfolding Watch_def by (induction keys arbitrary: s) (auto simp: watches_watch_key)

lemma Watch_frame [frame_simps]:
  "dirtyClients (Watch c keys s) = dirtyClients s" "cache (Watch c keys s) = cache s"
  "expiry (Watch c keys s) = expiry s"
  unfolding Watch_def by (induction keys arbitrary: s) (simp_all add: watch_key_def)

lemma map_of_filter_snd:
  "wf_map m \<Longrightarrow> mget (filter (\<lambda>(k, v). P v) m) k =
     (case mget m k of None \<Rightarrow> None | Some v \<Rightarrow> if P v then Some v else None)"
  by (induction m) (auto simp: wf_map_def map_of_eq_None_iff split: option.splits)

lemma watches_Unwatch:
  "wf_map (watchedKeys s) \<Longrightarrow> watches c k (Unwatch c' s) \<longleftrightarrow> watches c k s \<and> c \<noteq> c'"
proof -
  assume wf: "wf_map (watchedKeys s)"
  then have "wf_map (map (\<lambda>(key, conns). (key, sdel c' conns)) (watchedKeys s))"
    by (simp add: wf_map_def comp_def case_prod_unfold)
  note entry = map_of_filter_snd [OF this, of "\<lambda>conns. conns \<noteq> []" k]
  show ?thesis
  proof (cases "mget (watchedKeys s) k")
    case None
    then show ?thesis using entry by (simp add: Unwatch_def watches_def mget_map_snd)
  next
    case (Some conns)
    moreover have "set conns \<subseteq> {c'}" if "sdel c' conns = []"
      using arg_cong [OF that, of set] by auto
    ultimately show ?thesis
      using entry by (cases "sdel c' conns = []") (auto simp: Unwatch_def watches_def mget_map_snd)
  qed
qed

lemma is_dirty_Unwatch: "is_dirty c (Unwatch c' s) \<longleftrightarrow> is_dirty c s \<and> c \<noteq> c'"
  by (auto simp: is_dirty_def Unwatch_def mget_bool_def)

locale change_detection =
  fixes dirty :: "'s \<Rightarrow> 'c \<Rightarrow> bool"
    and watched :: "'s \<Rightarrow> 'c \<Rightarrow> 'k \<Rightarrow> bool"
    and look :: "'s \<Rightarrow> 'k \<Rightarrow> 'v"
    and exec :: "'op \<Rightarrow> 's \<Rightarrow> 's"
    and writes :: "'op \<Rightarrow> 's \<Rightarrow> 'k set"
    and timely :: "'op \<Rightarrow> bool"
    and inv :: "'s \<Rightarrow> bool"
  assumes dirty_exec: "dirty (exec op s) c \<longleftrightarrow> dirty s c \<or> (\<exists>k \<in> writes op s. watched s c k)"
    and watched_exec: "watched (exec op s) = watched s"
    and look_exec: "inv s \<Longrightarrow> timely op \<Longrightarrow> k \<notin> writes op s \<Longrightarrow> look (exec op s) k = look s k"
    and inv_exec: "inv s \<Longrightarrow> timely op \<Longrightarrow> inv (exec op s)"
begin

text \<open>The keys a sequence of operations writes, each in the state it runs in.\<close>

fun touched :: "'op list \<Rightarrow> 's \<Rightarrow> 'k set" where
  "touched [] s = {}"
| "touched (op # ops) s = writes op s \<union> touched ops (exec op s)"

lemma watched_fold: "watched (fold exec ops s) = watched s"
  by (induction ops arbitrary: s) (simp_all add: watched_exec)

lemma dirty_fold: "dirty (fold exec ops s) c \<longleftrightarrow> dirty s c \<or> (\<exists>k \<in> touched ops s. watched s c k)"
  by (induction ops arbitrary: s) (auto simp: dirty_exec watched_exec)

lemma inv_fold: "inv s \<Longrightarrow> list_all timely ops \<Longrightarrow> inv (fold exec ops s)"
  by (induction ops arbitrary: s) (simp_all add: inv_exec)

lemma look_fold: "inv s \<Longrightarrow> list_all timely ops \<Longrightarrow> k \<notin> touched ops s \<Longrightarrow> look (fold exec ops s) k = look s k"
  by (induction ops arbitrary: s) (simp_all add: look_exec inv_exec)

text \<open>A client that is not marked sees every key it watches unchanged.\<close>

lemma clean_unchanged:
  assumes "inv s" and "list_all timely ops" and "\<not> dirty (fold exec ops s) c" and "watched s c k"
  shows "look (fold exec ops s) k = look s k"
  using assms by (intro look_fold) (auto simp: dirty_fold)

end

section \<open>The operations that touch the keyspace\<close>

text \<open>Every store method that changes the cache, with the time it runs at where it reads one.\<close>

datatype store_op =
    OpSet string cached
  | OpSetTTL int string cached int
  | OpLPush string "string list"
  | OpRPush string "string list"
  | OpPop string
  | OpIncr string
  | OpZAdd string float64 string
  | OpZRem string "string list"
  | OpXAdd int string string "string list"
  | OpGet int string
  | OpExpire int string

primrec exec_op :: "store_op \<Rightarrow> 'a store_scheme \<Rightarrow> 'a store_scheme" where
  "exec_op (OpSet k v) s = Set k v s"
| "exec_op (OpSetTTL now k v ttl) s = SetWithTTL now k v ttl s"
| "exec_op (OpLPush k vs) s = fst (LPush k vs s)"
| "exec_op (OpRPush k vs) s = fst (RPush k vs s)"
| "exec_op (OpPop k) s = (case pop_front k s of Some (s', v) \<Rightarrow> s' | None \<Rightarrow> s)"
| "exec_op (OpIncr k) s = fst (Incr k s)"
| "exec_op (OpZAdd k sc m) s = fst (ZAdd k sc m s)"
| "exec_op (OpZRem k ms) s = fst (ZRem k ms s)"
| "exec_op (OpXAdd now k sid fs) s = fst (XAdd now k sid fs s)"
| "exec_op (OpGet now k) s = fst (Get now k s)"
| "exec_op (OpExpire now k) s = run_Expire now k s"

text \<open>The key an operation writes, when it succeeds.\<close>

primrec op_writes :: "store_op \<Rightarrow> 'a store_scheme \<Rightarrow> string set" where
  "op_writes (OpSet k v) s = {k}"
| "op_writes (OpSetTTL now k v ttl) s = {k}"
| "op_writes (OpLPush k vs) s = {k}"
| "op_writes (OpRPush k vs) s = {k}"
| "op_writes (OpPop k) s = (if list_at s k = [] then {} else {k})"
| "op_writes (OpIncr k) s = (case snd (Incr k s) of Inl e \<Rightarrow> {} | Inr n \<Rightarrow> {k})"
| "op_writes (OpZAdd k sc m) s = (if holds_other_type s k then {} else {k})"
| "op_writes (OpZRem k ms) s = (if 0 < snd (ZRem k ms s) then {k} else {})"
| "op_writes (OpXAdd now k sid fs) s = (case snd (XAdd now k sid fs s) of Inl e \<Rightarrow> {} | Inr i \<Rightarrow> {k})"
| "op_writes (OpGet now k) s = {}"
| "op_writes (OpExpire now k) s = {}"

text \<open>Every sorted set is a map and has a member: the operations drop the key with the last one.\<close>

fun wf_value :: "cached \<Rightarrow> bool" where
  "wf_value (VZSet z) = (wf_map z \<and> z \<noteq> [])"
| "wf_value _ = True"

definition wf_values :: "'a store_scheme \<Rightarrow> bool" where
  "wf_values s \<longleftrightarrow> (\<forall>k v. mget (cache s) k = Some v \<longrightarrow> wf_value v)"

text \<open>An operation that runs before the time \<open>t\<close> of the observer, with a value the parser gives.\<close>

fun op_before :: "int \<Rightarrow> store_op \<Rightarrow> bool" where
  "op_before t (OpGet now k) = (now \<le> t)"
| "op_before t (OpExpire now k) = (now < t)"
| "op_before t (OpSet k v) = wf_value v"
| "op_before t (OpSetTTL now k v ttl) = wf_value v"
| "op_before t _ = True"

lemma is_dirty_simps [simp]:
  "is_dirty c (s\<lparr>expiry := e\<rparr>) = is_dirty c s" "is_dirty c (s\<lparr>spawned := g\<rparr>) = is_dirty c s"
  "is_dirty c (s\<lparr>waiters := w\<rparr>) = is_dirty c s"
  by (simp_all add: is_dirty_def)

lemma watches_simps [simp]:
  "watches c k (s\<lparr>expiry := e\<rparr>) = watches c k s" "watches c k (s\<lparr>spawned := g\<rparr>) = watches c k s"
  "watches c k (s\<lparr>waiters := w\<rparr>) = watches c k s"
  by (simp_all add: watches_def)

lemma notify_waiters_marks [simp]:
  "is_dirty c (notify_waiters k sid s) = is_dirty c s"
  "watches c k' (notify_waiters k sid s) = watches c k' s"
  by (simp_all add: is_dirty_def watches_def frame_simps)

lemma remove_members_none: "remove_members ms z = (z', n) \<Longrightarrow> 0 \<le> n \<and> (n = 0 \<longrightarrow> z' = z)"
  by (induction ms arbitrary: z z' n) (force split: if_splits prod.splits)+

lemmas op_defs =
  SetWithTTL_def LPush_def RPush_def pop_front_def Incr_def ZAdd_def ZRem_def XAdd_def Get_def
  run_Expire_def Set_def Let_def

lemmas op_splits =
  option.splits cached.splits list.splits prod.splits sum.splits if_splits

lemma exec_op_watches: "watches c k (exec_op op s) = watches c k s"
  by (cases op) (simp_all add: op_defs split: op_splits)

lemma exec_op_dirty:
  "is_dirty c (exec_op op s) \<longleftrightarrow> is_dirty c s \<or> (\<exists>k \<in> op_writes op s. watches c k s)"
  by (cases op) (auto simp: op_defs list_at_def holds_other_type_def split: op_splits)


lemma live_cong:
  "mget (cache s') k = mget (cache s) k \<Longrightarrow> mget (expiry s') k = mget (expiry s) k \<Longrightarrow>
     live t s' k = live t s k"
  by (simp add: live_def cong: option.case_cong)

lemma XAdd_other_key:
  "k' \<noteq> k \<Longrightarrow> mget (cache (fst (XAdd now k sid fs s))) k' = mget (cache s) k'"
  "expiry (fst (XAdd now k sid fs s)) = expiry s"
  by (auto simp: XAdd_def Let_def frame_simps split: sum.splits)

lemma wf_valuesD: "wf_values s \<Longrightarrow> mget (cache s) k = Some v \<Longrightarrow> wf_value v"
  by (simp add: wf_values_def)

lemma exec_op_look:
  assumes "wf_values s" and "op_before t op" and "k \<notin> op_writes op s"
  shows "live t (exec_op op s) k = live t s k"
proof (cases op)
  case (OpZRem k' ms)
  have "mget (cache s) k' = Some (VZSet z) \<Longrightarrow> z \<noteq> []" for z
    using wf_valuesD [OF assms(1)] by fastforce
  moreover have "z' = z" if "remove_members ms z = (z', n)" "\<not> 0 < n" for z z' n
    using remove_members_none [OF that(1)] that(2) by simp
  ultimately show ?thesis
    using assms(3) OpZRem
    by (auto simp: ZRem_def Let_def intro!: live_cong split: op_splits)
next
  case (OpXAdd now k' sid fs)
  then show ?thesis
    using assms(3) XAdd_error [of now k' sid fs s] XAdd_other_key(1) [of k k' now sid fs s] XAdd_other_key(2) [of now k' sid fs s]
    by (auto intro!: live_cong split: sum.splits)
next
  case (OpGet now k')
  then show ?thesis using assms(2) by (simp add: live_Get)
next
  case (OpExpire now k')
  then show ?thesis using assms(2) by (simp add: live_run_Expire)
qed (use assms in \<open>auto simp: live_Set live_SetWithTTL list_at_def holds_other_type_def op_defs
    intro!: live_cong split: op_splits\<close>)

lemma exec_op_wf_values:
  assumes "wf_values s" and "op_before t op"
  shows "wf_values (exec_op op s)"
proof (cases op)
  case (OpZAdd k sc m)
  have "wf_map [(m, sc)]" by (simp add: wf_map_def)
  moreover have "wf_map (mput m sc z)" if "mget (cache s) k = Some (VZSet z)" for z
    using wf_valuesD [OF assms(1) that] by simp
  ultimately show ?thesis
    using assms OpZAdd by (auto simp: ZAdd_def wf_values_def Let_def split: op_splits)
next
  case (OpZRem k ms)
  have "wf_map z'" if "mget (cache s) k = Some (VZSet z)" "remove_members ms z = (z', n)" for z z' n
    using wf_valuesD [OF assms(1) that(1)] remove_members_spec [OF _ that(2)] by simp
  then show ?thesis
    using OpZRem assms(1) by (auto simp: ZRem_def wf_values_def Let_def split: op_splits)
next
  case (OpXAdd now k sid fs)
  then show ?thesis
    using assms(1) by (auto simp: XAdd_def wf_values_def Let_def frame_simps split: sum.splits)
next
  case (OpPop k)
  then show ?thesis using assms(1) by (auto simp: pop_front_def wf_values_def Let_def split: op_splits)
next
  case (OpGet now k)
  then show ?thesis using assms(1) by (auto simp: Get_def wf_values_def split: op_splits)
next
  case (OpExpire now k)
  then show ?thesis using assms(1) by (auto simp: run_Expire_def wf_values_def split: op_splits)
qed (use assms in \<open>auto simp: wf_values_def op_defs split: op_splits\<close>)

interpretation watch: change_detection "\<lambda>s c. is_dirty c s" "\<lambda>s c k. watches c k s" "live t"
    exec_op op_writes "op_before t" wf_values for t
  by unfold_locales
     (simp_all add: exec_op_dirty exec_op_watches exec_op_look exec_op_wf_values fun_eq_iff)

section \<open>Properties\<close>

text \<open>
  C12: optimistic locking is sound and exact: start from a client without a mark that watches
  some keys, and let any sequence of store operations run. If the client is then not dirty,
  every key it watches still shows an observer the value it had; and it is dirty exactly when
  one of the operations wrote a key it watches. The observer's time is not before the
  operations', so a key that merely expires in between is expired for both readings.
\<close>

theorem watch_detects_changes:
  assumes "wf_values s" and "list_all (op_before t) ops" and "\<not> IsDirty c s"
  shows "IsDirty c (fold exec_op ops (Watch c keys s)) =
      (\<exists>k. (watches c k s \<or> k \<in> set keys) \<and> k \<in> watch.touched ops (Watch c keys s)) \<and>
    (\<not> IsDirty c (fold exec_op ops (Watch c keys s)) \<longrightarrow> k \<in> set keys \<longrightarrow>
      snd (Get t k (fold exec_op ops (Watch c keys s))) = snd (Get t k s))"
proof -
  let ?s = "Watch c keys s"
  have wf: "wf_values ?s" using assms(1) by (simp add: wf_values_def frame_simps)
  have clean: "\<not> is_dirty c ?s"
    using assms(3) by (simp add: IsDirty_is_dirty) (simp add: is_dirty_def frame_simps)
  have "live t ?s = live t s" by (rule ext, rule live_cong) (simp_all add: Watch_frame)
  then show ?thesis
    using watch.dirty_fold [of c ops ?s] watch.clean_unchanged [OF wf assms(2), of c k] clean
    by (auto simp: IsDirty_is_dirty Get_live watches_Watch)
qed

theorem watch_detects_changes_witness:
  "IsDirty (Some 7) (fold exec_op [OpSet ''x'' (VStr ''1''), OpIncr ''k''] (Watch (Some 7) [''k''] (NewStore [] []))) \<and>
   \<not> IsDirty (Some 7) (fold exec_op [OpSet ''x'' (VStr ''1''), OpGet 0 ''k''] (Watch (Some 7) [''k''] (NewStore [] [])))"
proof -
  let ?s = "NewStore [] [] :: store"
  have 1: "wf_values ?s" and 2: "\<not> IsDirty (Some 7) ?s"
    by (simp_all add: wf_values_def IsDirty_def mget_bool_def NewStore_def)
  have w: "\<not> watches (Some 7) k ?s" for k by (simp add: watches_def NewStore_def)
  have c: "mget (cache (Watch (Some 7) [''k''] ?s)) ''k'' = None" by (simp add: frame_simps NewStore_def)
  show ?thesis
    using watch_detects_changes [OF 1 _ 2, of 5 "[OpSet ''x'' (VStr ''1''), OpIncr ''k'']" "[''k'']"]
      watch_detects_changes [OF 1 _ 2, of 5 "[OpSet ''x'' (VStr ''1''), OpGet 0 ''k'']" "[''k'']"] c
    by (auto simp: w Incr_def)
qed

end
