(* ===== verification/GoPath.thy ===== *)
theory GoPath
  imports GoStrings
begin

text \<open>
  The path functions of \<open>path/filepath\<close> (on Unix) and \<open>net.SplitHostPort\<close>, as far as the
  server calls them.
\<close>

definition slash :: char where "slash = CHR ''/''"

text \<open>The elements of the cleaned path, innermost first, element by element.\<close>

fun clean_step :: "bool \<Rightarrow> string list \<Rightarrow> string \<Rightarrow> string list" where
  "clean_step rooted stack e =
     (if e = [] \<or> e = ''.'' then stack
      else if e = ''..'' then
        (case stack of
           [] \<Rightarrow> if rooted then [] else [e]
         | parent # rest \<Rightarrow> if parent = ''..'' then e # stack else rest)
      else e # stack)"

definition Clean :: "string \<Rightarrow> string" where
  "Clean path =
     (let rooted = (case path of c # _ \<Rightarrow> c = slash | [] \<Rightarrow> False);
          stack = foldl (clean_step rooted) [] (split_on slash path);
          body = join_with slash (rev stack)
      in if rooted then slash # body else if body = [] then ''.'' else body)"

definition Join :: "string list \<Rightarrow> string" where
  "Join elems =
     (case dropWhile (\<lambda>e. e = []) elems of
        [] \<Rightarrow> []
      | es \<Rightarrow> Clean (join_with slash es))"

definition Base :: "string \<Rightarrow> string" where
  "Base path =
     (if path = [] then ''.''
      else
        let stripped = rev (dropWhile (\<lambda>c. c = slash) (rev path))
        in if stripped = [] then [slash] else last (split_on slash stripped))"

definition Dir :: "string \<Rightarrow> string" where
  "Dir path = Clean (rev (dropWhile (\<lambda>c. c \<noteq> slash) (rev path)))"

definition IsAbs :: "string \<Rightarrow> bool" where
  "IsAbs path = (case path of c # _ \<Rightarrow> c = slash | [] \<Rightarrow> False)"

text \<open>The bytes before and after the last colon.\<close>

definition last_colon :: "string \<Rightarrow> (string \<times> string) option" where
  "last_colon s =
     (if CHR '':'' \<in> set s
      then Some (rev (tl (dropWhile (\<lambda>c. c \<noteq> CHR '':'') (rev s))),
                 rev (takeWhile (\<lambda>c. c \<noteq> CHR '':'') (rev s)))
      else None)"

definition SplitHostPort :: "string \<Rightarrow> (string \<times> string) option" where
  "SplitHostPort hostport =
     (case last_colon hostport of
        None \<Rightarrow> None
      | Some (before, port) \<Rightarrow>
          (case before of
             c # inner \<Rightarrow>
               if c = CHR ''['' then
                 \<comment> \<open>the first closing bracket must end the part before the last colon\<close>
                 (if CHR '']'' \<in> set inner \<and> dropWhile (\<lambda>x. x \<noteq> CHR '']'') inner = '']''
                      \<and> CHR ''['' \<notin> set inner \<and> CHR ''['' \<notin> set port \<and> CHR '']'' \<notin> set port
                  then Some (butlast inner, port) else None)
               else if CHR '':'' \<in> set before \<or> CHR ''['' \<in> set hostport \<or> CHR '']'' \<in> set hostport
                 then None
               else Some (before, port)
           | [] \<Rightarrow>
               if CHR ''['' \<in> set hostport \<or> CHR '']'' \<in> set hostport then None
               else Some ([], port)))"

section \<open>Joining plain names\<close>

text \<open>A name that \<open>Clean\<close> keeps: not empty, no dot element, no separator.\<close>

definition plain_name :: "string \<Rightarrow> bool" where
  "plain_name s \<longleftrightarrow> s \<noteq> [] \<and> s \<noteq> ''.'' \<and> s \<noteq> ''..'' \<and> slash \<notin> set s"

lemma clean_step_plain [simp]: "plain_name e \<Longrightarrow> clean_step r stack e = e # stack"
  by (simp add: plain_name_def)

lemma split_on_snoc: "split_on c (s @ c # t) = split_on c s @ split_on c t"
proof (induction s)
  case (Cons x s)
  then show ?case
    by (cases "split_on c s") auto
qed simp

text \<open>
  Joining a last plain name to anything not empty: the directory of the result is the cleaned
  rest and its base is the name.
\<close>

lemma join_with_snoc: "xs \<noteq> [] \<Longrightarrow> join_with c (xs @ [e]) = join_with c xs @ c # e"
  by (induction c xs rule: join_with.induct) auto

lemma join_with_eq_Nil: "join_with c xs = [] \<longleftrightarrow> xs = [] \<or> xs = [[]]"
  by (induction c xs rule: join_with.induct) auto

fun rooted_path :: "string \<Rightarrow> bool" where
  "rooted_path [] = False"
| "rooted_path (c # s) = (c = slash)"

definition clean_stack :: "string \<Rightarrow> string list" where
  "clean_stack path = foldl (clean_step (rooted_path path)) [] (split_on slash path)"

lemma Clean_stack:
  "Clean path = (let body = join_with slash (rev (clean_stack path))
     in if rooted_path path then slash # body else if body = [] then ''.'' else body)"
  by (cases path) (simp_all add: Clean_def clean_stack_def Let_def)

lemma rooted_append: "p \<noteq> [] \<Longrightarrow> rooted_path (p @ q) = rooted_path p"
  by (cases p) auto

lemma clean_stack_snoc:
  "p \<noteq> [] \<Longrightarrow> plain_name e \<Longrightarrow> clean_stack (p @ slash # e) = e # clean_stack p"
  by (simp add: clean_stack_def rooted_append split_on_snoc split_on_plain plain_name_def
      del: clean_step.simps)

lemma foldl_clean_elems:
  "e \<in> set (foldl (clean_step r) st es) \<Longrightarrow> e \<in> set st \<or> (e \<in> set es \<and> e \<noteq> [])"
proof (induction es arbitrary: st)
  case (Cons x es)
  then have "e \<in> set (clean_step r st x) \<or> (e \<in> set es \<and> e \<noteq> [])"
    by (simp del: clean_step.simps)
  then show ?case
    by (cases st) (auto split: if_splits)
qed simp

lemma split_elems_no_sep: "e \<in> set (split_on c s) \<Longrightarrow> c \<notin> set e"
proof (induction s arbitrary: e)
  case (Cons x s)
  then show ?case
    by (cases "split_on c s") (auto split: if_splits)
qed simp

lemma clean_stack_elems: "e \<in> set (clean_stack p) \<Longrightarrow> e \<noteq> [] \<and> slash \<notin> set e"
  unfolding clean_stack_def
  by (drule foldl_clean_elems) (auto dest: split_elems_no_sep)

lemma last_split_snoc: "slash \<notin> set e \<Longrightarrow> last (split_on slash (p @ slash # e)) = e"
  by (simp add: split_on_snoc split_on_plain)

text \<open>The text of the cleaned path with one more plain name.\<close>

lemma Clean_snoc:
  assumes "p \<noteq> []" and "plain_name e"
  shows "Clean (p @ slash # e) =
    (if clean_stack p = [] then (if rooted_path p then slash # e else e) else Clean p @ slash # e)"
  using assms join_with_snoc [of "rev (clean_stack p)" slash e]
    clean_stack_elems [of "[]" p]
  by (auto simp: Clean_stack Let_def clean_stack_snoc rooted_append join_with_eq_Nil plain_name_def)

lemma dropWhile_slash_plain:
  "plain_name e \<Longrightarrow> dropWhile (\<lambda>c. c = slash) (rev e @ t) = rev e @ t"
proof -
  assume e: "plain_name e"
  then have "e = butlast e @ [last e]" and "last e \<noteq> slash"
    by (auto simp: plain_name_def) (metis last_in_set)
  then obtain f l where "e = f @ [l]" and "l \<noteq> slash" by metis
  then show ?thesis by simp
qed

lemma Base_snoc: "plain_name e \<Longrightarrow> Base (p @ slash # e) = e"
  using dropWhile_slash_plain [of e "slash # rev p"]
  by (simp add: Base_def Let_def last_split_snoc plain_name_def)

lemma Base_plain: "plain_name e \<Longrightarrow> Base e = e"
  using dropWhile_slash_plain [of e "[]"]
  by (simp add: Base_def Let_def split_on_plain plain_name_def)

end
