(* ===== verification/Config.thy ===== *)
theory Config
  imports GoPath Prelude
begin

text \<open>
  Configuration: \<open>ServerConfig\<close> and the part of \<open>main\<close> that fills it (\<open>app/server.go\<close>), the
  configuration file (\<open>app/config.go\<close>) and the target of a replica, \<open>parseReplicaTarget\<close>.
\<close>

record ServerConfig =
  dir :: string
  dbfilename :: string
  appendonly :: string
  appenddirname :: string
  appendfilename :: string
  appendfsync :: string
  requirepass :: string
  port :: string
  role :: string
  replicaof :: string
  masterReplID :: string
  masterReplOffset :: int

section \<open>The configuration file\<close>

text \<open>One line of the file: nothing for blank lines, comments, lines without \<open>=\<close> or key.\<close>

definition config_line :: "string \<Rightarrow> (string \<times> string) option" where
  "config_line line =
     (let l = TrimSpace line
      in if l = [] \<or> prefix ''#'' l then None
         else (case split_on2 (CHR ''='') l of
                 [p0, p1] \<Rightarrow>
                   let key = TrimSpace p0; val = TrimSpace p1
                   in if key \<noteq> [] then Some (key, val) else None
               | _ \<Rightarrow> None))"

text \<open>\<open>None\<close> is a file that cannot be read; a later line for a key replaces an earlier one.\<close>

definition loadConfigFromFile :: "string option \<Rightarrow> (string, string) gomap option" where
  "loadConfigFromFile content =
     (case content of
        None \<Rightarrow> None
      | Some txt \<Rightarrow>
          Some (fold (\<lambda>line values.
                  case config_line line of None \<Rightarrow> values | Some (key, val) \<Rightarrow> mput key val values)
                (split_on LF txt) []))"

text \<open>\<open>if v, ok := values[name]; ok && v != ""\<close>: the value of a setting that is given.\<close>

definition given :: "(string, string) gomap \<Rightarrow> string \<Rightarrow> string \<Rightarrow> string" where
  "given values name old =
     (case mget values name of None \<Rightarrow> old | Some v \<Rightarrow> if v \<noteq> [] then v else old)"

text \<open>The configuration, and the error of a replication offset that is not a number, if any.\<close>

definition applyConfigFileValues ::
  "ServerConfig \<Rightarrow> (string, string) gomap \<Rightarrow> ServerConfig \<times> num_err option" where
  "applyConfigFileValues config values =
     (if values = [] then (config, None)
      else
        let c = config
              \<lparr>dir := given values ''dir'' (dir config),
               dbfilename := given values ''dbfilename'' (dbfilename config),
               appendonly := given values ''appendonly'' (appendonly config),
               appenddirname := given values ''appenddirname'' (appenddirname config),
               appendfilename := given values ''appendfilename'' (appendfilename config),
               appendfsync := given values ''appendfsync'' (appendfsync config),
               requirepass := given values ''requirepass'' (requirepass config),
               port := given values ''port'' (port config),
               replicaof := given values ''replicaof'' (replicaof config),
               role := given values ''role'' (role config),
               masterReplID := given values ''master_repl_id'' (masterReplID config)\<rparr>;
            v = given values ''master_repl_offset'' []
        in if v = [] then (c, None)
           else (case ParseInt v of
                   (_, Some e) \<Rightarrow> (c, Some e)
                 | (offset, None) \<Rightarrow> (c\<lparr>masterReplOffset := offset\<rparr>, None)))"

definition resolveConfigPath :: "string \<Rightarrow> string" where
  "resolveConfigPath configPath =
     (if configPath = [] then []
      else if IsAbs configPath then configPath
      else Join [''.'', configPath])"

section \<open>The configuration \<open>main\<close> builds\<close>

definition default_config :: "string \<Rightarrow> ServerConfig" where
  "default_config cwd =
     \<lparr>dir = cwd, dbfilename = [], appendonly = ''no'', appenddirname = ''appendonlydir'',
      appendfilename = ''appendonly.aof'', appendfsync = ''everysec'', requirepass = [],
      port = ''6379'', role = ''master'', replicaof = [],
      masterReplID = ''8371b4fb1155b71f4a04d3e1bc3e18c4a990aeeb'', masterReplOffset = 0\<rparr>"

definition flag_or :: "(string, string) gomap \<Rightarrow> string \<Rightarrow> string \<Rightarrow> string" where
  "flag_or flags name old = (case mget flags name of None \<Rightarrow> old | Some v \<Rightarrow> v)"

text \<open>
  \<open>flags\<close> holds the flags given on the command line, \<open>read\<close> the file system. An unreadable or
  invalid file is reported and the values applied so far are kept.
\<close>

definition main_config ::
  "string \<Rightarrow> (string, string) gomap \<Rightarrow> (string \<Rightarrow> string option) \<Rightarrow> ServerConfig" where
  "main_config cwd flags read =
     (let path = resolveConfigPath (flag_or flags ''config'' []);
          base = default_config cwd;
          c = (if path = [] then base
               else (case loadConfigFromFile (read path) of
                       None \<Rightarrow> base
                     | Some values \<Rightarrow> fst (applyConfigFileValues base values)));
          c' = c\<lparr>dir := flag_or flags ''dir'' (dir c),
                 dbfilename := flag_or flags ''dbfilename'' (dbfilename c),
                 appendonly := flag_or flags ''appendonly'' (appendonly c),
                 appenddirname := flag_or flags ''appenddirname'' (appenddirname c),
                 appendfilename := flag_or flags ''appendfilename'' (appendfilename c),
                 appendfsync := flag_or flags ''appendfsync'' (appendfsync c),
                 requirepass := flag_or flags ''requirepass'' (requirepass c),
                 port := flag_or flags ''port'' (port c),
                 replicaof := flag_or flags ''replicaof'' (replicaof c)\<rparr>
      in c'\<lparr>role := (if replicaof c' \<noteq> [] then ''slave'' else ''master'')\<rparr>)"

section \<open>The master of a replica\<close>

definition parseReplicaTarget :: "string \<Rightarrow> (string \<times> string) option" where
  "parseReplicaTarget target =
     (let t = TrimSpace target
      in if t = [] then None
         else if CHR '' '' \<in> set t then
           (case Fields t of [host, masterPort] \<Rightarrow> Some (host, masterPort) | _ \<Rightarrow> None)
         else SplitHostPort t)"

section \<open>Lemmas\<close>

text \<open>
  The sources of a setting in their order of precedence. A flag wins even when empty; a file
  value only when not empty.
\<close>

definition setting_from ::
  "(string, string) gomap \<Rightarrow> (string, string) gomap \<Rightarrow> string \<Rightarrow> string \<Rightarrow> string" where
  "setting_from flags values name dflt =
     (case mget flags name of
        Some v \<Rightarrow> v
      | None \<Rightarrow> (case mget values name of
                   Some v \<Rightarrow> if v \<noteq> [] then v else dflt
                 | None \<Rightarrow> dflt))"

lemma flag_or_given: "flag_or flags name (given values name d) = setting_from flags values name d"
  by (simp add: flag_or_def given_def setting_from_def split: option.split)

lemma flag_or_default: "flag_or flags name d = setting_from flags [] name d"
  by (simp add: flag_or_def setting_from_def split: option.split)

lemma applyConfigFileValues_fields:
  "fst (applyConfigFileValues c values) =
     c\<lparr>dir := given values ''dir'' (dir c), dbfilename := given values ''dbfilename'' (dbfilename c),
       appendonly := given values ''appendonly'' (appendonly c),
       appenddirname := given values ''appenddirname'' (appenddirname c),
       appendfilename := given values ''appendfilename'' (appendfilename c),
       appendfsync := given values ''appendfsync'' (appendfsync c),
       requirepass := given values ''requirepass'' (requirepass c),
       port := given values ''port'' (port c), replicaof := given values ''replicaof'' (replicaof c),
       role := given values ''role'' (role c),
       masterReplID := given values ''master_repl_id'' (masterReplID c),
       masterReplOffset := (case mget values ''master_repl_offset'' of
           Some v \<Rightarrow> (case parse_ok v of Some n \<Rightarrow> n | None \<Rightarrow> masterReplOffset c)
         | None \<Rightarrow> masterReplOffset c)\<rparr>"
proof (cases "values = []")
  case True
  then show ?thesis by (simp add: applyConfigFileValues_def given_def)
next
  case False
  have "parse_ok [] = None" by (simp add: parse_ok_def go_eval)
  with False show ?thesis
    by (cases "mget values ''master_repl_offset''")
       (auto simp: applyConfigFileValues_def Let_def given_def [of _ "''master_repl_offset''"]
         parse_ok_def split: prod.splits option.splits)
qed

definition file_values :: "(string, string) gomap \<Rightarrow> (string \<Rightarrow> string option) \<Rightarrow> (string, string) gomap" where
  "file_values flags read =
     (let path = resolveConfigPath (flag_or flags ''config'' [])
      in if path = [] then []
         else (case loadConfigFromFile (read path) of None \<Rightarrow> [] | Some values \<Rightarrow> values))"

lemma applyConfigFileValues_Nil: "fst (applyConfigFileValues c []) = c"
  by (simp add: applyConfigFileValues_def)

lemma main_config_values:
  "main_config cwd flags read =
     (let c = fst (applyConfigFileValues (default_config cwd) (file_values flags read));
          c' = c\<lparr>dir := flag_or flags ''dir'' (dir c),
                 dbfilename := flag_or flags ''dbfilename'' (dbfilename c),
                 appendonly := flag_or flags ''appendonly'' (appendonly c),
                 appenddirname := flag_or flags ''appenddirname'' (appenddirname c),
                 appendfilename := flag_or flags ''appendfilename'' (appendfilename c),
                 appendfsync := flag_or flags ''appendfsync'' (appendfsync c),
                 requirepass := flag_or flags ''requirepass'' (requirepass c),
                 port := flag_or flags ''port'' (port c),
                 replicaof := flag_or flags ''replicaof'' (replicaof c)\<rparr>
      in c'\<lparr>role := (if replicaof c' \<noteq> [] then ''slave'' else ''master'')\<rparr>)"
  by (simp add: main_config_def file_values_def applyConfigFileValues_Nil Let_def split: option.split)

section \<open>Properties\<close>

text \<open>
  C33: where each setting of the running server comes from: the command line if the flag is
  given there, else the configuration file if it gives a non-empty value, else the default; the
  identity and offset of the master only from the file, the offset only if it is a number. The
  role follows from \<open>replicaof\<close> alone: a \<open>role\<close> line of the file has no effect.
\<close>

theorem config_precedence:
  "main_config cwd flags read =
     (let values = file_values flags read; from = setting_from flags values
      in \<lparr>dir = from ''dir'' cwd, dbfilename = from ''dbfilename'' [],
          appendonly = from ''appendonly'' ''no'',
          appenddirname = from ''appenddirname'' ''appendonlydir'',
          appendfilename = from ''appendfilename'' ''appendonly.aof'',
          appendfsync = from ''appendfsync'' ''everysec'',
          requirepass = from ''requirepass'' [], port = from ''port'' ''6379'',
          role = (if from ''replicaof'' [] \<noteq> [] then ''slave'' else ''master''),
          replicaof = from ''replicaof'' [],
          masterReplID = setting_from [] values ''master_repl_id''
            ''8371b4fb1155b71f4a04d3e1bc3e18c4a990aeeb'',
          masterReplOffset = (case mget values ''master_repl_offset'' of
              Some v \<Rightarrow> (case parse_ok v of Some n \<Rightarrow> n | None \<Rightarrow> 0)
            | None \<Rightarrow> 0)\<rparr>)"
  unfolding main_config_values applyConfigFileValues_fields default_config_def Let_def
  by (simp add: flag_or_given) (simp add: given_def setting_from_def split: option.split)

text \<open>
  C34: a replica finds its master under both spellings of the target, \<open>host port\<close> and
  \<open>host:port\<close>, for host and port without colons, brackets and white space.
\<close>

theorem parseReplicaTarget_forms:
  assumes "plain_word host" and "plain_word p"
    and "set (host @ p) \<inter> {CHR '':'', CHR ''['', CHR '']''} = {}"
  shows "parseReplicaTarget (host @ '' '' @ p) = Some (host, p) \<and>
    parseReplicaTarget (host @ '':'' @ p) = Some (host, p)"
proof -
  have t: "TrimSpace (host @ '' '' @ p) = host @ '' '' @ p" "TrimSpace (host @ '':'' @ p) = host @ '':'' @ p"
    using assms(1,2) by (simp_all only: TrimSpace_words)
  have f: "Fields (host @ '' '' @ p) = [host, p]"
    using assms(1,2) by (simp add: Fields_word)
  have ns: "CHR '' '' \<notin> set host" "CHR '' '' \<notin> set p" "host \<noteq> []"
    using assms(1,2) by (auto simp: plain_word_def list_all_iff plain_char_def)
  have "takeWhile (\<lambda>c. c \<noteq> CHR '':'') (rev (host @ '':'' @ p)) = rev p"
    and "dropWhile (\<lambda>c. c \<noteq> CHR '':'') (rev (host @ '':'' @ p)) = CHR '':'' # rev host"
    using assms(3) by (auto simp: takeWhile_append dropWhile_append)
  then have "last_colon (host @ '':'' @ p) = Some (host, p)"
    by (simp add: last_colon_def)
  moreover obtain c cs where "host = c # cs" using ns(3) by (cases host) auto
  ultimately have "SplitHostPort (host @ '':'' @ p) = Some (host, p)"
    using assms(3) by (auto simp: SplitHostPort_def)
  with t f ns show ?thesis
    by (auto simp: parseReplicaTarget_def Let_def)
qed

theorem parseReplicaTarget_forms_witness:
  "parseReplicaTarget ''localhost 6380'' = Some (''localhost'', ''6380'') \<and>
   parseReplicaTarget ''localhost:6380'' = Some (''localhost'', ''6380'')"
  using parseReplicaTarget_forms [of "''localhost''" "''6380''"]
  by (simp add: plain_word_def plain_char_def)

end
