(* ===== verification/Aof.thy ===== *)
theory Aof
  imports Config RespFacts
begin

text \<open>
  The append-only file (\<open>app/aof.go\<close>): its directory, its manifest, and appending a command.
  Replaying it runs command handlers and is in the theory \<open>Server\<close>.

  The file system is a map from paths to contents. What can go wrong in it is a parameter,
  \<open>fails\<close>: which system call fails on which path. The model of a failing \<open>Write\<close> adds nothing
  to the file.
\<close>

type_synonym files = "(string, string) gomap"

datatype io = Mkdir | Stat | Open | Write | Sync

type_synonym io_fails = "io \<Rightarrow> string \<Rightarrow> bool"

datatype aof_err =
    NoFilename | MkdirFailed | StatFailed | OpenFailed | WriteFailed | SyncFailed
  | LineTooLong | NoActiveFile | LogError go_err

section \<open>Paths\<close>

definition manifest_path :: "ServerConfig \<Rightarrow> string" where
  "manifest_path config = Join [dir config, appenddirname config, appendfilename config @ ''.manifest'']"

section \<open>The manifest\<close>

text \<open>\<open>os.OpenFile\<close> with \<open>O_CREATE\<close> and \<open>O_APPEND\<close>.\<close>

definition open_append :: "io_fails \<Rightarrow> string \<Rightarrow> files \<Rightarrow> files option" where
  "open_append fails path files =
     (if fails Open path then None
      else Some (if mget files path = None then mput path [] files else files))"

text \<open>\<open>os.WriteFile\<close>: create or truncate, then write.\<close>

definition WriteFile :: "io_fails \<Rightarrow> string \<Rightarrow> string \<Rightarrow> files \<Rightarrow> files \<times> bool" where
  "WriteFile fails path content files =
     (if fails Open path then (files, False)
      else if fails Write path then (mput path [] files, False)
      else (mput path content files, True))"

text \<open>
  \<open>bufio.Scanner\<close>: the lines of the file, up to the first one that does not fit its buffer of
  64 KiB, and whether there was one. An empty last line is no line.
\<close>

fun scan_lines :: "string list \<Rightarrow> string list \<times> bool" where
  "scan_lines [] = ([], False)"
| "scan_lines [l] = (if 65536 \<le> length l then ([], True) else if l = [] then ([], False) else ([l], False))"
| "scan_lines (l # ls) =
     (if 65536 \<le> length l then ([], True)
      else case scan_lines ls of (ts, tooLong) \<Rightarrow> (l # ts, tooLong))"

text \<open>The file name of an entry line.\<close>

definition manifest_line :: "string \<Rightarrow> string option" where
  "manifest_line text_line =
     (let line = TrimSpace text_line
      in if line = [] then None
         else (case Fields line of
                 p0 # p1 # p2 # p3 # p4 # p5 # others \<Rightarrow>
                   if p0 = ''file'' \<and> p2 = ''seq'' \<and> p4 = ''type'' then Some p1 else None
               | _ \<Rightarrow> None))"

fun first_entry :: "string list \<Rightarrow> string option" where
  "first_entry [] = None"
| "first_entry (l # ls) = (case manifest_line l of Some f \<Rightarrow> Some f | None \<Rightarrow> first_entry ls)"

definition readAOFFilePathFromManifest ::
  "io_fails \<Rightarrow> ServerConfig \<Rightarrow> files \<Rightarrow> aof_err + string" where
  "readAOFFilePathFromManifest fails config files =
     (if appendfilename config = [] then Inl NoFilename
      else
        let path = manifest_path config
        in (case (if fails Open path then None else mget files path) of
              None \<Rightarrow> Inl OpenFailed
            | Some content \<Rightarrow>
                (case scan_lines (split_on LF content) of
                   (ls, tooLong) \<Rightarrow>
                     (case first_entry ls of
                        Some filename \<Rightarrow> Inr (Join [dir config, appenddirname config, filename])
                      | None \<Rightarrow> Inl (if tooLong then LineTooLong else NoActiveFile)))))"

text \<open>\<open>fmt.Sprintf("file %s seq 1 type i\n", filepath.Base(aofFilePath))\<close>.\<close>

definition manifest_content :: "string \<Rightarrow> string" where
  "manifest_content aofFilePath = ''file '' @ Base aofFilePath @ '' seq 1 type i'' @ [LF]"

definition ensureAOFManifest ::
  "io_fails \<Rightarrow> ServerConfig \<Rightarrow> string \<Rightarrow> files \<Rightarrow> files \<times> (aof_err + string)" where
  "ensureAOFManifest fails config aofFilePath files =
     (if appendfilename config = [] then (files, Inl NoFilename)
      else
        let path = Join [Dir aofFilePath, appendfilename config @ ''.manifest''];
            (files', ok) = WriteFile fails path (manifest_content aofFilePath) files
        in (files', if ok then Inr path else Inl WriteFailed))"

definition ensureAOFDirectory :: "io_fails \<Rightarrow> ServerConfig \<Rightarrow> aof_err + string" where
  "ensureAOFDirectory fails config =
     (let path = Join [dir config, appenddirname config]
      in if fails Mkdir path then Inl MkdirFailed else Inr path)"

definition ensureAOFFilePath :: "io_fails \<Rightarrow> ServerConfig \<Rightarrow> aof_err + string" where
  "ensureAOFFilePath fails config =
     (if appendfilename config = [] then Inl NoFilename
      else (case ensureAOFDirectory fails config of
              Inl e \<Rightarrow> Inl e
            | Inr aofDirPath \<Rightarrow>
                let path = Join [aofDirPath, appendfilename config @ ''.1.incr.aof'']
                in if fails Mkdir (Dir path) then Inl MkdirFailed else Inr path))"

definition ensureAOFState ::
  "io_fails \<Rightarrow> ServerConfig \<Rightarrow> files \<Rightarrow> files \<times> (aof_err + string \<times> string)" where
  "ensureAOFState fails config files =
     (if appendfilename config = [] then (files, Inl NoFilename)
      else (case ensureAOFDirectory fails config of
              Inl e \<Rightarrow> (files, Inl e)
            | Inr _ \<Rightarrow>
                let manifestPath = manifest_path config
                in if fails Stat manifestPath then (files, Inl StatFailed)
                   else if mget files manifestPath \<noteq> None then
                     (case readAOFFilePathFromManifest fails config files of
                        Inl e \<Rightarrow> (files, Inl e)
                      | Inr aofFilePath \<Rightarrow>
                          if fails Stat aofFilePath then (files, Inl StatFailed)
                          else if mget files aofFilePath = None then
                            (case open_append fails aofFilePath files of
                               None \<Rightarrow> (files, Inl OpenFailed)
                             | Some files' \<Rightarrow> (files', Inr (aofFilePath, manifestPath)))
                          else (files, Inr (aofFilePath, manifestPath)))
                   else
                     let aofFilePath =
                           Join [dir config, appenddirname config, appendfilename config @ ''.1.incr.aof'']
                     in (case open_append fails aofFilePath files of
                           None \<Rightarrow> (files, Inl OpenFailed)
                         | Some files1 \<Rightarrow>
                             (case ensureAOFManifest fails config aofFilePath files1 of
                                (files2, Inl e) \<Rightarrow> (files2, Inl e)
                              | (files2, Inr _) \<Rightarrow> (files2, Inr (aofFilePath, manifestPath))))))"

section \<open>Appending\<close>

definition appendRESPCommandToAOF ::
  "io_fails \<Rightarrow> ServerConfig \<Rightarrow> resp list \<Rightarrow> files \<Rightarrow> files \<times> aof_err option" where
  "appendRESPCommandToAOF fails config arr files =
     (case readAOFFilePathFromManifest fails config files of
        Inl e \<Rightarrow> (files, Some e)
      | Inr aofFilePath \<Rightarrow>
          (case open_append fails aofFilePath files of
             None \<Rightarrow> (files, Some OpenFailed)
           | Some files1 \<Rightarrow>
               if fails Write aofFilePath then (files1, Some WriteFailed)
               else
                 let old = (case mget files1 aofFilePath of None \<Rightarrow> [] | Some c \<Rightarrow> c);
                     files2 = mput aofFilePath (old @ encodeRESPArray arr) files1
                 in if appendfsync config = ''always'' \<and> fails Sync aofFilePath
                    then (files2, Some SyncFailed)
                    else (files2, None)))"

end
