(* ===== verification/AofFacts.thy ===== *)
theory AofFacts
  imports Aof
begin

text \<open>
  The append-only file keeps what it is given: the manifest names the file it was written for,
  the file holds exactly the encodings of the commands appended to it. The locale
  \<open>append_log\<close> is the contract of a log: what an append adds to its contents and that it touches
  nothing else; its interpretation \<open>aof\<close> is the file of the server.
\<close>

section \<open>Absolute paths of plain names\<close>

definition abs_path :: "string list \<Rightarrow> string" where
  "abs_path es = concat (map (\<lambda>e. slash # e) es)"

lemma split_abs_path:
  "slash \<notin> set e \<Longrightarrow> \<forall>x \<in> set es. slash \<notin> set x \<Longrightarrow> split_on slash (e @ abs_path es) = e # es"
proof (induction es arbitrary: e)
  case Nil
  then show ?case by (simp add: abs_path_def split_on_plain)
next
  case (Cons x es)
  then show ?case
    using split_on_append [of slash e "x @ abs_path es"] by (simp add: abs_path_def)
qed

lemma join_abs_path: "es \<noteq> [] \<Longrightarrow> slash # join_with slash es = abs_path es"
  by (induction slash es rule: join_with.induct) (simp_all add: abs_path_def)

lemma foldl_clean_plain: "list_all plain_name es \<Longrightarrow> foldl (clean_step r) st es = rev es @ st"
  by (induction es arbitrary: st) (simp_all del: clean_step.simps)

lemma plain_name_slash: "list_all plain_name es \<Longrightarrow> \<forall>x \<in> set es. slash \<notin> set x"
  by (auto simp: list_all_iff plain_name_def)

lemma split_abs_path_only:
  "list_all plain_name es \<Longrightarrow> es \<noteq> [] \<Longrightarrow> split_on slash (abs_path es) = [] # es"
  using split_abs_path [of "hd es" "tl es"] plain_name_slash [of es]
  by (cases es) (simp_all add: abs_path_def)

lemma Clean_abs_path: "list_all plain_name es \<Longrightarrow> es \<noteq> [] \<Longrightarrow> Clean (abs_path es) = abs_path es"
proof -
  assume es: "list_all plain_name es" "es \<noteq> []"
  then have r: "rooted_path (abs_path es)" by (cases es) (simp_all add: abs_path_def)
  have "split_on slash (abs_path es) = [] # es" by (rule split_abs_path_only [OF es])
  then have "clean_stack (abs_path es) = rev es"
    using es by (simp add: clean_stack_def foldl_clean_plain)
  with r es join_abs_path [of es] show ?thesis by (simp add: Clean_stack)
qed

lemma Join_abs_path:
  "list_all plain_name (es @ fs) \<Longrightarrow> es \<noteq> [] \<Longrightarrow> Join (abs_path es # fs) = abs_path (es @ fs)"
proof -
  assume a: "list_all plain_name (es @ fs)" "es \<noteq> []"
  then have ne: "abs_path es \<noteq> []" by (cases es) (simp_all add: abs_path_def)
  have "join_with slash (p # fs) = p @ abs_path fs" for p
    by (induction fs arbitrary: p) (simp_all add: abs_path_def)
  then have "join_with slash (abs_path es # fs) = abs_path (es @ fs)"
    by (simp add: abs_path_def)
  with a ne Clean_abs_path [of "es @ fs"] show ?thesis by (simp add: Join_def)
qed

lemma abs_path_snoc: "abs_path (es @ [e]) = abs_path es @ slash # e"
  by (simp add: abs_path_def)

lemma Base_abs_path: "plain_name e \<Longrightarrow> Base (abs_path (es @ [e])) = e"
  by (simp add: abs_path_snoc Base_snoc)

lemma Dir_abs_path:
  "list_all plain_name (es @ [e]) \<Longrightarrow> es \<noteq> [] \<Longrightarrow> Dir (abs_path (es @ [e])) = abs_path es"
proof -
  assume a: "list_all plain_name (es @ [e])" "es \<noteq> []"
  have "dropWhile (\<lambda>c. c \<noteq> slash) (rev (abs_path es @ slash # e)) = slash # rev (abs_path es)"
    using a by (auto simp: plain_name_def dropWhile_append)
  then have d: "Dir (abs_path (es @ [e])) = Clean (abs_path es @ [slash])"
    by (simp add: Dir_def abs_path_snoc)
  have "rooted_path (abs_path es)" using a by (cases es) (simp_all add: abs_path_def)
  have "split_on slash (abs_path es @ [slash]) = ([] # es) @ [[]]"
    using a split_on_snoc [of slash "abs_path es" "[]"] split_abs_path_only [of es] by simp
  then have "clean_stack (abs_path es @ [slash]) = rev es"
    using a by (simp add: clean_stack_def foldl_clean_plain)
  moreover have "rooted_path (abs_path es @ [slash])"
    using \<open>rooted_path (abs_path es)\<close> by (cases "abs_path es") simp_all
  ultimately show ?thesis
    using a(2) join_abs_path [of es] by (simp add: d Clean_stack)
qed

section \<open>The manifest names its file\<close>

lemma manifest_line_entry:
  "plain_word f \<Longrightarrow> manifest_line (''file '' @ f @ '' seq 1 type i'') = Some f"
proof -
  assume f: "plain_word f"
  have w: "plain_word ''file''" "plain_word ''seq''" "plain_word ''1''" "plain_word ''type''" "plain_word ''i''"
    by (simp_all add: plain_word_def plain_char_def)
  let ?l = "''file'' @ '' '' @ f @ '' '' @ ''seq'' @ '' '' @ ''1'' @ '' '' @ ''type'' @ '' '' @ ''i''"
  have "TrimSpace (''file'' @ ('' '' @ f @ '' seq 1 type '') @ ''i'') =
      ''file'' @ ('' '' @ f @ '' seq 1 type '') @ ''i''"
    by (rule TrimSpace_words(1) [OF w(1,5)])
  then have t: "TrimSpace (''file '' @ f @ '' seq 1 type i'') = ?l" by simp
  have fl: "Fields ?l = [''file'', f, ''seq'', ''1'', ''type'', ''i'']"
    using Fields_word(1) [OF w(1), of "f @ '' seq 1 type i''"] Fields_word(1) [OF f, of "''seq 1 type i''"]
      Fields_word(1) [OF w(2), of "''1 type i''"] Fields_word(1) [OF w(3), of "''type i''"]
      Fields_word(1) [OF w(4), of "''i''"] Fields_word(2) [OF w(5)]
    by simp
  show ?thesis unfolding manifest_line_def Let_def t fl by simp
qed

lemma first_manifest_entry:
  assumes "plain_word f" and "length f < 65000"
  shows "case scan_lines (split_on LF (''file '' @ f @ '' seq 1 type i'' @ [LF])) of
    (ls, tooLong) \<Rightarrow> first_entry ls = Some f"
proof -
  let ?l = "''file '' @ f @ '' seq 1 type i''"
  have "LF \<notin> set f" using assms(1) by (auto simp: plain_word_def list_all_iff plain_char_def LF_def)
  then have "LF \<notin> set ?l" by (simp add: LF_def)
  from split_on_append [OF this, of "[]"] have "split_on LF (?l @ [LF]) = [?l, []]" by simp
  with assms(2) manifest_line_entry [OF assms(1)] show ?thesis by simp
qed

text \<open>A configuration with an absolute directory and names without separators or white space.\<close>

definition plain_config :: "ServerConfig \<Rightarrow> string list \<Rightarrow> bool" where
  "plain_config config es \<longleftrightarrow>
     es \<noteq> [] \<and> list_all plain_name es \<and> dir config = abs_path es \<and> plain_name (appenddirname config) \<and>
     plain_word (appendfilename config) \<and> slash \<notin> set (appendfilename config) \<and>
     length (appendfilename config) < 60000"

definition aof_name :: "ServerConfig \<Rightarrow> string" where
  "aof_name config = appendfilename config @ ''.1.incr.aof''"

lemma plain_config_names:
  assumes "plain_config config es"
  shows "plain_name (aof_name config)" "plain_name (appendfilename config @ ''.manifest'')"
    "plain_word (aof_name config)" "length (aof_name config) < 65000"
  using assms by (auto simp: plain_config_def plain_name_def plain_word_def aof_name_def slash_def
      plain_char_def append_eq_Cons_conv)

lemma plain_config_paths:
  assumes "plain_config config es"
  shows "manifest_path config = abs_path (es @ [appenddirname config, appendfilename config @ ''.manifest''])"
    and "Join [dir config, appenddirname config, aof_name config] =
      abs_path (es @ [appenddirname config, aof_name config])"
  using assms plain_config_names [OF assms] Join_abs_path [of es]
  by (simp_all add: plain_config_def manifest_path_def)

lemma paths_differ:
  assumes "plain_config config es"
  shows "abs_path (es @ [appenddirname config, aof_name config]) \<noteq> manifest_path config"
proof
  assume "abs_path (es @ [appenddirname config, aof_name config]) = manifest_path config"
  then have "Base (abs_path ((es @ [appenddirname config]) @ [aof_name config])) =
      Base (abs_path ((es @ [appenddirname config]) @ [appendfilename config @ ''.manifest'']))"
    using plain_config_paths(1) [OF assms] by simp
  then show False
    using plain_config_names [OF assms] by (simp only: Base_abs_path) (simp add: aof_name_def)
qed

definition content_at :: "string \<Rightarrow> files \<Rightarrow> string" where
  "content_at p files = (case mget files p of None \<Rightarrow> [] | Some c \<Rightarrow> c)"

text \<open>On a file system without failures and without the manifest, both files are made.\<close>

definition fresh_files :: "ServerConfig \<Rightarrow> string \<Rightarrow> files \<Rightarrow> files" where
  "fresh_files config p files =
     mput (manifest_path config) (manifest_content p)
       (if mget files p = None then mput p [] files else files)"

lemma mget_fresh_files:
  "mget (fresh_files config p files) =
     (mget files)(p \<mapsto> content_at p files, manifest_path config \<mapsto> manifest_content p)"
  by (cases "mget files p") (auto simp: fresh_files_def fun_eq_iff content_at_def)

lemma ensureAOFState_fresh:
  assumes "appendfilename config \<noteq> []" and ok: "fails = (\<lambda>io q. False)"
    and "mget files (manifest_path config) = None"
    and p: "p = Join [dir config, appenddirname config, appendfilename config @ ''.1.incr.aof'']"
    and m: "manifest_path config = Join [Dir p, appendfilename config @ ''.manifest'']"
  shows "ensureAOFState fails config files = (fresh_files config p files, Inr (p, manifest_path config))"
proof -
  let ?files1 = "if mget files p = None then mput p [] files else files"
  have "open_append fails p files = Some ?files1" by (simp add: open_append_def ok)
  moreover have "ensureAOFManifest fails config p ?files1 =
      (fresh_files config p files, Inr (manifest_path config))"
    unfolding ensureAOFManifest_def WriteFile_def Let_def m [symmetric] ok fresh_files_def
    using assms(1) by (simp only: if_False prod.case if_True)
  ultimately show ?thesis
    unfolding ensureAOFState_def ensureAOFDirectory_def Let_def p [symmetric] ok
    using assms(1,3) by (simp only: if_False if_True sum.case option.case prod.case simp_thms)
qed

lemma fresh_state:
  assumes pc: "plain_config config es" and ok: "fails = (\<lambda>io q. False)"
    and fresh: "mget files (manifest_path config) = None"
    and p: "p = abs_path (es @ [appenddirname config, aof_name config])"
  shows "ensureAOFState fails config files = (fresh_files config p files, Inr (p, manifest_path config))"
proof -
  note names = plain_config_names [OF pc]
  have ne: "appendfilename config \<noteq> []" using pc by (auto simp: plain_config_def plain_word_def)
  have d: "Dir p = abs_path (es @ [appenddirname config])"
    using pc names Dir_abs_path [of "es @ [appenddirname config]" "aof_name config"]
    by (simp add: p plain_config_def)
  have m: "manifest_path config = Join [Dir p, appendfilename config @ ''.manifest'']"
    using pc names Join_abs_path [of "es @ [appenddirname config]" "[appendfilename config @ ''.manifest'']"]
    by (simp add: d plain_config_paths(1) [OF pc] plain_config_def)
  have j: "p = Join [dir config, appenddirname config, appendfilename config @ ''.1.incr.aof'']"
    using plain_config_paths(2) [OF pc] by (simp add: aof_name_def p)
  show ?thesis by (rule ensureAOFState_fresh [OF ne ok fresh j m])
qed

lemma read_manifest:
  assumes pc: "plain_config config es" and ok: "fails = (\<lambda>io q. False)"
    and p: "p = abs_path (es @ [appenddirname config, aof_name config])"
    and c: "mget files (manifest_path config) = Some (manifest_content p)"
  shows "readAOFFilePathFromManifest fails config files = Inr p"
proof -
  note names = plain_config_names [OF pc]
  have ne: "appendfilename config \<noteq> []" using pc by (auto simp: plain_config_def plain_word_def)
  have "Base p = aof_name config"
    using names Base_abs_path [of "aof_name config" "es @ [appenddirname config]"] by (simp add: p)
  then have content: "manifest_content p = ''file '' @ aof_name config @ '' seq 1 type i'' @ [LF]"
    by (simp add: manifest_content_def)
  obtain ls tooLong where scan: "scan_lines (split_on LF (manifest_content p)) = (ls, tooLong)"
    and entry: "first_entry ls = Some (aof_name config)"
    using first_manifest_entry [OF names(3,4)] unfolding content
    by (cases "scan_lines (split_on LF (''file '' @ aof_name config @ '' seq 1 type i'' @ [LF]))")
      (simp only: prod.case)
  show ?thesis
    unfolding readAOFFilePathFromManifest_def Let_def ok if_False c option.case scan prod.case entry
    using ne plain_config_paths(2) [OF pc] p by simp
qed

section \<open>Appending\<close>

locale append_log =
  fixes content :: "'s \<Rightarrow> string"
    and others :: "'s \<Rightarrow> 'o"
    and append :: "'m \<Rightarrow> 's \<Rightarrow> 's"
    and enc :: "'m \<Rightarrow> string"
    and usable :: "'s \<Rightarrow> bool"
  assumes content_append: "usable s \<Longrightarrow> content (append m s) = content s @ enc m"
    and others_append: "usable s \<Longrightarrow> others (append m s) = others s"
    and usable_append: "usable s \<Longrightarrow> usable (append m s)"
begin

lemma log_fold:
  "usable s \<Longrightarrow> content (fold append ms s) = content s @ concat (map enc ms) \<and>
     others (fold append ms s) = others s \<and> usable (fold append ms s)"
  by (induction ms arbitrary: s) (simp_all add: content_append others_append usable_append)

end

text \<open>The file system is usable when the manifest leads to \<open>p\<close> and nothing fails.\<close>

definition aof_usable :: "io_fails \<Rightarrow> ServerConfig \<Rightarrow> string \<Rightarrow> files \<Rightarrow> bool" where
  "aof_usable fails config p files \<longleftrightarrow>
     readAOFFilePathFromManifest fails config files = Inr p \<and> p \<noteq> manifest_path config \<and>
     \<not> fails Open p \<and> \<not> fails Write p \<and> \<not> fails Sync p"

lemma readAOF_cong:
  "mget files' (manifest_path config) = mget files (manifest_path config) \<Longrightarrow>
     readAOFFilePathFromManifest fails config files' = readAOFFilePathFromManifest fails config files"
  by (simp add: readAOFFilePathFromManifest_def Let_def)

lemma append_ok:
  assumes "aof_usable fails config p files"
  shows "snd (appendRESPCommandToAOF fails config arr files) = None"
    and "mget (fst (appendRESPCommandToAOF fails config arr files)) =
      (mget files)(p \<mapsto> content_at p files @ encodeRESPArray arr)"
  using assms
  by (auto simp: aof_usable_def appendRESPCommandToAOF_def open_append_def content_at_def Let_def
      fun_eq_iff split: option.split)

interpretation aof: append_log "content_at p" "\<lambda>files. (mget files)(p := None)"
    "\<lambda>arr files. fst (appendRESPCommandToAOF fails config arr files)" encodeRESPArray
    "aof_usable fails config p" for p fails config
proof unfold_locales
  fix s m
  assume u: "aof_usable fails config p s"
  let ?t = "fst (appendRESPCommandToAOF fails config m s)"
  show "content_at p ?t = content_at p s @ encodeRESPArray m"
    and "(mget ?t)(p := None) = (mget s)(p := None)"
    using append_ok(2) [OF u, of m] by (simp_all add: content_at_def)
  have "mget ?t (manifest_path config) = mget s (manifest_path config)"
    using append_ok(2) [OF u, of m] u by (auto simp: aof_usable_def)
  from readAOF_cong [OF this] u show "aof_usable fails config p ?t"
    by (simp add: aof_usable_def)
qed

section \<open>Properties\<close>


definition data_config :: ServerConfig where
  "data_config = (default_config ''/data'')\<lparr>appendonly := ''yes''\<rparr>"

lemma data_config_plain: "plain_config data_config [''data'']"
  by (simp add: plain_config_def data_config_def default_config_def abs_path_def plain_name_def
      plain_word_def slash_def plain_char_def)


end
