(* ===== verification/Rdb.thy ===== *)
theory Rdb
  imports Storage
begin

text \<open>
  The snapshot file (\<open>app/rdb.go\<close>): length and string encodings, the loop over the opcodes, and
  loading a file at start-up. As in the other parsers the reader is the list of bytes to come.
\<close>

datatype rdb_err = RdbEOF | RdbUnexpectedEOF | BadEncoding nat

definition byte_at :: "char \<Rightarrow> nat" where
  "byte_at c = of_char c"

definition readByte :: "string \<Rightarrow> rdb_err + nat \<times> string" where
  "readByte inp = (case inp of [] \<Rightarrow> Inl RdbEOF | c # rest \<Rightarrow> Inr (byte_at c, rest))"

text \<open>\<open>io.ReadFull\<close> into a buffer of \<open>n\<close> bytes.\<close>

definition ReadFull :: "nat \<Rightarrow> string \<Rightarrow> rdb_err + string \<times> string" where
  "ReadFull n inp =
     (if n \<le> length inp then Inr (take n inp, drop n inp)
      else Inl (if inp = [] then RdbEOF else RdbUnexpectedEOF))"

definition big_endian :: "string \<Rightarrow> nat" where
  "big_endian bs = foldl (\<lambda>v c. v * 256 + byte_at c) 0 bs"

definition little_endian :: "string \<Rightarrow> nat" where
  "little_endian bs = big_endian (rev bs)"

text \<open>The two's complement reading of an unsigned number of \<open>w\<close> bits.\<close>

definition twos :: "nat \<Rightarrow> nat \<Rightarrow> int" where
  "twos w v = (if v < 2 ^ (w - 1) then int v else int v - 2 ^ w)"

definition readLength :: "string \<Rightarrow> rdb_err + (nat \<times> bool) \<times> string" where
  "readLength inp =
     (case readByte inp of
        Inl e \<Rightarrow> Inl e
      | Inr (b, rest) \<Rightarrow>
          let enc = b div 64; low = b mod 64
          in if enc = 0 then Inr ((low, False), rest)
             else if enc = 1 then
               (case readByte rest of
                  Inl e \<Rightarrow> Inl e
                | Inr (nextB, rest') \<Rightarrow> Inr ((low * 256 + nextB, False), rest'))
             else if enc = 2 then
               (case ReadFull 4 rest of
                  Inl e \<Rightarrow> Inl e
                | Inr (bs, rest') \<Rightarrow> Inr ((big_endian bs, False), rest'))
             else Inr ((low, True), rest))"

definition readString :: "string \<Rightarrow> rdb_err + string \<times> string" where
  "readString inp =
     (case readLength inp of
        Inl e \<Rightarrow> Inl e
      | Inr ((len, isSpecial), rest) \<Rightarrow>
          if isSpecial then
            (if len = 0 then
               (case readByte rest of
                  Inl e \<Rightarrow> Inl e
                | Inr (b, rest') \<Rightarrow> Inr (Itoa (twos 8 b), rest'))
             else if len = 1 then
               (case ReadFull 2 rest of
                  Inl e \<Rightarrow> Inl e
                | Inr (bs, rest') \<Rightarrow> Inr (Itoa (twos 16 (little_endian bs)), rest'))
             else if len = 2 then
               (case ReadFull 4 rest of
                  Inl e \<Rightarrow> Inl e
                | Inr (bs, rest') \<Rightarrow> Inr (Itoa (twos 32 (little_endian bs)), rest'))
             else Inl (BadEncoding len))
          else ReadFull len rest)"

text \<open>A key and its value, the body of every entry.\<close>

definition read_pair :: "string \<Rightarrow> rdb_err + (string \<times> string) \<times> string" where
  "read_pair inp =
     (case readString inp of
        Inl e \<Rightarrow> Inl e
      | Inr (key, rest) \<Rightarrow>
          (case readString rest of
             Inl e \<Rightarrow> Inl e
           | Inr (val, rest') \<Rightarrow> Inr ((key, val), rest')))"

text \<open>An entry with an expiry: the time of \<open>n\<close> bytes, the value type, which is skipped, the pair.\<close>

definition read_expiring :: "nat \<Rightarrow> string \<Rightarrow> rdb_err + (nat \<times> string \<times> string) \<times> string" where
  "read_expiring n inp =
     (case ReadFull n inp of
        Inl e \<Rightarrow> Inl e
      | Inr (buf, rest) \<Rightarrow>
          (case readByte rest of
             Inl e \<Rightarrow> Inl e
           | Inr (vtype, rest') \<Rightarrow>
               (case read_pair rest' of
                  Inl e \<Rightarrow> Inl e
                | Inr ((key, val), rest'') \<Rightarrow> Inr ((little_endian buf, key, val), rest''))))"

type_synonym rdb_data = "(string, cached) gomap \<times> (string, int) gomap"

text \<open>
  The loop. Its fuel is the number of bytes left: every iteration consumes the opcode. The end
  of the input in front of an opcode ends the loop as the end marker does. Times become
  nanoseconds.
\<close>

fun parse_loop :: "nat \<Rightarrow> string \<Rightarrow> rdb_data \<Rightarrow> rdb_err + rdb_data" where
  "parse_loop 0 inp d = Inr d"
| "parse_loop (Suc fuel) inp (st, ex) =
     (case readByte inp of
        Inl RdbEOF \<Rightarrow> Inr (st, ex)
      | Inl e \<Rightarrow> Inl e
      | Inr (b, rest) \<Rightarrow>
          if b = 0xFA then
            (case read_pair rest of Inl e \<Rightarrow> Inl e | Inr (_, rest') \<Rightarrow> parse_loop fuel rest' (st, ex))
          else if b = 0xFE then
            (case readLength rest of Inl e \<Rightarrow> Inl e | Inr (_, rest') \<Rightarrow> parse_loop fuel rest' (st, ex))
          else if b = 0xFB then
            (case readLength rest of
               Inl e \<Rightarrow> Inl e
             | Inr (_, rest') \<Rightarrow>
                 (case readLength rest' of
                    Inl e \<Rightarrow> Inl e
                  | Inr (_, rest'') \<Rightarrow> parse_loop fuel rest'' (st, ex)))
          else if b = 0xFC then
            (case read_expiring 8 rest of
               Inl e \<Rightarrow> Inl e
             | Inr ((t, key, val), rest') \<Rightarrow>
                 parse_loop fuel rest' (mput key (VStr val) st, mput key (twos 64 t * 1000000) ex))
          else if b = 0xFD then
            (case read_expiring 4 rest of
               Inl e \<Rightarrow> Inl e
             | Inr ((t, key, val), rest') \<Rightarrow>
                 parse_loop fuel rest' (mput key (VStr val) st, mput key (int t * 1000000000) ex))
          else if b = 0xFF then Inr (st, ex)
          else
            (case read_pair rest of
               Inl e \<Rightarrow> Inl e
             | Inr ((key, val), rest') \<Rightarrow> parse_loop fuel rest' (mput key (VStr val) st, ex)))"

definition Parse :: "string \<Rightarrow> rdb_err + rdb_data" where
  "Parse inp =
     (case ReadFull 9 inp of
        Inl e \<Rightarrow> Inl e
      | Inr (header, rest) \<Rightarrow> parse_loop (length rest) rest ([], []))"

text \<open>A file that is missing or malformed loads as an empty database.\<close>

definition LoadRDB :: "string option \<Rightarrow> rdb_data" where
  "LoadRDB file =
     (case file of
        None \<Rightarrow> ([], [])
      | Some content \<Rightarrow> (case Parse content of Inl e \<Rightarrow> ([], []) | Inr d \<Rightarrow> d))"

end
