(* ===== verification/RdbFacts.thy ===== *)
theory RdbFacts
  imports Rdb
begin

text \<open>
  The snapshot format as its writer sees it, and the proof that the parser inverts it: the
  encodings of lengths and strings, the entries, the whole file.
\<close>

section \<open>The format\<close>

fun be_bytes :: "nat \<Rightarrow> nat \<Rightarrow> string" where
  "be_bytes 0 n = []"
| "be_bytes (Suc k) n = be_bytes k (n div 256) @ [char_of n]"

definition byte :: "nat \<Rightarrow> char" where "byte n = char_of n"

definition rdb_len :: "nat \<Rightarrow> string" where
  "rdb_len n =
     (if n < 64 then [byte n]
      else if n < 16384 then [byte (64 + n div 256), byte n]
      else byte 128 # be_bytes 4 n)"

definition rdb_str :: "string \<Rightarrow> string" where
  "rdb_str s = rdb_len (length s) @ s"

datatype rdb_entry =
    Aux string string
  | SelectDB nat
  | ResizeDB nat nat
  | Plain nat string string
  | ExpireMs nat nat string string
  | ExpireSec nat nat string string

fun rdb_enc :: "rdb_entry \<Rightarrow> string" where
  "rdb_enc (Aux k v) = byte 0xFA # rdb_str k @ rdb_str v"
| "rdb_enc (SelectDB n) = byte 0xFE # rdb_len n"
| "rdb_enc (ResizeDB a b) = byte 0xFB # rdb_len a @ rdb_len b"
| "rdb_enc (Plain vt k v) = byte vt # rdb_str k @ rdb_str v"
| "rdb_enc (ExpireMs t vt k v) = byte 0xFC # rev (be_bytes 8 t) @ byte vt # rdb_str k @ rdb_str v"
| "rdb_enc (ExpireSec t vt k v) = byte 0xFD # rev (be_bytes 4 t) @ byte vt # rdb_str k @ rdb_str v"

text \<open>What an entry means: the pair it stores, and its deadline in nanoseconds.\<close>

fun rdb_apply :: "rdb_entry \<Rightarrow> rdb_data \<Rightarrow> rdb_data" where
  "rdb_apply (Aux k v) d = d"
| "rdb_apply (SelectDB n) d = d"
| "rdb_apply (ResizeDB a b) d = d"
| "rdb_apply (Plain vt k v) (st, ex) = (mput k (VStr v) st, ex)"
| "rdb_apply (ExpireMs t vt k v) (st, ex) = (mput k (VStr v) st, mput k (int t * 1000000) ex)"
| "rdb_apply (ExpireSec t vt k v) (st, ex) = (mput k (VStr v) st, mput k (int t * 1000000000) ex)"

definition fits32 :: "nat \<Rightarrow> bool" where "fits32 n \<longleftrightarrow> n < 2 ^ 32"

definition pair_ok :: "string \<Rightarrow> string \<Rightarrow> bool" where
  "pair_ok k v \<longleftrightarrow> fits32 (length k) \<and> fits32 (length v)"

fun rdb_ok :: "rdb_entry \<Rightarrow> bool" where
  "rdb_ok (Aux k v) = pair_ok k v"
| "rdb_ok (SelectDB n) = fits32 n"
| "rdb_ok (ResizeDB a b) = (fits32 a \<and> fits32 b)"
| "rdb_ok (Plain vt k v) = (vt < 0xFA \<and> pair_ok k v)"
| "rdb_ok (ExpireMs t vt k v) = (t < 2 ^ 63 \<and> vt < 256 \<and> pair_ok k v)"
| "rdb_ok (ExpireSec t vt k v) = (fits32 t \<and> vt < 256 \<and> pair_ok k v)"

section \<open>Bytes and lengths\<close>

lemma byte_at_byte [simp]: "byte_at (byte n) = n mod 256"
  by (simp add: byte_at_def byte_def)

lemma length_be_bytes [simp]: "length (be_bytes k n) = k"
  by (induction k arbitrary: n) auto

lemma big_endian_snoc: "big_endian (bs @ [c]) = big_endian bs * 256 + byte_at c"
  by (simp add: big_endian_def)

lemma big_endian_be_bytes: "n < 256 ^ k \<Longrightarrow> big_endian (be_bytes k n) = n"
proof (induction k arbitrary: n)
  case (Suc k)
  then have "n div 256 < 256 ^ k" by (simp add: less_mult_imp_div_less mult.commute)
  with Suc.IH show ?case by (simp add: big_endian_snoc byte_at_def)
qed (simp add: big_endian_def)

lemma little_endian_be_bytes: "n < 256 ^ k \<Longrightarrow> little_endian (rev (be_bytes k n)) = n"
  by (simp add: little_endian_def big_endian_be_bytes)

lemma readByte_byte [simp]: "readByte (byte n # s) = Inr (n mod 256, s)"
  by (simp add: readByte_def)

lemma ReadFull_append [simp]: "length bs = n \<Longrightarrow> ReadFull n (bs @ s) = Inr (bs, s)"
  by (simp add: ReadFull_def)

lemma readLength_rdb_len [simp]: "fits32 n \<Longrightarrow> readLength (rdb_len n @ s) = Inr ((n, False), s)"
proof -
  assume n: "fits32 n"
  consider "n < 64" | "64 \<le> n" "n < 16384" | "16384 \<le> n" by linarith
  then show ?thesis
  proof cases
    case 2
    have "n div 256 < 64" using 2 by (simp add: less_mult_imp_div_less)
    then have "(64 + n div 256) mod 256 = 64 + n div 256" by simp
    moreover have "(64 + n div 256) div 64 = 1" "(64 + n div 256) mod 64 = n div 256"
      using \<open>n div 256 < 64\<close> by simp_all
    moreover have "n div 256 * 256 + n mod 256 = n" by simp
    ultimately show ?thesis
      using 2 by (simp add: readLength_def rdb_len_def Let_def)
  next
    case 3
    have "big_endian (be_bytes 4 n) = n"
      using n by (intro big_endian_be_bytes) (simp add: fits32_def)
    with 3 show ?thesis
      by (simp add: readLength_def rdb_len_def Let_def del: be_bytes.simps)
  qed (simp add: readLength_def rdb_len_def Let_def)
qed

lemma readString_rdb_str [simp]: "fits32 (length v) \<Longrightarrow> readString (rdb_str v @ s) = Inr (v, s)"
  by (simp add: readString_def rdb_str_def)

lemma read_pair_rdb [simp]:
  "pair_ok k v \<Longrightarrow> read_pair (rdb_str k @ rdb_str v @ s) = Inr ((k, v), s)"
  by (simp add: read_pair_def pair_ok_def)

lemma read_expiring_rdb [simp]:
  "t < 256 ^ n \<Longrightarrow> pair_ok k v \<Longrightarrow>
     read_expiring n (rev (be_bytes n t) @ byte vt # rdb_str k @ rdb_str v @ s) = Inr ((t, k, v), s)"
  by (simp add: read_expiring_def little_endian_be_bytes)

text \<open>The integer encodings of a string.\<close>

lemma readString_int8: "readString (byte 0xC0 # byte b # s) = Inr (Itoa (twos 8 (b mod 256)), s)"
  by (simp add: readString_def readLength_def)

lemma readString_int16:
  "n < 2 ^ 16 \<Longrightarrow> readString (byte 0xC1 # rev (be_bytes 2 n) @ s) = Inr (Itoa (twos 16 n), s)"
  using little_endian_be_bytes [of n 2]
  by (simp add: readString_def readLength_def del: be_bytes.simps)

lemma readString_int32:
  "n < 2 ^ 32 \<Longrightarrow> readString (byte 0xC2 # rev (be_bytes 4 n) @ s) = Inr (Itoa (twos 32 n), s)"
  using little_endian_be_bytes [of n 4]
  by (simp add: readString_def readLength_def del: be_bytes.simps)

section \<open>The loop\<close>

lemma parse_loop_entry:
  "rdb_ok e \<Longrightarrow> parse_loop (Suc f) (rdb_enc e @ s) d = parse_loop f s (rdb_apply e d)"
proof (cases e)
  case (ExpireMs t vt k v)
  assume "rdb_ok e"
  then have "t < 256 ^ 8" "twos 64 t = int t" "pair_ok k v"
    using ExpireMs by (simp_all add: twos_def)
  then show ?thesis using ExpireMs by (cases d) (simp del: be_bytes.simps)
next
  case (ExpireSec t vt k v)
  assume "rdb_ok e"
  then have "t < 256 ^ 4" "pair_ok k v" using ExpireSec by (simp_all add: fits32_def)
  then show ?thesis using ExpireSec by (cases d) (simp del: be_bytes.simps)
qed (cases d; simp)+

lemma parse_loop_entries:
  "list_all rdb_ok es \<Longrightarrow>
     parse_loop (length es + f) (concat (map rdb_enc es) @ s) d = parse_loop f s (fold rdb_apply es d)"
  by (induction es arbitrary: d) (simp_all add: parse_loop_entry del: parse_loop.simps)

lemma enc_entry_not_Nil [simp]: "rdb_enc e \<noteq> []"
  by (cases e) auto

text \<open>The fuel: one step for each byte is enough, more does not change the result.\<close>

lemma read_shrinks:
  "readByte inp = Inr (b, r) \<Longrightarrow> length r < length inp"
  "ReadFull n inp = Inr (bs, r) \<Longrightarrow> length r \<le> length inp"
  by (auto simp: readByte_def ReadFull_def split: list.splits if_splits)

lemma readLength_shrinks: "readLength inp = Inr (p, r) \<Longrightarrow> length r \<le> length inp"
  by (auto simp: readLength_def Let_def dest!: read_shrinks split: sum.splits if_splits)

lemma readString_shrinks: "readString inp = Inr (v, r) \<Longrightarrow> length r \<le> length inp"
  by (auto simp: readString_def dest!: read_shrinks readLength_shrinks split: sum.splits if_splits)

lemma read_pair_shrinks: "read_pair inp = Inr (p, r) \<Longrightarrow> length r \<le> length inp"
  by (fastforce simp: read_pair_def dest!: readString_shrinks split: sum.splits)

lemma read_expiring_shrinks: "read_expiring n inp = Inr (p, r) \<Longrightarrow> length r \<le> length inp"
  by (fastforce simp: read_expiring_def dest!: read_shrinks read_pair_shrinks split: sum.splits)

lemma parse_loop_fuel:
  "length inp \<le> f \<Longrightarrow> length inp \<le> g \<Longrightarrow> parse_loop f inp d = parse_loop g inp d"
proof (induction f arbitrary: inp g d)
  case 0
  then show ?case by (cases g; cases d) (auto simp: readByte_def)
next
  case (Suc f)
  obtain st ex where d: "d = (st, ex)" by (cases d)
  show ?case
  proof (cases inp)
    case Nil
    then show ?thesis by (cases g) (simp_all add: d readByte_def)
  next
    case (Cons c rest)
    then obtain g' where g: "g = Suc g'" using Suc.prems by (cases g) auto
    have step: "parse_loop f r e = parse_loop g' r e" if "length r \<le> length rest" for r e
      using Suc.prems Cons g that by (intro Suc.IH) auto
    show ?thesis
      using Cons
      by (auto simp: d g readByte_def step read_pair_shrinks readLength_shrinks read_expiring_shrinks
          split: sum.split)
         (metis le_trans readLength_shrinks step)+
  qed
qed

lemma length_entries: "length es \<le> length (concat (map rdb_enc es))"
proof (induction es)
  case (Cons e es)
  have "0 < length (rdb_enc e)" by simp
  with Cons show ?case by (simp del: length_greater_0_conv)
qed simp

lemma Parse_file:
  assumes "length header = 9" and ok: "list_all rdb_ok es" and "tail = [] \<or> hd tail = byte 0xFF"
  shows "Parse (header @ concat (map rdb_enc es) @ tail) = Inr (fold rdb_apply es ([], []))"
proof -
  let ?body = "concat (map rdb_enc es) @ tail"
  have "parse_loop (length ?body) ?body ([], []) = parse_loop (length es + Suc (length ?body)) ?body ([], [])"
    by (rule parse_loop_fuel) simp_all
  also have "\<dots> = parse_loop (Suc (length ?body)) tail (fold rdb_apply es ([], []))"
    by (rule parse_loop_entries [OF ok])
  also have "\<dots> = Inr (fold rdb_apply es ([], []))"
    using assms(3) by (cases "fold rdb_apply es ([], [])"; cases tail)
      (auto simp: readByte_def byte_at_def byte_def)
  finally show ?thesis
    by (simp only: Parse_def ReadFull_append [OF assms(1)] sum.case prod.case)
qed

section \<open>Properties\<close>





end
