(* ===== verification/GoFloatText.thy ===== *)
theory GoFloatText
  imports GoFloat
begin

text \<open>
  What the server uses of Go's floating point beside comparison: correctly rounded arithmetic,
  \<open>strconv.ParseFloat\<close> and \<open>strconv.FormatFloat(x, 'f', p, 64)\<close>. Everything goes through one
  function, \<open>round_mag\<close>, that rounds an exact fraction to the nearest float, ties to even.
  Results that IEEE 754 leaves to the hardware (the payload of a NaN) are Go's canonical NaN.
\<close>

section \<open>Rounding\<close>

definition f_inf_mag :: nat where "f_inf_mag = 2047 * 2 ^ 52"

text \<open>The nearest integer to \<open>n / d\<close>, the even one on a tie.\<close>

definition round_even :: "nat \<Rightarrow> nat \<Rightarrow> nat" where
  "round_even n d =
     (let q = n div d; r = n mod d
      in if d < 2 * r \<or> (2 * r = d \<and> odd q) then q + 1 else q)"

fun bit_len :: "nat \<Rightarrow> nat" where
  "bit_len n = (if n = 0 then 0 else Suc (bit_len (n div 2)))"

declare bit_len.simps [simp del]

text \<open>
  The magnitude bits of the float nearest to \<open>n / d\<close>, for \<open>0 < d\<close>. In units of 2 to the -1074
  the value is \<open>n * 2 ^ 1074 / d\<close>; floats of exponent field \<open>k + 1\<close> are the multiples of
  \<open>2 ^ k\<close> there. A result from \<open>f_inf_mag\<close> on is an overflow.
\<close>

definition round_mag :: "nat \<Rightarrow> nat \<Rightarrow> nat" where
  "round_mag n d =
     (let units = n * 2 ^ 1074;
          k = bit_len (units div d) - 53
      in min f_inf_mag (k * 2 ^ 52 + round_even units (d * 2 ^ k)))"

definition f_make :: "bool \<Rightarrow> nat \<Rightarrow> float64" where
  "f_make neg m = (if neg then of_nat (2 ^ 63 + m) else of_nat m)"

definition f_NaN :: float64 where "f_NaN = 0x7FF8000000000001"

definition f_Inf :: "bool \<Rightarrow> float64" where "f_Inf neg = f_make neg f_inf_mag"

definition f_is_inf :: "float64 \<Rightarrow> bool" where "f_is_inf x \<longleftrightarrow> f_mag x = f_inf_mag"

text \<open>The float nearest to a signed fraction in units of 2 to the -1074.\<close>

definition f_round :: "bool \<Rightarrow> nat \<Rightarrow> nat \<Rightarrow> float64" where
  "f_round neg n d = f_make neg (round_mag n d)"

section \<open>Arithmetic\<close>

definition f_units :: "float64 \<Rightarrow> nat" where
  "f_units x = nat \<bar>f_scaled x\<bar>"

definition f_opp :: "float64 \<Rightarrow> float64" where
  "f_opp x = f_make (\<not> f_neg x) (f_mag x)"

definition f_add :: "float64 \<Rightarrow> float64 \<Rightarrow> float64" where
  "f_add x y =
     (if f_is_nan x \<or> f_is_nan y then f_NaN
      else if f_is_inf x then (if f_is_inf y \<and> f_neg x \<noteq> f_neg y then f_NaN else x)
      else if f_is_inf y then y
      else
        let v = f_scaled x + f_scaled y
        in if v = 0 then f_make (f_neg x \<and> f_neg y) 0
           else f_round (v < 0) (nat \<bar>v\<bar>) (2 ^ 1074))"

definition f_sub :: "float64 \<Rightarrow> float64 \<Rightarrow> float64" where
  "f_sub x y = (if f_is_nan y then f_NaN else f_add x (f_opp y))"

definition f_mul :: "float64 \<Rightarrow> float64 \<Rightarrow> float64" where
  "f_mul x y =
     (let neg = (f_neg x \<noteq> f_neg y)
      in if f_is_nan x \<or> f_is_nan y then f_NaN
         else if f_is_inf x \<or> f_is_inf y then
           (if f_mag x = 0 \<or> f_mag y = 0 then f_NaN else f_Inf neg)
         else f_round neg (f_units x * f_units y) (2 ^ 2148))"

definition f_div :: "float64 \<Rightarrow> float64 \<Rightarrow> float64" where
  "f_div x y =
     (let neg = (f_neg x \<noteq> f_neg y)
      in if f_is_nan x \<or> f_is_nan y then f_NaN
         else if f_is_inf x then (if f_is_inf y then f_NaN else f_Inf neg)
         else if f_is_inf y then f_make neg 0
         else if f_mag y = 0 then (if f_mag x = 0 then f_NaN else f_Inf neg)
         else f_round neg (f_units x) (f_units y))"

text \<open>\<open>float64(n)\<close> of an integer, and a decimal constant of the source.\<close>

definition f_of_int :: "int \<Rightarrow> float64" where
  "f_of_int n = f_round (n < 0) (nat \<bar>n\<bar>) 1"

definition f_const :: "int \<Rightarrow> nat \<Rightarrow> float64" where
  "f_const n d = f_round (n < 0) (nat \<bar>n\<bar>) d"

text \<open>Conversion to an integer truncates; out of the target's range Go leaves the value open.\<close>

definition f_trunc :: "float64 \<Rightarrow> int" where
  "f_trunc x = (if f_neg x then - int (f_units x div 2 ^ 1074) else int (f_units x div 2 ^ 1074))"

definition f_le :: "float64 \<Rightarrow> float64 \<Rightarrow> bool" where
  "f_le x y \<longleftrightarrow> f_less x y \<or> f_eq x y"

section \<open>\<open>strconv.ParseFloat\<close>\<close>

definition ascii_lower :: "char \<Rightarrow> char" where
  "ascii_lower c = (if CHR ''A'' \<le> c \<and> c \<le> CHR ''Z'' then set_bit5 True c else c)"

definition float_digit :: "nat \<Rightarrow> char \<Rightarrow> nat option" where
  "float_digit base c =
     (if is_digit c then Some (digit_val c)
      else if base = 16 \<and> CHR ''a'' \<le> ascii_lower c \<and> ascii_lower c \<le> CHR ''f''
        then Some (of_char (ascii_lower c) - 87)
      else None)"

text \<open>
  The loop of \<open>readFloat\<close> over the mantissa: the rest, the value of the digits, the number of
  digits behind the point, and the number of digits. The source stops accumulating after 19
  digits and reparses exactly when that could matter; the model keeps all digits.
\<close>

fun scan_mantissa :: "nat \<Rightarrow> string \<Rightarrow> bool \<Rightarrow> nat \<Rightarrow> nat \<Rightarrow> nat \<Rightarrow> string \<times> nat \<times> nat \<times> nat" where
  "scan_mantissa base [] dot m f n = ([], m, f, n)"
| "scan_mantissa base (c # s) dot m f n =
     (if c = CHR ''_'' then scan_mantissa base s dot m f n
      else if c = CHR ''.'' then
        (if dot then (c # s, m, f, n) else scan_mantissa base s True m f n)
      else (case float_digit base c of
              Some d \<Rightarrow> scan_mantissa base s dot (m * base + d) (if dot then f + 1 else f) (n + 1)
            | None \<Rightarrow> (c # s, m, f, n)))"

fun scan_exponent :: "string \<Rightarrow> nat \<Rightarrow> nat option" where
  "scan_exponent [] e = Some e"
| "scan_exponent (c # s) e =
     (if c = CHR ''_'' then scan_exponent s e
      else if is_digit c then
        scan_exponent s (if e < 10000 then e * 10 + digit_val c else e)
      else None)"

text \<open>The text after the exponent character: an optional sign, then at least one digit.\<close>

definition read_exponent :: "string \<Rightarrow> int option" where
  "read_exponent s =
     (let (neg, t) = (case s of c # s' \<Rightarrow> if c = CHR ''+'' then (False, s')
                        else if c = CHR ''-'' then (True, s') else (False, s)
                      | [] \<Rightarrow> (False, []))
      in case t of
           [] \<Rightarrow> None
         | c # _ \<Rightarrow> if is_digit c
             then map_option (\<lambda>e. if neg then - int e else int e) (scan_exponent t 0)
             else None)"

text \<open>\<open>underscoreOK\<close>: an underscore must stand between digits, the base prefix counting as one.\<close>

fun underscores_from :: "bool \<Rightarrow> char \<Rightarrow> string \<Rightarrow> bool" where
  "underscores_from hex saw [] = (saw \<noteq> CHR ''_'')"
| "underscores_from hex saw (c # s) =
     (if float_digit (if hex then 16 else 10) c \<noteq> None then underscores_from hex (CHR ''0'') s
      else if c = CHR ''_'' then saw = CHR ''0'' \<and> underscores_from hex (CHR ''_'') s
      else if saw = CHR ''_'' then False
      else underscores_from hex (CHR ''!'') s)"

definition drop_sign :: "string \<Rightarrow> bool \<times> string" where
  "drop_sign s =
     (case s of
        c # t \<Rightarrow> if c = CHR ''-'' then (True, t) else if c = CHR ''+'' then (False, t) else (False, s)
      | [] \<Rightarrow> (False, []))"

definition underscore_ok :: "string \<Rightarrow> bool" where
  "underscore_ok s =
     (case snd (drop_sign s) of
        c # d # t \<Rightarrow>
          if c = CHR ''0'' \<and> ascii_lower d \<in> {CHR ''b'', CHR ''o'', CHR ''x''}
          then underscores_from (ascii_lower d = CHR ''x'') (CHR ''0'') t
          else underscores_from False (CHR ''^'') (c # d # t)
      | t \<Rightarrow> underscores_from False (CHR ''^'') t)"

text \<open>\<open>m\<close> times \<open>b\<close> to the \<open>e\<close>, rounded; \<open>None\<close> is the range error.\<close>

definition scaled_float :: "bool \<Rightarrow> nat \<Rightarrow> nat \<Rightarrow> int \<Rightarrow> float64 option" where
  "scaled_float neg m b e =
     (let mag = (if 0 \<le> e then round_mag (m * b ^ nat e) 1 else round_mag m (b ^ nat (- e)))
      in if mag < f_inf_mag then Some (f_make neg mag) else None)"

definition special_float :: "string \<Rightarrow> float64 option" where
  "special_float s =
     (let (neg, t) = drop_sign s; l = map ascii_lower t
      in if l = ''inf'' \<or> l = ''infinity'' then Some (f_Inf neg)
         else if map ascii_lower s = ''nan'' then Some f_NaN
         else None)"

text \<open>\<open>None\<close> stands for any error, syntax or range: the callers do not tell them apart.\<close>

definition ParseFloat :: "string \<Rightarrow> float64 option" where
  "ParseFloat s =
     (case special_float s of
        Some x \<Rightarrow> Some x
      | None \<Rightarrow>
          let (neg, t) = drop_sign s;
              hex = (case t of c # d # _ # _ \<Rightarrow> c = CHR ''0'' \<and> ascii_lower d = CHR ''x'' | _ \<Rightarrow> False);
              base = (if hex then 16 else 10);
              (rest, m, f, n) = scan_mantissa base (if hex then drop 2 t else t) False 0 0 0
          in if n = 0 then None
             else
               (case (case rest of
                        [] \<Rightarrow> if hex then None else Some 0
                      | c # r \<Rightarrow> if ascii_lower c = (if hex then CHR ''p'' else CHR ''e'')
                          then read_exponent r else None) of
                  None \<Rightarrow> None
                | Some e \<Rightarrow>
                    if CHR ''_'' \<in> set s \<and> \<not> underscore_ok s then None
                    else if hex then scaled_float neg m 2 (e - 4 * int f)
                    else scaled_float neg m 10 (e - int f)))"

section \<open>\<open>strconv.FormatFloat\<close>\<close>

text \<open>The decimal exponent \<open>p\<close> with \<open>10 ^ (p - 1) \<le> x < 10 ^ p\<close>, of \<open>u\<close> units of 2 to the -1074.\<close>

definition dec_exp :: "nat \<Rightarrow> int" where
  "dec_exp u = int (length (nat_digits (u * 10 ^ 400 div 2 ^ 1074))) - 400"

text \<open>A digit string \<open>D\<close> and an exponent \<open>E\<close>: does \<open>D * 10 ^ E\<close> read back as the magnitude \<open>m\<close>?\<close>

definition reads_as :: "nat \<Rightarrow> nat \<Rightarrow> int \<Rightarrow> bool" where
  "reads_as m D E = (scaled_float False D 10 E = Some (f_make False m))"

text \<open>\<open>n\<close> digits of the value, cut off below.\<close>

definition dec_floor :: "nat \<Rightarrow> int \<Rightarrow> nat" where
  "dec_floor u E =
     (if 0 \<le> E then u div (2 ^ 1074 * 10 ^ nat E) else u * 10 ^ nat (- E) div 2 ^ 1074)"

text \<open>Is the cut-off value at least half a unit of the last digit below the exact one?\<close>

definition dec_up :: "nat \<Rightarrow> int \<Rightarrow> nat \<Rightarrow> bool" where
  "dec_up u E D =
     (if 0 \<le> E then (2 * D + 1) * 10 ^ nat E * 2 ^ 1074 \<le> 2 * u
      else (2 * D + 1) * 2 ^ 1074 \<le> 2 * u * 10 ^ nat (- E))"

text \<open>
  The shortest decimal that reads back, the nearest to the value among those of that length.
  Seventeen digits always suffice; the search is bounded by the 800 digits of an exact value.
\<close>

fun shortest_from :: "nat \<Rightarrow> nat \<Rightarrow> nat \<Rightarrow> int \<Rightarrow> nat \<times> int" where
  "shortest_from 0 m u E = (dec_floor u E, E)"
| "shortest_from (Suc fuel) m u E =
     (let D = dec_floor u E
      in if reads_as m D E \<and> \<not> (dec_up u E D \<and> reads_as m (D + 1) E) then (D, E)
         else if reads_as m (D + 1) E then (D + 1, E)
         else shortest_from fuel m u (E - 1))"

definition shortest_decimal :: "nat \<Rightarrow> nat \<times> int" where
  "shortest_decimal m =
     (let u = mag_value m in shortest_from 800 m u (dec_exp u - 1))"

fun strip_zeros :: "nat \<Rightarrow> nat \<Rightarrow> int \<Rightarrow> nat \<times> int" where
  "strip_zeros 0 D E = (D, E)"
| "strip_zeros (Suc k) D E =
     (if D mod 10 = 0 \<and> D \<noteq> 0 then strip_zeros k (D div 10) (E + 1) else (D, E))"

text \<open>Positional notation of \<open>D * 10 ^ E\<close>.\<close>

definition positional :: "nat \<Rightarrow> int \<Rightarrow> string" where
  "positional D E =
     (if 0 \<le> E then nat_digits (D * 10 ^ nat E)
      else
        let k = nat (- E); ip = D div 10 ^ k; fp = nat_digits (D mod 10 ^ k)
        in nat_digits ip @ ''.'' @ replicate (k - length fp) (CHR ''0'') @ fp)"

definition float_text :: "(nat \<Rightarrow> string) \<Rightarrow> float64 \<Rightarrow> string" where
  "float_text digits x =
     (if f_is_nan x then ''NaN''
      else if f_is_inf x then (if f_neg x then ''-Inf'' else ''+Inf'')
      else (if f_neg x then ''-'' else []) @ digits (f_mag x))"

text \<open>\<open>FormatFloat(x, 'f', -1, 64)\<close>.\<close>

definition FormatFloat :: "float64 \<Rightarrow> string" where
  "FormatFloat =
     float_text (\<lambda>m.
       if m = 0 then ''0''
       else case shortest_decimal m of (D, E) \<Rightarrow>
         case strip_zeros 1000 D E of (D', E') \<Rightarrow> positional D' E')"

text \<open>\<open>fmt\<close>'s \<open>%.pf\<close>: the exact value to \<open>p\<close> decimals, ties to even.\<close>

definition FormatFixed :: "nat \<Rightarrow> float64 \<Rightarrow> string" where
  "FormatFixed p =
     float_text (\<lambda>m.
       let D = round_even (mag_value m * 10 ^ p) (2 ^ 1074)
       in if p = 0 then nat_digits D else positional D (- int p))"

end
