(* ===== verification/Geo.thy ===== *)
theory Geo
  imports GoFloatText
begin

text \<open>
  Geohash cells (\<open>app/geo-coordinate-helper.go\<close>): two grid numbers of 26 bits are spread to
  every second bit of 64 and interleaved, latitude on the even bits. The integer part is on
  words, the conversion between coordinates and grid numbers on floats.
\<close>

unbundle bit_operations_syntax

definition spreadInt32ToInt64 :: "32 word \<Rightarrow> 64 word" where
  "spreadInt32ToInt64 v =
     (let r0 = ucast v;
          r1 = (r0 OR push_bit 16 r0) AND 0x0000FFFF0000FFFF;
          r2 = (r1 OR push_bit 8 r1) AND 0x00FF00FF00FF00FF;
          r3 = (r2 OR push_bit 4 r2) AND 0x0F0F0F0F0F0F0F0F;
          r4 = (r3 OR push_bit 2 r3) AND 0x3333333333333333;
          r5 = (r4 OR push_bit 1 r4) AND 0x5555555555555555
      in r5)"

definition interleave :: "32 word \<Rightarrow> 32 word \<Rightarrow> 64 word" where
  "interleave x y =
     (let xSpread = spreadInt32ToInt64 x;
          ySpread = spreadInt32ToInt64 y;
          yShifted = push_bit 1 ySpread
      in xSpread OR yShifted)"

definition compactInt64ToInt32 :: "64 word \<Rightarrow> 32 word" where
  "compactInt64ToInt32 v =
     (let r0 = v AND 0x5555555555555555;
          r1 = (r0 OR drop_bit 1 r0) AND 0x3333333333333333;
          r2 = (r1 OR drop_bit 2 r1) AND 0x0F0F0F0F0F0F0F0F;
          r3 = (r2 OR drop_bit 4 r2) AND 0x00FF00FF00FF00FF;
          r4 = (r3 OR drop_bit 8 r3) AND 0x0000FFFF0000FFFF;
          r5 = (r4 OR drop_bit 16 r4) AND 0x00000000FFFFFFFF
      in ucast r5)"

text \<open>The two grid numbers of a code, latitude first.\<close>

definition grid_numbers :: "64 word \<Rightarrow> 32 word \<times> 32 word" where
  "grid_numbers geoCode =
     (let y = drop_bit 1 geoCode; x = geoCode
      in (compactInt64ToInt32 x, compactInt64ToInt32 y))"

section \<open>Coordinates\<close>

text \<open>
  What the source takes from the hardware and from Go's mathematical library: trigonometry,
  and the result of converting a float outside the target's range to an unsigned integer,
  which the language leaves to the implementation. No property assumes anything of them.
\<close>

record hardware =
  mSin :: "float64 \<Rightarrow> float64"
  mCos :: "float64 \<Rightarrow> float64"
  mAtan2 :: "float64 \<Rightarrow> float64 \<Rightarrow> float64"
  mSqrt :: "float64 \<Rightarrow> float64"
  out_u32 :: "float64 \<Rightarrow> 32 word"
  out_u64 :: "float64 \<Rightarrow> 64 word"
  out_i64 :: "float64 \<Rightarrow> int"

definition to_u32 :: "hardware \<Rightarrow> float64 \<Rightarrow> 32 word" where
  "to_u32 hw x =
     (if f_is_finite x \<and> 0 \<le> f_trunc x \<and> f_trunc x < 2 ^ 32 then of_int (f_trunc x)
      else out_u32 hw x)"

definition to_u64 :: "hardware \<Rightarrow> float64 \<Rightarrow> 64 word" where
  "to_u64 hw x =
     (if f_is_finite x \<and> 0 \<le> f_trunc x \<and> f_trunc x < 2 ^ 64 then of_int (f_trunc x)
      else out_u64 hw x)"

text \<open>The constants, exact in the source and rounded where they meet a variable.\<close>

definition MIN_LATITUDE :: float64 where "MIN_LATITUDE = f_const (- 8505112878) (10 ^ 8)"
definition MAX_LATITUDE :: float64 where "MAX_LATITUDE = f_const 8505112878 (10 ^ 8)"
definition MIN_LONGITUDE :: float64 where "MIN_LONGITUDE = f_const (- 180) 1"
definition MAX_LONGITUDE :: float64 where "MAX_LONGITUDE = f_const 180 1"
definition LATITUDE_RANGE :: float64 where "LATITUDE_RANGE = f_const 17010225756 (10 ^ 8)"
definition LONGITUDE_RANGE :: float64 where "LONGITUDE_RANGE = f_const 360 1"
definition Pow2_26 :: float64 where "Pow2_26 = f_const 67108864 1"

record Coordinates =
  Latitude :: float64
  Longitude :: float64

definition encode :: "hardware \<Rightarrow> float64 \<Rightarrow> float64 \<Rightarrow> 64 word" where
  "encode hw latitude longitude =
     (let normalizedLatitude = f_div (f_mul Pow2_26 (f_sub latitude MIN_LATITUDE)) LATITUDE_RANGE;
          normalizedLongitude = f_div (f_mul Pow2_26 (f_sub longitude MIN_LONGITUDE)) LONGITUDE_RANGE;
          latInt = to_u32 hw normalizedLatitude;
          lonInt = to_u32 hw normalizedLongitude
      in interleave latInt lonInt)"

definition grid_edge :: "float64 \<Rightarrow> float64 \<Rightarrow> 32 word \<Rightarrow> float64" where
  "grid_edge lo extent n = f_add lo (f_mul extent (f_div (f_of_int (uint n)) Pow2_26))"

definition convertGridNumbersToCoordinates :: "32 word \<Rightarrow> 32 word \<Rightarrow> Coordinates" where
  "convertGridNumbersToCoordinates gridLatitudeNumber gridLongitudeNumber =
     (let gridLatitudeMin = grid_edge MIN_LATITUDE LATITUDE_RANGE gridLatitudeNumber;
          gridLatitudeMax = grid_edge MIN_LATITUDE LATITUDE_RANGE (gridLatitudeNumber + 1);
          gridLongitudeMin = grid_edge MIN_LONGITUDE LONGITUDE_RANGE gridLongitudeNumber;
          gridLongitudeMax = grid_edge MIN_LONGITUDE LONGITUDE_RANGE (gridLongitudeNumber + 1);
          two = f_of_int 2
      in \<lparr>Latitude = f_div (f_add gridLatitudeMin gridLatitudeMax) two,
          Longitude = f_div (f_add gridLongitudeMin gridLongitudeMax) two\<rparr>)"

definition decode :: "64 word \<Rightarrow> Coordinates" where
  "decode geoCode =
     (case grid_numbers geoCode of
        (gridLatitudeNumber, gridLongitudeNumber) \<Rightarrow>
          convertGridNumbersToCoordinates gridLatitudeNumber gridLongitudeNumber)"

text \<open>\<open>haversineDistanceMeters\<close> of \<open>app/commands.go\<close>; \<open>math.Pi / 180\<close> is an exact constant.\<close>

definition f_one :: float64 where "f_one = f_of_int 1"

definition pi_180 :: float64 where
  "pi_180 = f_const 314159265358979323846264338327950288419716939937510582097494459 (180 * 10 ^ 62)"

definition haversineDistanceMeters ::
  "hardware \<Rightarrow> float64 \<Rightarrow> float64 \<Rightarrow> float64 \<Rightarrow> float64 \<Rightarrow> float64" where
  "haversineDistanceMeters hw lat1 lon1 lat2 lon2 =
     (let latitude1 = f_mul lat1 pi_180;
          longitude1 = f_mul lon1 pi_180;
          latitude2 = f_mul lat2 pi_180;
          longitude2 = f_mul lon2 pi_180;
          deltaLat = f_sub latitude2 latitude1;
          deltaLon = f_sub longitude2 longitude1;
          two = f_of_int 2;
          sinLat = mSin hw (f_div deltaLat two);
          sinLon = mSin hw (f_div deltaLon two);
          a0 = f_add (f_mul sinLat sinLat)
                 (f_mul (f_mul (f_mul (mCos hw latitude1) (mCos hw latitude2)) sinLon) sinLon);
          a1 = (if f_less f_one a0 then f_one else a0);
          a2 = (if f_less a1 0 then 0 else a1);
          c = f_mul two (mAtan2 hw (mSqrt hw a2) (mSqrt hw (f_sub f_one a2)))
      in f_mul (f_const 6372797560856 (10 ^ 6)) c)"

section \<open>Bits\<close>

text \<open>A statement about every bit of a 64-bit word, position by position.\<close>

definition positions :: "nat list" where
  "positions = [
    0, 1, 2, 3, 4, 5, 6, 7, 8, 9, 10, 11, 12, 13, 14, 15, 16, 17, 18, 19, 20, 21, 22, 23,
    24, 25, 26, 27, 28, 29, 30, 31, 32, 33, 34, 35, 36, 37, 38, 39, 40, 41, 42, 43, 44,
    45, 46, 47, 48, 49, 50, 51, 52, 53, 54, 55, 56, 57, 58, 59, 60, 61, 62, 63]"

lemma positions_upt: "positions = [0..<64]"
  by (rule nth_equalityI) (simp_all add: positions_def nth_Cons' less_Suc_eq numeral_eq_Suc)

lemma all_64: "(\<forall>n < 64. P n) \<longleftrightarrow> list_all P positions"
  by (auto simp: list_all_iff positions_upt)

lemma mask_bits:
  "n < 64 \<Longrightarrow> bit (0x0000FFFF0000FFFF :: 64 word) n \<longleftrightarrow> n mod 32 < 16"
  "n < 64 \<Longrightarrow> bit (0x00FF00FF00FF00FF :: 64 word) n \<longleftrightarrow> n mod 16 < 8"
  "n < 64 \<Longrightarrow> bit (0x0F0F0F0F0F0F0F0F :: 64 word) n \<longleftrightarrow> n mod 8 < 4"
  "n < 64 \<Longrightarrow> bit (0x3333333333333333 :: 64 word) n \<longleftrightarrow> n mod 4 < 2"
  "n < 64 \<Longrightarrow> bit (0x5555555555555555 :: 64 word) n \<longleftrightarrow> even n"
proof -
  have "\<forall>n < 64. bit (0x0000FFFF0000FFFF :: 64 word) n \<longleftrightarrow> n mod 32 < 16"
    unfolding all_64 by (simp add: positions_def)
  then show "n < 64 \<Longrightarrow> bit (0x0000FFFF0000FFFF :: 64 word) n \<longleftrightarrow> n mod 32 < 16" by blast
  have "\<forall>n < 64. bit (0x00FF00FF00FF00FF :: 64 word) n \<longleftrightarrow> n mod 16 < 8"
    unfolding all_64 by (simp add: positions_def)
  then show "n < 64 \<Longrightarrow> bit (0x00FF00FF00FF00FF :: 64 word) n \<longleftrightarrow> n mod 16 < 8" by blast
  have "\<forall>n < 64. bit (0x0F0F0F0F0F0F0F0F :: 64 word) n \<longleftrightarrow> n mod 8 < 4"
    unfolding all_64 by (simp add: positions_def)
  then show "n < 64 \<Longrightarrow> bit (0x0F0F0F0F0F0F0F0F :: 64 word) n \<longleftrightarrow> n mod 8 < 4" by blast
  have "\<forall>n < 64. bit (0x3333333333333333 :: 64 word) n \<longleftrightarrow> n mod 4 < 2"
    unfolding all_64 by (simp add: positions_def)
  then show "n < 64 \<Longrightarrow> bit (0x3333333333333333 :: 64 word) n \<longleftrightarrow> n mod 4 < 2" by blast
  have "\<forall>n < 64. bit (0x5555555555555555 :: 64 word) n \<longleftrightarrow> even n"
    unfolding all_64 by (simp add: positions_def)
  then show "n < 64 \<Longrightarrow> bit (0x5555555555555555 :: 64 word) n \<longleftrightarrow> even n" by blast
qed


text \<open>
  The bits \<open>f\<close>, in blocks of \<open>b\<close> with gaps of the same size between them: the shape of every
  intermediate result. Spreading halves the blocks, compacting doubles them.
\<close>

definition blocks :: "nat \<Rightarrow> (nat \<Rightarrow> bool) \<Rightarrow> 64 word \<Rightarrow> bool" where
  "blocks b f r \<longleftrightarrow> (\<forall>n < 64. bit r n \<longleftrightarrow> n mod (2 * b) < b \<and> f (n div (2 * b) * b + n mod (2 * b)))"

lemmas blocks_positions = blocks_def all_64 positions_def

lemma bit_times_2: "bit (r * 2 :: 64 word) n \<longleftrightarrow> 0 < n \<and> n < 64 \<and> bit r (n - 1)"
  using bit_double_iff [of r n] by (auto simp: mult.commute)

lemma spread_steps:
  "blocks 32 f r \<Longrightarrow> blocks 16 f ((r OR push_bit 16 r) AND 0x0000FFFF0000FFFF)"
  "blocks 16 f r \<Longrightarrow> blocks 8 f ((r OR push_bit 8 r) AND 0x00FF00FF00FF00FF)"
  "blocks 8 f r \<Longrightarrow> blocks 4 f ((r OR push_bit 4 r) AND 0x0F0F0F0F0F0F0F0F)"
  "blocks 4 f r \<Longrightarrow> blocks 2 f ((r OR push_bit 2 r) AND 0x3333333333333333)"
  "blocks 2 f r \<Longrightarrow> blocks 1 f ((r OR push_bit 1 r) AND 0x5555555555555555)"
  unfolding blocks_positions by (simp_all add: bit_simps) (simp_all add: bit_times_2 flip: numeral_2_eq_2 numeral_3_eq_3)

lemma compact_steps:
  "blocks 1 f r \<Longrightarrow> blocks 2 f ((r OR drop_bit 1 r) AND 0x3333333333333333)"
  "blocks 2 f r \<Longrightarrow> blocks 4 f ((r OR drop_bit 2 r) AND 0x0F0F0F0F0F0F0F0F)"
  "blocks 4 f r \<Longrightarrow> blocks 8 f ((r OR drop_bit 4 r) AND 0x00FF00FF00FF00FF)"
  "blocks 8 f r \<Longrightarrow> blocks 16 f ((r OR drop_bit 8 r) AND 0x0000FFFF0000FFFF)"
  "blocks 16 f r \<Longrightarrow> blocks 32 f ((r OR drop_bit 16 r) AND 0x00000000FFFFFFFF)"
  unfolding blocks_positions
  by (simp_all add: bit_simps) (simp_all flip: numeral_2_eq_2 numeral_3_eq_3)


lemma blocks_ucast: "blocks 32 (bit v) (ucast (v :: 32 word))"
  by (auto simp: blocks_def bit_simps dest: bit_imp_le_length)

lemma blocks_even_bits: "blocks 1 (\<lambda>i. bit v (2 * i)) (v AND 0x5555555555555555)"
proof -
  have "bit (v AND 0x5555555555555555) n \<longleftrightarrow> n mod 2 < 1 \<and> bit v (2 * (n div 2))" if "n < 64" for n
    using mask_bits(5) [OF that] by (cases "even n") (auto simp: bit_and_iff)
  moreover have "n mod 2 < 1 \<and> bit v (2 * (n div 2 * 1 + n mod 2)) \<longleftrightarrow>
      n mod 2 < 1 \<and> bit v (2 * (n div 2))" for n by auto
  ultimately show ?thesis unfolding blocks_def mult_1_right by (simp only: mult_1_right mult_1) blast
qed

lemma blocks_spread: "blocks 1 (bit v) (spreadInt32ToInt64 v)"
  unfolding spreadInt32ToInt64_def Let_def by (intro spread_steps blocks_ucast)

lemma bit_spread: "bit (spreadInt32ToInt64 v) n \<longleftrightarrow> even n \<and> bit v (n div 2)"
proof (cases "n < 64")
  case True
  have "n mod 2 < 1 \<longleftrightarrow> even n" by presburger
  with True blocks_spread [of v] show ?thesis by (auto simp: blocks_def)
next
  case False
  then have "\<not> bit (spreadInt32ToInt64 v) n" "\<not> bit v (n div 2)"
    by (auto dest: bit_imp_le_length)
  then show ?thesis by simp
qed

lemma bit_compact: "n < 32 \<Longrightarrow> bit (compactInt64ToInt32 v) n \<longleftrightarrow> bit v (2 * n)"
proof -
  assume n: "n < 32"
  let ?r0 = "v AND 0x5555555555555555"
  obtain r5 where "compactInt64ToInt32 v = ucast r5" and "blocks 32 (\<lambda>i. bit v (2 * i)) r5"
    unfolding compactInt64ToInt32_def Let_def
    using compact_steps [of "\<lambda>i. bit v (2 * i)"] blocks_even_bits [of v] by blast
  with n show ?thesis by (simp add: blocks_def bit_ucast_iff)
qed

lemma bit_interleave:
  "bit (interleave x y) n \<longleftrightarrow> (if even n then bit x (n div 2) else bit y (n div 2))"
proof (cases "n < 64")
  case True
  then have "bit (interleave x y) n \<longleftrightarrow>
      bit (spreadInt32ToInt64 x) n \<or> (0 < n \<and> bit (spreadInt32ToInt64 y) (n - 1))"
    by (auto simp: interleave_def Let_def bit_or_iff bit_times_2)
  then show ?thesis by (cases "even n") (auto simp: bit_spread elim!: oddE)
next
  case False
  then have "\<not> bit (interleave x y) n" "\<not> bit x (n div 2)" "\<not> bit y (n div 2)"
    by (auto dest: bit_imp_le_length)
  then show ?thesis by simp
qed

lemma compact_interleave: "compactInt64ToInt32 (interleave x y) = x"
  by (rule bit_word_eqI) (simp add: bit_compact bit_interleave)

lemma compact_shifted: "compactInt64ToInt32 (drop_bit 1 (interleave x y)) = y"
proof (rule bit_word_eqI)
  fix n assume "n < LENGTH(32)"
  then show "bit (compactInt64ToInt32 (drop_bit 1 (interleave x y))) n = bit y n"
    by (simp add: bit_compact bit_drop_bit_eq bit_interleave)
qed


lemma interleave_grid_numbers:
  "(case grid_numbers g of (x, y) \<Rightarrow> interleave x y) = g"
proof -
  have "bit (interleave (compactInt64ToInt32 g) (compactInt64ToInt32 (drop_bit 1 g))) n = bit g n"
    if "n < 64" for n
    using that by (auto simp: bit_interleave bit_compact bit_drop_bit_eq elim!: oddE)
  then have "interleave (compactInt64ToInt32 g) (compactInt64ToInt32 (drop_bit 1 g)) = g"
    by (intro bit_word_eqI) simp
  then show ?thesis by (simp add: grid_numbers_def Let_def)
qed

section \<open>Properties\<close>

text \<open>
  C32: interleaving is a bijection between pairs of 32-bit grid numbers and 64-bit codes, and
  \<open>decode\<close>'s compaction is its inverse, both ways; a decoded code shows the centre of the very
  cell that was encoded.
\<close>

theorem geo_code_bijection:
  "grid_numbers (interleave x y) = (x, y) \<and>
   (case grid_numbers g of (x, y) \<Rightarrow> interleave x y) = g \<and>
   decode (interleave x y) = convertGridNumbersToCoordinates x y"
  using interleave_grid_numbers [of g]
  by (simp add: decode_def grid_numbers_def Let_def compact_interleave compact_shifted
      compact_shifted [unfolded One_nat_def])

end
