(* ===== verification/World.thy ===== *)
theory World
  imports Transactions AofFacts Rdb Geo
begin

text \<open>
  The state of a running server: the store, the replication manager and the password list of
  \<open>app/server.go\<close> and \<open>app/commands.go\<close> (package variables there), the file system, the channels
  of blocked readers, and everything written to connections so far. A handler is a function
  from the world to the world and a signal: it ran to its end, panicked, waits, or blocks the
  store for good.

  A write to a connection that the peer has closed has no effect anybody can see, so writes
  always succeed here; each \<open>conn.Write\<close> is one element of \<open>sent\<close>, as other goroutines may write
  in between.
\<close>

record world = store +
  replicas :: "conn list"
  masterOffset :: int
  replicaOffsets :: "(conn, int) gomap"
  defaultUserPasswords :: "string list"
  files :: files
  chans :: "(nat, string) gomap"
  next_chan :: nat
  sent :: "(conn \<times> string) list"

text \<open>What a handler reads but never changes. One call of a handler sees one time.\<close>

record env =
  now :: int
  cfg :: ServerConfig
  io :: io_fails
  hw :: hardware
  quoted :: "string \<Rightarrow> string"
  sha256_hex :: "string \<Rightarrow> string"

text \<open>
  What a goroutine waits for: a popped value or a stream entry on its channel, with a deadline
  unless it waits for ever, or the acknowledgements of replicas.
\<close>

datatype wait =
    WaitPop string nat "int option"
  | WaitStream "string list" "string list" nat "int option"
  | WaitAcks int int "conn list" int int

text \<open>
  How a handler ends. \<open>Waiting\<close> carries the commands of a transaction still to be run after the
  wait; \<open>Stuck\<close> is a send on a full channel with the mutex held, \<open>Leaked\<close> a return with the mutex
  held, \<open>TooDeep\<close> the recursion bound of the model, which \<open>system_invariant\<close> excludes.
\<close>

datatype signal = Done | Panic | Waiting wait "resp list list" | Stuck | Leaked | TooDeep

type_synonym result = "world \<times> signal"

definition and_then :: "result \<Rightarrow> (world \<Rightarrow> result) \<Rightarrow> result" where
  "and_then r k = (case r of (w, Done) \<Rightarrow> k w | (w, s) \<Rightarrow> (w, s))"

section \<open>Writing to a connection\<close>

text \<open>The reply helpers do nothing for a nil connection; \<open>conn.Write\<close> itself panics.\<close>

definition reply :: "conn \<Rightarrow> string \<Rightarrow> world \<Rightarrow> world" where
  "reply c bytes w = (if c = None then w else w\<lparr>sent := sent w @ [(c, bytes)]\<rparr>)"

definition conn_write :: "conn \<Rightarrow> string \<Rightarrow> world \<Rightarrow> result" where
  "conn_write c bytes w =
     (if c = None then (w, Panic) else (w\<lparr>sent := sent w @ [(c, bytes)]\<rparr>, Done))"

text \<open>A log statement that asks a nil connection for its address panics as well.\<close>

definition remote_addr :: "conn \<Rightarrow> world \<Rightarrow> result" where
  "remote_addr c w = (w, if c = None then Panic else Done)"

definition writeOK :: "conn \<Rightarrow> world \<Rightarrow> world" where
  "writeOK c = reply c writeOK_bytes"

definition writeErr :: "conn \<Rightarrow> string \<Rightarrow> world \<Rightarrow> world" where
  "writeErr c msg = reply c (writeErr_bytes msg)"

definition writeNullBulk :: "conn \<Rightarrow> world \<Rightarrow> world" where
  "writeNullBulk c = reply c writeNullBulk_bytes"

definition writeInteger :: "conn \<Rightarrow> int \<Rightarrow> world \<Rightarrow> world" where
  "writeInteger c value = reply c (writeInteger_bytes value)"

definition writeString :: "conn \<Rightarrow> string \<Rightarrow> world \<Rightarrow> world" where
  "writeString c value = reply c (writeString_bytes value)"

definition writeBulkString :: "conn \<Rightarrow> string \<Rightarrow> world \<Rightarrow> world" where
  "writeBulkString c s = reply c (writeBulkString_bytes s)"

definition writeArrayResponse :: "conn \<Rightarrow> string list \<Rightarrow> world \<Rightarrow> world" where
  "writeArrayResponse c items = reply c (writeArrayResponse_bytes items)"

definition finish :: "world \<Rightarrow> result" where "finish w = (w, Done)"

section \<open>Arguments\<close>

definition asString :: "resp \<Rightarrow> string \<times> bool" where
  "asString v = (case v of RStr s \<Rightarrow> (s, True) | _ \<Rightarrow> ([], False))"

definition asStringOrEmpty :: "resp \<Rightarrow> string" where
  "asStringOrEmpty v = (case v of RStr s \<Rightarrow> s | _ \<Rightarrow> [])"

text \<open>\<open>x, _ := asString(arr[i])\<close>, for an index in range.\<close>

definition arg :: "resp list \<Rightarrow> nat \<Rightarrow> string" where
  "arg arr i = fst (asString (arr ! i))"

text \<open>\<open>n, _ := strconv.Atoi(s)\<close>: on an error the value that comes with it.\<close>

definition atoi_value :: "string \<Rightarrow> int" where
  "atoi_value s = fst (Atoi s)"

section \<open>Replication manager\<close>

definition addReplica :: "conn \<Rightarrow> world \<Rightarrow> world" where
  "addReplica c w = w\<lparr>replicas := replicas w @ [c]\<rparr>"

definition removeReplica :: "conn \<Rightarrow> world \<Rightarrow> world" where
  "removeReplica c w =
     (if c = None then w
      else w\<lparr>replicas := remove1 c (replicas w), replicaOffsets := mdel c (replicaOffsets w)\<rparr>)"

definition propagate :: "resp list \<Rightarrow> world \<Rightarrow> world" where
  "propagate arr w =
     (let payload = encodeRESPArray arr
      in w\<lparr>masterOffset := wrap64 (masterOffset w + int (length payload)),
           sent := sent w @ map (\<lambda>r. (r, payload)) (replicas w)\<rparr>)"

definition persistWriteCommand :: "env \<Rightarrow> conn \<Rightarrow> resp list \<Rightarrow> world \<Rightarrow> world \<times> bool" where
  "persistWriteCommand e c arr w =
     (let w1 = propagate arr w
      in if c = None \<or> appendonly (cfg e) \<noteq> ''yes'' then (w1, True)
         else (case appendRESPCommandToAOF (io e) (cfg e) arr (files w1) of
                 (fs, None) \<Rightarrow> (w1\<lparr>files := fs\<rparr>, True)
               | (fs, Some err) \<Rightarrow>
                   (writeErr c ''ERR failed to append to AOF'' (w1\<lparr>files := fs\<rparr>), False)))"

text \<open>The common end of the write handlers: persist, and reply only if that succeeded.\<close>

definition persist_then :: "env \<Rightarrow> conn \<Rightarrow> resp list \<Rightarrow> (world \<Rightarrow> result) \<Rightarrow> world \<Rightarrow> result" where
  "persist_then e c arr k w =
     (case persistWriteCommand e c arr w of (w', ok) \<Rightarrow> if ok then k w' else finish w')"

definition err_text :: "env \<Rightarrow> store_err \<Rightarrow> string" where
  "err_text e err =
     (case err of
        Msg m \<Rightarrow> m
      | ParseIntErr s ErrSyntax \<Rightarrow> ''strconv.ParseInt: parsing '' @ quoted e s @ '': invalid syntax''
      | ParseIntErr s ErrRange \<Rightarrow> ''strconv.ParseInt: parsing '' @ quoted e s @ '': value out of range'')"


text \<open>The text in single quotes, and the complaint most handlers start with.\<close>

definition quotes :: "string \<Rightarrow> string" where
  "quotes s = CHR 0x27 # s @ [CHR 0x27]"

definition wrong_args :: "string \<Rightarrow> string" where
  "wrong_args cmd = ''wrong number of arguments for '' @ quotes cmd @ '' command''"

end
