(* ===== verification/HandlersBasic.thy ===== *)
theory HandlersBasic
  imports World
begin

text \<open>
  Command handlers (\<open>app/commands.go\<close>), first part: connection and server commands, strings and
  counters, and the key commands.
\<close>

section \<open>Authentication\<close>

definition handleAUTH :: "env \<Rightarrow> conn \<Rightarrow> resp list \<Rightarrow> world \<Rightarrow> result" where
  "handleAUTH e c arr w =
     (if length arr < 2 then finish (writeErr c (wrong_args ''AUTH'') w)
      else
        let password = (if length arr = 3 then arg arr 2 else arg arr 1);
            hasPass = (requirepass (cfg e) \<noteq> [] \<or> defaultUserPasswords w \<noteq> []);
            valid = ((requirepass (cfg e) \<noteq> [] \<and> password = requirepass (cfg e)) \<or>
                     password \<in> set (defaultUserPasswords w))
        in if \<not> hasPass
           then finish (writeErr c ''ERR Client sent AUTH, but no password is set'' w)
           else if valid then finish (writeOK c (Authenticate c w))
           else finish (writeErr c ''WRONGPASS invalid username-password pair or user is disabled.'' w))"

text \<open>The rules of \<open>ACL SETUSER default\<close>: a rule \<open>>password\<close> adds a password once.\<close>

definition add_password :: "resp \<Rightarrow> string list \<Rightarrow> string list" where
  "add_password v ps =
     (case fst (asString v) of
        ch # pass \<Rightarrow> if ch = CHR ''>'' \<and> pass \<notin> set ps then ps @ [pass] else ps
      | [] \<Rightarrow> ps)"

definition getuser_reply :: "env \<Rightarrow> world \<Rightarrow> resp list" where
  "getuser_reply e w =
     (let hashes = map (\<lambda>p. RStr (sha256_hex e p))
            ((if requirepass (cfg e) \<noteq> [] then [requirepass (cfg e)] else []) @ defaultUserPasswords w);
          hasPassword = (requirepass (cfg e) \<noteq> [] \<or> defaultUserPasswords w \<noteq> []);
          flags = map RStr [''on'', ''allkeys'', ''allchannels'', ''allcommands''] @
            (if hasPassword then [] else [RStr ''nopass''])
      in [RStr ''flags'', RArr flags, RStr ''passwords'', RArr hashes, RStr ''commands'', RStr ''+@all'',
          RStr ''keys'', RStr ''~*'', RStr ''channels'', RStr ''&*''])"

definition handleACL :: "env \<Rightarrow> conn \<Rightarrow> resp list \<Rightarrow> world \<Rightarrow> result" where
  "handleACL e c arr w =
     (if length arr < 2 then finish (writeErr c (wrong_args ''ACL'') w)
      else
        let subcommand = ToUpper (arg arr 1)
        in if subcommand = ''WHOAMI'' then finish (writeBulkString c ''default'' w)
           else if subcommand = ''SETUSER'' then
             (if length arr < 3
              then finish (writeErr c (''ERR '' @ wrong_args ''acl|setuser'') w)
              else if arg arr 2 = ''default'' then
                finish (writeOK c (w\<lparr>defaultUserPasswords :=
                  fold add_password (drop 3 arr) (defaultUserPasswords w)\<rparr>))
              else finish (writeErr c ''ERR user not found or not supported'' w))
           else if subcommand = ''GETUSER'' then
             (if length arr < 3
              then finish (writeErr c (''ERR '' @ wrong_args ''acl|getuser'') w)
              else if arg arr 2 = ''default'' then conn_write c (encodeRESPArray (getuser_reply e w)) w
              else finish (writeNullBulk c w))
           else finish (writeErr c ''unknown ACL subcommand'' w))"

section \<open>Connection and server\<close>

definition handlePING :: "conn \<Rightarrow> resp list \<Rightarrow> world \<Rightarrow> result" where
  "handlePING c arr w =
     (if length arr = 1 then
        (if IsSubscribed c w then finish (writeArrayResponse c [''pong'', []] w)
         else finish (writeString c ''PONG'' w))
      else finish w)"

definition handleECHO :: "conn \<Rightarrow> resp list \<Rightarrow> world \<Rightarrow> result" where
  "handleECHO c arr w =
     (if length arr < 2 then finish (writeNullBulk c w)
      else (case asString (arr ! 1) of
              (a, True) \<Rightarrow> finish (writeBulkString c a w)
            | (_, False) \<Rightarrow> finish (writeNullBulk c w)))"

definition handleINFO :: "env \<Rightarrow> conn \<Rightarrow> resp list \<Rightarrow> world \<Rightarrow> result" where
  "handleINFO e c arr w =
     and_then (remote_addr c w) (\<lambda>w.
       if length arr < 1 then finish (writeErr c (wrong_args ''INFO'') w)
       else finish (writeBulkString c
         (''role:'' @ role (cfg e) @ crlf @
          ''master_replid:'' @ masterReplID (cfg e) @ crlf @
          ''master_repl_offset:'' @ Itoa (masterReplOffset (cfg e)) @ crlf) w))"

definition config_value :: "ServerConfig \<Rightarrow> string \<Rightarrow> string" where
  "config_value config param =
     (if param = ''dir'' then dir config
      else if param = ''dbfilename'' then dbfilename config
      else if param = ''appendonly'' then appendonly config
      else if param = ''appenddirname'' then appenddirname config
      else if param = ''appendfilename'' then appendfilename config
      else if param = ''appendfsync'' then appendfsync config
      else [])"

definition handleCONFIG :: "env \<Rightarrow> conn \<Rightarrow> resp list \<Rightarrow> world \<Rightarrow> result" where
  "handleCONFIG e c arr w =
     (if length arr < 2 then finish (writeErr c (wrong_args ''CONFIG'') w)
      else (case asString (arr ! 1) of
              (_, False) \<Rightarrow> finish w
            | (cmd, True) \<Rightarrow>
                if ToUpper cmd = ''GET'' then
                  (if length arr < 3 then finish (writeErr c (wrong_args ''CONFIG GET'') w)
                   else (case asString (arr ! 2) of
                           (_, False) \<Rightarrow> finish (writeErr c ''invalid parameter format'' w)
                         | (param, True) \<Rightarrow>
                             finish (writeArrayResponse c [param, config_value (cfg e) (ToLower param)] w)))
                else finish (writeErr c ''unknown CONFIG subcommand'' w)))"

section \<open>Replication commands\<close>

definition handleREPLCONF :: "conn \<Rightarrow> resp list \<Rightarrow> world \<Rightarrow> result" where
  "handleREPLCONF c arr w =
     (if 3 \<le> length arr \<and> ToUpper (arg arr 1) = ''ACK''
      then finish (w\<lparr>replicaOffsets := mput c (atoi_value (arg arr 2)) (replicaOffsets w)\<rparr>)
      else finish (writeOK c w))"

definition emptyRDB :: string where
  "emptyRDB = ''REDIS0006'' @ [CHR 0xFF] @ replicate 8 (CHR 0x00)"

definition handlePSYNC :: "env \<Rightarrow> conn \<Rightarrow> world \<Rightarrow> result" where
  "handlePSYNC e c w =
     and_then (conn_write c (''+FULLRESYNC '' @ masterReplID (cfg e) @ '' 0'' @ crlf) w) (\<lambda>w.
     and_then (conn_write c (''$'' @ Itoa (int (length emptyRDB)) @ crlf) w) (\<lambda>w.
     and_then (conn_write c emptyRDB w) (\<lambda>w.
       finish (addReplica c w))))"

text \<open>One round of the polling loop of \<open>WAIT\<close>: the replicas that have confirmed the offset.\<close>

definition ackCount :: "int \<Rightarrow> conn list \<Rightarrow> world \<Rightarrow> int" where
  "ackCount masterOff activeReplicas w =
     int (length (filter (\<lambda>c. case mget (replicaOffsets w) c of
            Some offset \<Rightarrow> masterOff \<le> offset | None \<Rightarrow> False) activeReplicas))"

text \<open>\<open>time.Since(startTime).Milliseconds() >= int64(timeout)\<close>.\<close>

definition poll_wait :: "int \<Rightarrow> conn \<Rightarrow> wait \<Rightarrow> world \<Rightarrow> result option" where
  "poll_wait t c wt w =
     (case wt of
        WaitAcks expected masterOff active start timeout \<Rightarrow>
          let acks = ackCount masterOff active w
          in if expected \<le> acks \<or> (0 < timeout \<and> timeout \<le> (t - start) div 1000000)
             then Some (finish (writeInteger c acks w))
             else None
      | _ \<Rightarrow> None)"

definition handleWAIT :: "env \<Rightarrow> conn \<Rightarrow> resp list \<Rightarrow> world \<Rightarrow> result" where
  "handleWAIT e c arr w =
     (if length arr < 3 then finish (writeErr c (wrong_args ''WAIT'') w)
      else
        let expected = atoi_value (arg arr 1);
            timeout = atoi_value (arg arr 2);
            active = replicas w
        in if expected = 0 \<or> masterOffset w = 0
           then finish (writeInteger c (int (length active)) w)
           else
             let getAck = encodeRESPArray [RStr ''REPLCONF'', RStr ''GETACK'', RStr ''*''];
                 w1 = w\<lparr>sent := sent w @ map (\<lambda>r. (r, getAck)) active\<rparr>;
                 wt = WaitAcks expected (masterOffset w) active (now e) timeout
             in (case poll_wait (now e) c wt w1 of
                   Some r \<Rightarrow> r
                 | None \<Rightarrow> (w1, Waiting wt [])))"

section \<open>Strings and counters\<close>

definition parseTTL :: "resp list \<Rightarrow> int option" where
  "parseTTL arr =
     (if length arr < 5 then None
      else (case asString (arr ! 3) of
              (_, False) \<Rightarrow> None
            | (optRaw, True) \<Rightarrow>
                let opt = ToUpper optRaw
                in if opt \<noteq> ''EX'' \<and> opt \<noteq> ''PX'' then None
                   else (case asString (arr ! 4) of
                           (_, False) \<Rightarrow> None
                         | (ttlStr, True) \<Rightarrow>
                             (case Atoi ttlStr of
                                (_, Some err) \<Rightarrow> None
                              | (ttl, None) \<Rightarrow>
                                  Some (if opt = ''EX'' then wrap64 (ttl * 1000) else ttl)))))"

definition handleSET :: "env \<Rightarrow> conn \<Rightarrow> resp list \<Rightarrow> world \<Rightarrow> result" where
  "handleSET e c arr w =
     (if length arr < 3 then finish (writeErr c (wrong_args ''SET'') w)
      else
        let key = arg arr 1; value = VStr (arg arr 2);
            w1 = (case parseTTL arr of
                    Some ttl \<Rightarrow> SetWithTTL (now e) key value ttl w
                  | None \<Rightarrow> Set key value w)
        in persist_then e c arr (\<lambda>w. finish (writeOK c w)) w1)"

text \<open>A value that is not a string fails the assertion \<open>v.(string)\<close>, which panics.\<close>

definition handleGET :: "env \<Rightarrow> conn \<Rightarrow> resp list \<Rightarrow> world \<Rightarrow> result" where
  "handleGET e c arr w =
     (if length arr < 2 then finish (writeErr c (wrong_args ''GET'') w)
      else (case Get (now e) (arg arr 1) w of
              (w1, Some (VStr v)) \<Rightarrow> finish (writeBulkString c v w1)
            | (w1, Some _) \<Rightarrow> (w1, Panic)
            | (w1, None) \<Rightarrow> finish (writeNullBulk c w1)))"

definition handleINCR :: "env \<Rightarrow> conn \<Rightarrow> resp list \<Rightarrow> world \<Rightarrow> result" where
  "handleINCR e c arr w =
     (if length arr < 2 then finish (writeErr c (wrong_args ''INCR'') w)
      else (case Incr (arg arr 1) w of
              (w1, Inl err) \<Rightarrow> finish (writeErr c ''value is not an integer or out of range'' w1)
            | (w1, Inr val) \<Rightarrow> persist_then e c arr (\<lambda>w. finish (writeInteger c val w)) w1))"

section \<open>Keys\<close>

definition handleKEYS :: "conn \<Rightarrow> resp list \<Rightarrow> world \<Rightarrow> result" where
  "handleKEYS c arr w =
     (if length arr < 2 then finish (writeErr c (wrong_args ''KEYS'') w)
      else (case asString (arr ! 1) of
              (_, False) \<Rightarrow> finish (writeErr c ''invalid pattern format'' w)
            | (pattern, True) \<Rightarrow>
                if pattern = ''*'' then finish (writeArrayResponse c (Keys pattern w) w)
                else conn_write c (''*0'' @ crlf) w))"

definition type_name :: "cached \<Rightarrow> string" where
  "type_name v =
     (case v of VStr _ \<Rightarrow> ''string'' | VList _ \<Rightarrow> ''list'' | VZSet _ \<Rightarrow> ''zset'' | VStream _ \<Rightarrow> ''stream'')"

definition handleTYPE :: "env \<Rightarrow> conn \<Rightarrow> resp list \<Rightarrow> world \<Rightarrow> result" where
  "handleTYPE e c arr w =
     (if length arr \<noteq> 2 then finish (writeErr c (wrong_args ''TYPE'') w)
      else (case Get (now e) (arg arr 1) w of
              (w1, None) \<Rightarrow> finish (writeString c ''none'' w1)
            | (w1, Some v) \<Rightarrow> finish (writeString c (type_name v) w1)))"

end
