(* ===== verification/HandlersList.thy ===== *)
theory HandlersList
  imports HandlersBasic
begin

text \<open>
  Command handlers (\<open>app/commands.go\<close>), second part: lists, and the hand-over of pushed values to
  blocked readers through channels that buffer one value.
\<close>

text \<open>The strings of \<open>arr[n:]\<close>, or \<open>None\<close> if one of the elements is not a string.\<close>

fun all_strings :: "resp list \<Rightarrow> string list option" where
  "all_strings [] = Some []"
| "all_strings (v # vs) =
     (case asString v of
        (_, False) \<Rightarrow> None
      | (s, True) \<Rightarrow> (case all_strings vs of None \<Rightarrow> None | Some ss \<Rightarrow> Some (s # ss)))"

text \<open>The length of the list at the key, as \<open>Get\<close> sees it.\<close>

definition initialLen :: "env \<Rightarrow> string \<Rightarrow> world \<Rightarrow> world \<times> int" where
  "initialLen e key w =
     (case Get (now e) key w of
        (w1, Some (VList l)) \<Rightarrow> (w1, int (length l))
      | (w1, _) \<Rightarrow> (w1, 0))"

text \<open>
  The loop under the mutex: each value goes to the first waiting channel or to those that
  remain to be stored. A send to a channel that still holds a value blocks.
\<close>

fun push_loop :: "string \<Rightarrow> string list \<Rightarrow> world \<Rightarrow> world \<times> signal \<times> string list" where
  "push_loop key [] w = (w, Done, [])"
| "push_loop key (val # values) w =
     (case take_waiter key w of
        Some (w1, waiterChan) \<Rightarrow>
          if mget (chans w1) waiterChan \<noteq> None then (w1, Stuck, [])
          else push_loop key values (w1\<lparr>chans := mput waiterChan val (chans w1)\<rparr>)
      | None \<Rightarrow>
          (case push_loop key values w of
             (w2, sig, remaining) \<Rightarrow> (w2, sig, val # remaining)))"

definition push_handler ::
  "(string \<Rightarrow> string list \<Rightarrow> world \<Rightarrow> world \<times> int) \<Rightarrow> string \<Rightarrow>
     env \<Rightarrow> conn \<Rightarrow> resp list \<Rightarrow> world \<Rightarrow> result" where
  "push_handler push name e c arr w =
     (if length arr < 3 then finish (writeErr c (wrong_args name) w)
      else (case all_strings (drop 2 arr) of
              None \<Rightarrow> finish (writeErr c (name @ '' values must be strings'') w)
            | Some values \<Rightarrow>
                let key = arg arr 1;
                    (w1, n) = initialLen e key w;
                    expectedLen = n + int (length values)
                in (case push_loop key values w1 of
                      (w2, Done, remaining) \<Rightarrow>
                        let w3 = (if remaining \<noteq> [] then fst (push key remaining w2) else w2)
                        in persist_then e c arr (conn_write c ('':'' @ Itoa expectedLen @ crlf)) w3
                    | (w2, sig, _) \<Rightarrow> (w2, sig))))"

definition handleLPUSH :: "env \<Rightarrow> conn \<Rightarrow> resp list \<Rightarrow> world \<Rightarrow> result" where
  "handleLPUSH = push_handler LPush ''LPUSH''"

definition handleRPUSH :: "env \<Rightarrow> conn \<Rightarrow> resp list \<Rightarrow> world \<Rightarrow> result" where
  "handleRPUSH = push_handler RPush ''RPUSH''"

definition handleLRANGE :: "env \<Rightarrow> conn \<Rightarrow> resp list \<Rightarrow> world \<Rightarrow> result" where
  "handleLRANGE e c arr w =
     (if length arr < 4 then finish (writeErr c (wrong_args ''LRANGE'') w)
      else
        (case (Atoi (arg arr 2), Atoi (arg arr 3)) of
           ((start, None), (stop, None)) \<Rightarrow>
             (case Get (now e) (arg arr 1) w of
                (w1, Some (VList l)) \<Rightarrow>
                  let len = int (length l);
                      start1 = (if start < 0 then len + start else start);
                      stop1 = (if stop < 0 then len + stop else stop);
                      start2 = (if start1 < 0 then 0 else start1);
                      stop2 = (if len \<le> stop1 then len - 1 else stop1)
                  in if stop2 < start2 \<or> len \<le> start2 then conn_write c (''*0'' @ crlf) w1
                     else finish (writeArrayResponse c (subslice (nat start2) (nat (stop2 + 1)) l) w1)
              | (w1, Some _) \<Rightarrow> finish (writeErr c ''LRANGE key is not a list'' w1)
              | (w1, None) \<Rightarrow> conn_write c (''*0'' @ crlf) w1)
         | _ \<Rightarrow> finish (writeErr c ''LRANGE start and end must be integers'' w)))"

definition handleLLEN :: "env \<Rightarrow> conn \<Rightarrow> resp list \<Rightarrow> world \<Rightarrow> result" where
  "handleLLEN e c arr w =
     (if length arr < 2 then finish (writeErr c (wrong_args ''LLEN'') w)
      else (case Get (now e) (arg arr 1) w of
              (w1, Some (VList l)) \<Rightarrow> conn_write c ('':'' @ Itoa (int (length l)) @ crlf) w1
            | (w1, Some _) \<Rightarrow> finish (writeErr c ''LLEN key is not a list'' w1)
            | (w1, None) \<Rightarrow> conn_write c ('':0'' @ crlf) w1))"

text \<open>The count of \<open>LPOP\<close>: the assertion \<open>arr[2].(string)\<close> panics, a failed conversion does not.\<close>

definition lpop_count :: "resp list \<Rightarrow> int option" where
  "lpop_count arr =
     (if length arr = 3 then
        (case arr ! 2 of RStr s \<Rightarrow> Some (atoi_value s) | _ \<Rightarrow> None)
      else Some 1)"

definition handleLPOP :: "env \<Rightarrow> conn \<Rightarrow> resp list \<Rightarrow> world \<Rightarrow> result" where
  "handleLPOP e c arr w =
     (if length arr < 2 then finish (writeErr c (wrong_args ''LPOP'') w)
      else (case lpop_count arr of
              None \<Rightarrow> (w, Panic)
            | Some cnt \<Rightarrow>
                let key = arg arr 1
                in (case Get (now e) key w of
                      (w1, Some (VList l)) \<Rightarrow>
                        if l = [] then finish (writeNullBulk c w1)
                        else if cnt \<le> 0
                          then finish (writeErr c ''LPOP count must be a positive integer'' w1)
                        else
                          let n = nat (min cnt (int (length l)));
                              poppedValues = take n l;
                              w2 = Set key (VList (drop n l)) w1
                          in persist_then e c arr
                               (\<lambda>w. finish (case poppedValues of
                                     [v] \<Rightarrow> writeBulkString c v w
                                   | vs \<Rightarrow> writeArrayResponse c vs w)) w2
                    | (w1, Some _) \<Rightarrow> finish (writeErr c ''LPOP key is not a list'' w1)
                    | (w1, None) \<Rightarrow> finish (writeNullBulk c w1))))"

definition handleRPOP :: "env \<Rightarrow> conn \<Rightarrow> resp list \<Rightarrow> world \<Rightarrow> result" where
  "handleRPOP e c arr w =
     (if length arr < 2 then finish (writeErr c (wrong_args ''RPOP'') w)
      else
        let key = arg arr 1
        in (case Get (now e) key w of
              (w1, Some (VList l)) \<Rightarrow>
                if l = [] then finish (writeNullBulk c w1)
                else
                  let poppedValue = last l;
                      w2 = Set key (VList (butlast l)) w1
                  in persist_then e c arr (\<lambda>w. finish (writeBulkString c poppedValue w)) w2
            | (w1, Some _) \<Rightarrow> finish (writeErr c ''RPOP key is not a list'' w1)
            | (w1, None) \<Rightarrow> finish (writeNullBulk c w1)))"

text \<open>\<open>time.Duration(timeoutSeconds * float64(time.Second))\<close>, in nanoseconds.\<close>

definition seconds :: "env \<Rightarrow> float64 \<Rightarrow> int" where
  "seconds e t =
     (let x = f_mul t (f_of_int 1000000000)
      in if f_is_finite x \<and> in_int64 (f_trunc x) then f_trunc x else out_i64 (hw e) x)"

text \<open>
  \<open>handleBLPOP\<close> up to the point where it waits. A failed append to the log returns without
  unlocking the mutex.
\<close>

definition handleBLPOP :: "env \<Rightarrow> conn \<Rightarrow> resp list \<Rightarrow> world \<Rightarrow> result" where
  "handleBLPOP e c arr w =
     (if length arr < 3 then finish (writeErr c (wrong_args ''BLPOP'') w)
      else
        let key = arg arr 1; timeoutStr = arg arr (length arr - 1)
        in (case ParseFloat timeoutStr of
              None \<Rightarrow> finish (writeErr c ''timeout is not a float or integer'' w)
            | Some timeoutSeconds \<Rightarrow>
                (case pop_front key w of
                   Some (w1, val) \<Rightarrow>
                     (case persistWriteCommand e c arr w1 of
                        (w2, True) \<Rightarrow> finish (writeArrayResponse c [key, val] w2)
                      | (w2, False) \<Rightarrow> (w2, Leaked))
                 | None \<Rightarrow>
                     let waiterChan = next_chan w;
                         w1 = add_waiter key waiterChan (w\<lparr>next_chan := waiterChan + 1\<rparr>);
                         deadline = (if f_less 0 timeoutSeconds
                                     then Some (now e + seconds e timeoutSeconds) else None)
                     in (w1, Waiting (WaitPop key waiterChan deadline) []))))"

text \<open>The two ways a waiting \<open>BLPOP\<close> goes on: a value arrives, or its deadline passes.\<close>

definition BLPOP_value :: "conn \<Rightarrow> string \<Rightarrow> string \<Rightarrow> world \<Rightarrow> result" where
  "BLPOP_value c key val w = finish (writeArrayResponse c [key, val] w)"

definition BLPOP_timeout :: "conn \<Rightarrow> string \<Rightarrow> nat \<Rightarrow> world \<Rightarrow> result" where
  "BLPOP_timeout c key waiterChan w =
     and_then (conn_write c (''*-1'' @ crlf) w) (\<lambda>w. finish (CleanUpExpiredKeyWaiter key waiterChan w))"

end
