(* ===== verification/HandlersData.thy ===== *)
theory HandlersData
  imports HandlersList
begin

text \<open>
  Command handlers (\<open>app/commands.go\<close>), third part: sorted sets and streams. A blocking \<open>XREAD\<close>
  registers one channel under every key it names, reads, and waits only if there is nothing to
  read; the registration, the check and the ways it goes on are separate definitions.
\<close>

section \<open>Sorted sets\<close>

text \<open>The pairs of a \<open>ZADD\<close>. A score that is not a number stops the loop; earlier pairs stay.\<close>

fun zadd_loop :: "string \<Rightarrow> resp list \<Rightarrow> int \<Rightarrow> world \<Rightarrow> world \<times> int option" where
  "zadd_loop key (scoreArg # memberArg # rest) added w =
     (case ParseFloat (asStringOrEmpty scoreArg) of
        None \<Rightarrow> (w, None)
      | Some score \<Rightarrow>
          (case ZAdd key score (asStringOrEmpty memberArg) w of
             (w1, n) \<Rightarrow> zadd_loop key rest (added + n) w1))"
| "zadd_loop key _ added w = (w, Some added)"

definition handleZADD :: "env \<Rightarrow> conn \<Rightarrow> resp list \<Rightarrow> world \<Rightarrow> result" where
  "handleZADD e c arr w =
     (if length arr < 4 \<or> odd (length arr) then finish (writeErr c (wrong_args ''ZADD'') w)
      else (case zadd_loop (arg arr 1) (drop 2 arr) 0 w of
              (w1, None) \<Rightarrow> finish (writeErr c ''ERR value is not a valid float'' w1)
            | (w1, Some addedCount) \<Rightarrow>
                persist_then e c arr (\<lambda>w. finish (writeInteger c addedCount w)) w1))"

definition handleZRANGE :: "conn \<Rightarrow> resp list \<Rightarrow> world \<Rightarrow> result" where
  "handleZRANGE c arr w =
     (if length arr < 4 then finish (writeErr c (wrong_args ''ZRANGE'') w)
      else (case (Atoi (arg arr 2), Atoi (arg arr 3)) of
              ((start, None), (stop, None)) \<Rightarrow>
                finish (writeArrayResponse c (ZRange (arg arr 1) start stop w) w)
            | _ \<Rightarrow> finish (writeErr c ''ERR value is not an integer or out of range'' w)))"

definition Wrong_args :: "string \<Rightarrow> string" where
  "Wrong_args cmd = ''Wrong number of arguments for '' @ quotes cmd @ '' command''"

definition handleZRANK :: "conn \<Rightarrow> resp list \<Rightarrow> world \<Rightarrow> result" where
  "handleZRANK c arr w =
     (if length arr < 3 then finish (writeErr c (Wrong_args ''ZRANK'') w)
      else
        let rank = ZRank (arg arr 1) (arg arr 2) w
        in if rank \<noteq> -1 then finish (writeInteger c rank w) else finish (writeNullBulk c w))"

text \<open>The length is compared with 1, not 2: without a key the access \<open>arr[1]\<close> panics.\<close>

definition handleZCARD :: "conn \<Rightarrow> resp list \<Rightarrow> world \<Rightarrow> result" where
  "handleZCARD c arr w =
     (if length arr < 1 then finish (writeErr c (Wrong_args ''ZCARD'') w)
      else if length arr < 2 then (w, Panic)
      else finish (writeInteger c (ZCard (arg arr 1) w) w))"

definition handleZSCORE :: "conn \<Rightarrow> resp list \<Rightarrow> world \<Rightarrow> result" where
  "handleZSCORE c arr w =
     (if length arr < 3 then finish (writeErr c (Wrong_args ''ZSCORE'') w)
      else (case getZscoreValue (arg arr 1) (arg arr 2) w of
              None \<Rightarrow> finish (writeNullBulk c w)
            | Some value \<Rightarrow> finish (writeBulkString c (FormatFloat value) w)))"

text \<open>Arguments that are not strings are skipped, unlike in \<open>LPUSH\<close>.\<close>

definition strings_of :: "resp list \<Rightarrow> string list" where
  "strings_of vs = map asStringOrEmpty (filter (\<lambda>v. snd (asString v)) vs)"

definition handleZREM :: "conn \<Rightarrow> resp list \<Rightarrow> world \<Rightarrow> result" where
  "handleZREM c arr w =
     (if length arr < 3 then finish (writeErr c (wrong_args ''ZREM'') w)
      else (case ZRem (arg arr 1) (strings_of (drop 2 arr)) w of
              (w1, removedCount) \<Rightarrow> finish (writeInteger c removedCount w1)))"

section \<open>Appending to and reading a stream\<close>

definition WRONGTYPE_text :: string where
  "WRONGTYPE_text = ''WRONGTYPE Operation against a key holding the wrong kind of value''"

definition handleXADD :: "env \<Rightarrow> conn \<Rightarrow> resp list \<Rightarrow> world \<Rightarrow> result" where
  "handleXADD e c arr w =
     (if length arr < 5 then finish (writeErr c (wrong_args ''XADD'') w)
      else if odd (length arr - 3)
        then finish (writeErr c (wrong_args ''XADD'' @ '': fields must be key value pairs'') w)
      else (case all_strings (drop 3 arr) of
              None \<Rightarrow> finish (writeErr c ''XADD fields and values must be strings'' w)
            | Some fieldsSlice \<Rightarrow>
                let append = (\<lambda>w. case XAdd (now e) (arg arr 1) (arg arr 2) fieldsSlice w of
                      (w2, Inl err) \<Rightarrow> finish (writeErr c (err_text e err) w2)
                    | (w2, Inr newID) \<Rightarrow> finish (writeBulkString c newID w2))
                in (case Get (now e) (arg arr 1) w of
                      (w1, None) \<Rightarrow> append w1
                    | (w1, Some (VStream _)) \<Rightarrow> append w1
                    | (w1, Some _) \<Rightarrow> finish (writeErr c WRONGTYPE_text w1))))"

text \<open>The nested replies are written piece by piece.\<close>

fun write_entries :: "conn \<Rightarrow> stream_entry list \<Rightarrow> world \<Rightarrow> result" where
  "write_entries c [] w = finish w"
| "write_entries c (en # entries) w =
     and_then (conn_write c (''*2'' @ crlf) w) (\<lambda>w.
       write_entries c entries
         (writeArrayResponse c (entryFields en) (writeBulkString c (entryID en) w)))"

definition handleXRANGE :: "env \<Rightarrow> conn \<Rightarrow> resp list \<Rightarrow> world \<Rightarrow> result" where
  "handleXRANGE e c arr w =
     (if length arr < 4 then finish (writeErr c (wrong_args ''XRANGE'') w)
      else (case XRange (arg arr 1) (arg arr 2) (arg arr 3) w of
              Inl err \<Rightarrow> finish (writeErr c (err_text e err) w)
            | Inr entries \<Rightarrow>
                and_then (conn_write c (array_header (length entries)) w) (write_entries c entries)))"

section \<open>XREAD\<close>

text \<open>
  The arguments: the timeout of a blocking call, the keys and the IDs, or the error reply.
  \<open>rem\<close> is what follows the token \<open>STREAMS\<close>.
\<close>

definition split_streams :: "int option \<Rightarrow> resp list \<Rightarrow> string + int option \<times> string list \<times> string list"
where
  "split_streams block rem =
     (if rem = [] \<or> odd (length rem) then Inl ''syntax error''
      else
        let n = length rem div 2
        in (case all_strings (take n rem) of
              None \<Rightarrow> Inl ''XREAD keys must be strings''
            | Some keys \<Rightarrow>
                (case all_strings (drop n rem) of
                   None \<Rightarrow> Inl ''XREAD ids must be strings''
                 | Some rawIds \<Rightarrow> Inr (block, keys, rawIds))))"

definition streams_from ::
  "int option \<Rightarrow> nat \<Rightarrow> resp list \<Rightarrow> string + int option \<times> string list \<times> string list" where
  "streams_from block idx arr =
     (case asString (arr ! idx) of
        (token2, ok) \<Rightarrow>
          if \<not> ok \<or> ToUpper token2 \<noteq> ''STREAMS'' then Inl ''syntax error''
          else split_streams block (drop (Suc idx) arr))"

definition xread_args :: "resp list \<Rightarrow> string + int option \<times> string list \<times> string list" where
  "xread_args arr =
     (if length arr < 4 then Inl (wrong_args ''XREAD'')
      else (case asString (arr ! 1) of
              (_, False) \<Rightarrow> Inl ''syntax error''
            | (token1, True) \<Rightarrow>
                if ToUpper token1 = ''BLOCK'' then
                  (if length arr < 6 then Inl (wrong_args ''XREAD'')
                   else (case asString (arr ! 2) of
                           (_, False) \<Rightarrow> Inl ''syntax error''
                         | (timeoutStr, True) \<Rightarrow>
                             (case Atoi timeoutStr of
                                (_, Some err) \<Rightarrow> Inl ''syntax error''
                              | (t, None) \<Rightarrow> streams_from (Some t) 3 arr)))
                else streams_from None 1 arr))"

text \<open>The ID of the last entry, and 0-0 where there is none.\<close>

definition top_of :: "cached option \<Rightarrow> string" where
  "top_of v =
     (case v of
        Some (VStream entries) \<Rightarrow> if entries = [] then ''0-0'' else entryID (last entries)
      | _ \<Rightarrow> ''0-0'')"

text \<open>A call that does not block asks \<open>Get\<close> for the top of a stream, key by key.\<close>

fun resolve_ids :: "int \<Rightarrow> (string \<times> string) list \<Rightarrow> world \<Rightarrow> world \<times> string list" where
  "resolve_ids t [] w = (w, [])"
| "resolve_ids t ((key, rawId) # rest) w =
     (if rawId = ''$'' then
        (case Get t key w of
           (w1, v) \<Rightarrow> (case resolve_ids t rest w1 of (w2, ids) \<Rightarrow> (w2, top_of v # ids)))
      else (case resolve_ids t rest w of (w2, ids) \<Rightarrow> (w2, rawId # ids)))"

fun write_streams :: "conn \<Rightarrow> string list \<Rightarrow> (string, stream_entry list) gomap \<Rightarrow> world \<Rightarrow> result" where
  "write_streams c [] data w = finish w"
| "write_streams c (k # keys) data w =
     and_then (conn_write c (''*2'' @ crlf) w) (\<lambda>w.
     and_then (conn_write c (array_header (length (mget_list data k))) (writeBulkString c k w)) (\<lambda>w.
     and_then (write_entries c (mget_list data k) w) (write_streams c keys data)))"

definition write_xread ::
  "conn \<Rightarrow> string list \<Rightarrow> (string, stream_entry list) gomap \<Rightarrow> world \<Rightarrow> result" where
  "write_xread c keys data w =
     and_then (conn_write c (array_header (length keys)) w) (write_streams c keys data)"

definition xread_now :: "env \<Rightarrow> conn \<Rightarrow> string list \<Rightarrow> string list \<Rightarrow> world \<Rightarrow> result" where
  "xread_now e c keys rawIds w =
     (case resolve_ids (now e) (zip keys rawIds) w of
        (w1, ids) \<Rightarrow>
          (case XRead keys ids w1 of
             Inl err \<Rightarrow> finish (writeErr c (err_text e err) w1)
           | Inr data \<Rightarrow> write_xread c keys data w1))"

text \<open>The tops are taken from the cache as it is, expired or not, and the channel is registered.\<close>

definition register_reader :: "string list \<Rightarrow> nat \<Rightarrow> world \<Rightarrow> world" where
  "register_reader keys ch w = fold (\<lambda>k. add_waiter k ch) keys w"

definition clean_up_reader :: "string list \<Rightarrow> nat \<Rightarrow> world \<Rightarrow> world" where
  "clean_up_reader keys ch w = fold (\<lambda>k. CleanUpExpiredKeyWaiter k ch) keys w"

definition idsToUse :: "string list \<Rightarrow> string list \<Rightarrow> world \<Rightarrow> string list" where
  "idsToUse keys rawIds w =
     map (\<lambda>(k, rawId). if rawId = ''$'' then top_of (mget (cache w) k) else rawId) (zip keys rawIds)"

text \<open>If there is something to read at once, the channel stays registered.\<close>

definition xread_block ::
  "env \<Rightarrow> conn \<Rightarrow> int \<Rightarrow> string list \<Rightarrow> string list \<Rightarrow> world \<Rightarrow> result" where
  "xread_block e c timeoutMs keys rawIds w =
     (let ch = next_chan w;
          ids = idsToUse keys rawIds w;
          w1 = register_reader keys ch (w\<lparr>next_chan := ch + 1\<rparr>)
      in (case XRead keys ids w1 of
            Inl err \<Rightarrow> finish (writeErr c (err_text e err) (clean_up_reader keys ch w1))
          | Inr data \<Rightarrow>
              if list_ex (\<lambda>k. mget_list data k \<noteq> []) keys then write_xread c keys data w1
              else (w1, Waiting (WaitStream keys ids ch
                     (if timeoutMs = 0 then None else Some (now e + millis timeoutMs))) [])))"

definition handleXREAD :: "env \<Rightarrow> conn \<Rightarrow> resp list \<Rightarrow> world \<Rightarrow> result" where
  "handleXREAD e c arr w =
     (case xread_args arr of
        Inl msg \<Rightarrow> finish (writeErr c msg w)
      | Inr (None, keys, rawIds) \<Rightarrow> xread_now e c keys rawIds w
      | Inr (Some timeoutMs, keys, rawIds) \<Rightarrow> xread_block e c timeoutMs keys rawIds w)"

text \<open>The two ways a waiting \<open>XREAD\<close> goes on: anything arrives on its channel, or time is up.\<close>

definition XREAD_wake :: "env \<Rightarrow> conn \<Rightarrow> string list \<Rightarrow> string list \<Rightarrow> nat \<Rightarrow> world \<Rightarrow> result" where
  "XREAD_wake e c keys ids ch w =
     (let w1 = clean_up_reader keys ch w
      in (case XRead keys ids w1 of
            Inl err \<Rightarrow> finish (writeErr c (err_text e err) w1)
          | Inr data \<Rightarrow> write_xread c keys data w1))"

definition XREAD_timeout :: "conn \<Rightarrow> string list \<Rightarrow> nat \<Rightarrow> world \<Rightarrow> result" where
  "XREAD_timeout c keys ch w = conn_write c (''*-1'' @ crlf) (clean_up_reader keys ch w)"

end
