(* ===== verification/HandlersGeo.thy ===== *)
theory HandlersGeo
  imports HandlersData
begin

text \<open>
  Command handlers (\<open>app/commands.go\<close>), fourth part: positions, kept as the scores of a sorted set.
  Coordinates that are out of range stop \<open>GEOADD\<close>; the positions before them stay.
\<close>

definition off_the_map :: "float64 \<Rightarrow> float64 \<Rightarrow> bool" where
  "off_the_map longitude latitude \<longleftrightarrow>
     f_less longitude MIN_LONGITUDE \<or> f_less MAX_LONGITUDE longitude \<or>
     f_less latitude MIN_LATITUDE \<or> f_less MAX_LATITUDE latitude"

definition geo_score :: "env \<Rightarrow> float64 \<Rightarrow> float64 \<Rightarrow> float64" where
  "geo_score e latitude longitude = f_of_int (uint (encode (hw e) latitude longitude))"

fun geoadd_loop :: "env \<Rightarrow> string \<Rightarrow> resp list \<Rightarrow> int \<Rightarrow> world \<Rightarrow> world \<times> (string + int)" where
  "geoadd_loop e key (lonArg # latArg # memberArg # rest) added w =
     (case (ParseFloat (asStringOrEmpty lonArg), ParseFloat (asStringOrEmpty latArg)) of
        (Some longitude, Some latitude) \<Rightarrow>
          if off_the_map longitude latitude
          then (w, Inl (''invalid longitude,latitude pair '' @ FormatFixed 8 longitude @ '','' @
                  FormatFixed 6 latitude))
          else (case ZAdd key (geo_score e latitude longitude) (asStringOrEmpty memberArg) w of
                  (w1, n) \<Rightarrow> geoadd_loop e key rest (added + n) w1)
      | _ \<Rightarrow> (w, Inl ''invalid longitude or latitude''))"
| "geoadd_loop e key _ added w = (w, Inr added)"

definition handleGEOADD :: "env \<Rightarrow> conn \<Rightarrow> resp list \<Rightarrow> world \<Rightarrow> result" where
  "handleGEOADD e c arr w =
     (if length arr < 5 \<or> (length arr - 2) mod 3 \<noteq> 0 then finish (writeErr c (wrong_args ''GEOADD'') w)
      else (case geoadd_loop e (arg arr 1) (drop 2 arr) 0 w of
              (w1, Inl msg) \<Rightarrow> finish (writeErr c msg w1)
            | (w1, Inr addedCount) \<Rightarrow> finish (writeInteger c addedCount w1)))"

text \<open>The score of a member that is a string and in the set.\<close>

definition member_score :: "string \<Rightarrow> resp \<Rightarrow> world \<Rightarrow> float64 option" where
  "member_score key v w =
     (case asString v of (member, True) \<Rightarrow> getZscoreValue key member w | (_, False) \<Rightarrow> None)"

fun write_positions :: "env \<Rightarrow> conn \<Rightarrow> string \<Rightarrow> resp list \<Rightarrow> world \<Rightarrow> result" where
  "write_positions e c key [] w = finish w"
| "write_positions e c key (v # vs) w =
     (case member_score key v w of
        None \<Rightarrow> and_then (conn_write c (''*-1'' @ crlf) w) (write_positions e c key vs)
      | Some score \<Rightarrow>
          let coordinates = decode (to_u64 (hw e) score)
          in and_then (conn_write c (''*2'' @ crlf) w) (\<lambda>w.
               write_positions e c key vs
                 (writeBulkString c (FormatFloat (Latitude coordinates))
                   (writeBulkString c (FormatFloat (Longitude coordinates)) w))))"

definition handleGEOPOS :: "env \<Rightarrow> conn \<Rightarrow> resp list \<Rightarrow> world \<Rightarrow> result" where
  "handleGEOPOS e c arr w =
     (if length arr < 3 then finish (writeErr c (wrong_args ''GEOPOS'') w)
      else and_then (conn_write c (array_header (length arr - 2)) w)
             (write_positions e c (arg arr 1) (drop 2 arr)))"

definition handleGEODIST :: "env \<Rightarrow> conn \<Rightarrow> resp list \<Rightarrow> world \<Rightarrow> result" where
  "handleGEODIST e c arr w =
     (if length arr < 4 then finish (writeErr c (wrong_args ''GEODIST'') w)
      else (case (getZscoreValue (arg arr 1) (arg arr 2) w, getZscoreValue (arg arr 1) (arg arr 3) w) of
              (Some score1, Some score2) \<Rightarrow>
                let coord1 = decode (to_u64 (hw e) score1);
                    coord2 = decode (to_u64 (hw e) score2);
                    distance = haversineDistanceMeters (hw e) (Latitude coord1) (Longitude coord1)
                      (Latitude coord2) (Longitude coord2)
                in finish (writeBulkString c (FormatFloat distance) w)
            | _ \<Rightarrow> finish (writeNullBulk c w)))"

definition unit_factor :: "string \<Rightarrow> float64" where
  "unit_factor unit =
     (if unit = ''km'' then f_const 1000 1
      else if unit = ''mi'' then f_const 1609344 1000
      else if unit = ''ft'' then f_const 3048 10000
      else f_const 1 1)"

definition within :: "env \<Rightarrow> float64 \<Rightarrow> float64 \<Rightarrow> float64 \<Rightarrow> float64 \<Rightarrow> bool" where
  "within e latitude longitude maxDistance score =
     (let coords = decode (to_u64 (hw e) score)
      in f_le (haversineDistanceMeters (hw e) (Latitude coords) (Longitude coords) latitude longitude)
           maxDistance)"

definition handleGEOSEARCH :: "env \<Rightarrow> conn \<Rightarrow> resp list \<Rightarrow> world \<Rightarrow> result" where
  "handleGEOSEARCH e c arr w =
     (if length arr < 8 then finish (writeErr c (wrong_args ''GEOSEARCH'') w)
      else
        let s = (\<lambda>i. asStringOrEmpty (arr ! i)); fail = (\<lambda>msg. finish (writeErr c msg w))
        in if ToUpper (s 2) \<noteq> ''FROMLONLAT'' then fail ''unsupported GEOSEARCH mode''
           else (case (ParseFloat (s 3), ParseFloat (s 4)) of
                   (Some longitude, Some latitude) \<Rightarrow>
                     if ToUpper (s 5) \<noteq> ''BYRADIUS'' then fail ''unsupported GEOSEARCH option''
                     else (case ParseFloat (s 6) of
                             None \<Rightarrow> fail ''invalid radius''
                           | Some radius \<Rightarrow>
                               let maxDistance = f_mul radius (unit_factor (ToLower (s 7)))
                               in (case Get (now e) (arg arr 1) w of
                                     (w1, Some (VZSet zset)) \<Rightarrow>
                                       finish (writeArrayResponse c
                                         (map fst (filter (\<lambda>(member, score).
                                            within e latitude longitude maxDistance score) zset)) w1)
                                   | (w1, _) \<Rightarrow> finish (writeArrayResponse c [] w1)))
                 | _ \<Rightarrow> fail ''invalid longitude or latitude''))"

end
