(* ===== verification/HandlersTx.thy ===== *)
theory HandlersTx
  imports HandlersGeo
begin

text \<open>
  Command handlers (\<open>app/commands.go\<close>), fifth part: channels and transactions. \<open>EXEC\<close> hands its
  queue back to the dispatcher, so its last part is a parameter here. Where the source logs
  the address of a connection without checking it, a nil connection panics.
\<close>

section \<open>Channels\<close>

definition subscription_reply :: "string \<Rightarrow> string \<Rightarrow> int \<Rightarrow> string" where
  "subscription_reply kind channel n =
     ''*3'' @ crlf @ bulk kind @ bulk channel @ '':'' @ Itoa n @ crlf"

fun subscription_loop ::
  "(conn \<Rightarrow> string \<Rightarrow> world \<Rightarrow> world \<times> int) \<Rightarrow> string \<Rightarrow> conn \<Rightarrow> resp list \<Rightarrow> world \<Rightarrow> result" where
  "subscription_loop change kind c [] w = finish w"
| "subscription_loop change kind c (v # vs) w =
     (case asString v of
        (_, False) \<Rightarrow> subscription_loop change kind c vs w
      | (channel, True) \<Rightarrow>
          (case change c channel w of
             (w1, subCount) \<Rightarrow>
               and_then (remote_addr c w1) (\<lambda>w.
               and_then (conn_write c (subscription_reply kind channel subCount) w)
                 (subscription_loop change kind c vs))))"

definition handleSUBSCRIBE :: "conn \<Rightarrow> resp list \<Rightarrow> world \<Rightarrow> result" where
  "handleSUBSCRIBE c arr w =
     (if length arr < 2 then finish (writeErr c (wrong_args ''SUBSCRIBE'') w)
      else subscription_loop Subscribe ''subscribe'' c (drop 1 arr) w)"

definition handleUNSUBSCRIBE :: "conn \<Rightarrow> resp list \<Rightarrow> world \<Rightarrow> result" where
  "handleUNSUBSCRIBE c arr w =
     (if length arr < 2 then finish (writeErr c (wrong_args ''UNSUBSCRIBE'') w)
      else subscription_loop Unsubscribe ''unsubscribe'' c (drop 1 arr) w)"

text \<open>The length is compared with 2, not 3: without a message the access \<open>arr[2]\<close> panics.\<close>

definition handlePUBLISH :: "conn \<Rightarrow> resp list \<Rightarrow> world \<Rightarrow> result" where
  "handlePUBLISH c arr w =
     (if length arr < 2 then finish (writeErr c (wrong_args ''PUBLISH'') w)
      else if length arr < 3 then (w, Panic)
      else (case PublishMessageOnChannel (arg arr 1) (arg arr 2) w of
              (w1, publishCnt) \<Rightarrow> finish (writeInteger c publishCnt w1)))"

section \<open>Transactions\<close>

definition handleMULTI :: "conn \<Rightarrow> resp list \<Rightarrow> world \<Rightarrow> result" where
  "handleMULTI c arr w =
     (if length arr \<noteq> 1 then finish (writeErr c (wrong_args ''MULTI'') w)
      else (case StartTx c w of
              (w1, started) \<Rightarrow>
                and_then (remote_addr c w1) (\<lambda>w.
                  finish (if started then writeOK c w
                          else writeErr c ''ERR MULTI calls can not be nested'' w))))"

definition handleEXEC ::
  "(resp list list \<Rightarrow> world \<Rightarrow> result) \<Rightarrow> conn \<Rightarrow> resp list \<Rightarrow> world \<Rightarrow> result" where
  "handleEXEC run_all c arr w =
     (if length arr \<noteq> 1 then finish (writeErr c (wrong_args ''EXEC'') w)
      else (case GetAndClearTx c w of
              (w1, queue, wasInTx) \<Rightarrow>
                if \<not> wasInTx then
                  and_then (remote_addr c w1) (\<lambda>w. finish (writeErr c ''EXEC without MULTI'' w))
                else
                  let isDirty = IsDirty c w1;
                      w2 = Unwatch c w1
                  in if isDirty then
                       and_then (remote_addr c w2) (conn_write c (''*-1'' @ crlf))
                     else if queue = [] then
                       and_then (remote_addr c w2) (conn_write c (''*0'' @ crlf))
                     else and_then (conn_write c (array_header (length queue)) w2) (run_all queue)))"

definition handleDISCARD :: "conn \<Rightarrow> resp list \<Rightarrow> world \<Rightarrow> result" where
  "handleDISCARD c arr w =
     (if length arr \<noteq> 1 then finish (writeErr c (wrong_args ''DISCARD'') w)
      else if \<not> IsInTx c w then
        and_then (remote_addr c w) (\<lambda>w. finish (writeErr c ''DISCARD without MULTI'' w))
      else
        and_then (remote_addr c (Unwatch c (ClearTx c w))) (\<lambda>w. finish (writeOK c w)))"

definition handleWATCH :: "conn \<Rightarrow> resp list \<Rightarrow> world \<Rightarrow> result" where
  "handleWATCH c arr w =
     (if length arr < 2 then finish (writeErr c (wrong_args ''WATCH'') w)
      else if IsInTx c w then finish (writeErr c ''WATCH inside MULTI is not allowed'' w)
      else and_then (remote_addr c w) (\<lambda>w.
             finish (writeOK c (Watch c (strings_of (drop 1 arr)) w))))"

definition handleUNWATCH :: "conn \<Rightarrow> resp list \<Rightarrow> world \<Rightarrow> result" where
  "handleUNWATCH c arr w =
     (if length arr \<noteq> 1 then finish (writeErr c (wrong_args ''UNWATCH'') w)
      else and_then (remote_addr c w) (\<lambda>w. finish (writeOK c (Unwatch c w))))"

end
