(* ===== verification/Dispatch.thy ===== *)
theory Dispatch
  imports HandlersTx
begin

text \<open>
  \<open>handleCommand\<close> (\<open>app/commands.go\<close>): the gates in front of the handlers, for clients that have
  not given a password, that are subscribed to a channel or that have a transaction open, and
  the dispatch on the command's name. \<open>EXEC\<close> calls \<open>handleCommand\<close> again for the commands of
  its queue, so the definition has a depth; two levels are enough, as \<open>system_invariant\<close>
  shows, because no \<open>EXEC\<close> is ever queued.
\<close>

text \<open>The name in upper case; nothing for an empty command or one that starts with no string.\<close>

definition command_name :: "resp list \<Rightarrow> string option" where
  "command_name arr =
     (case arr of
        [] \<Rightarrow> None
      | v # _ \<Rightarrow> (case asString v of (cmdRaw, True) \<Rightarrow> Some (ToUpper cmdRaw) | (_, False) \<Rightarrow> None))"

section \<open>Gates\<close>

definition authRequired :: "env \<Rightarrow> world \<Rightarrow> bool" where
  "authRequired e w \<longleftrightarrow> requirepass (cfg e) \<noteq> [] \<or> 0 < length (defaultUserPasswords w)"

text \<open>A client that comes while no password is set stays authenticated.\<close>

definition let_in :: "env \<Rightarrow> conn \<Rightarrow> world \<Rightarrow> world" where
  "let_in e c w = (if \<not> authRequired e w \<and> \<not> IsAuthenticated c w then Authenticate c w else w)"

definition subscribed_commands :: "string list" where
  "subscribed_commands =
     [''SUBSCRIBE'', ''UNSUBSCRIBE'', ''PSUBSCRIBE'', ''PUNSUBSCRIBE'', ''PING'', ''QUIT'', ''RESET'']"

definition subscribed_error :: "string \<Rightarrow> string" where
  "subscribed_error cmd =
     ''Can'' @ [CHR 0x27] @ ''t execute '' @ quotes (ToLower cmd) @
     '': only (P|S)SUBSCRIBE / (P|S)UNSUBSCRIBE / PING / QUIT / RESET are allowed in this context''"

definition tx_commands :: "string list" where
  "tx_commands = [''EXEC'', ''DISCARD'', ''MULTI'', ''QUIT'', ''WATCH'']"

section \<open>Dispatch\<close>

text \<open>The commands of a queue one after the other; those behind one that waits are kept.\<close>

fun run_queue :: "(resp list \<Rightarrow> world \<Rightarrow> result) \<Rightarrow> resp list list \<Rightarrow> world \<Rightarrow> result" where
  "run_queue h [] w = finish w"
| "run_queue h (cmdArr # queue) w =
     (case h cmdArr w of
        (w1, Done) \<Rightarrow> run_queue h queue w1
      | (w1, Waiting wt rest) \<Rightarrow> (w1, Waiting wt (rest @ queue))
      | (w1, sig) \<Rightarrow> (w1, sig))"

text \<open>The cases of the \<open>switch\<close>; \<open>run_all\<close> is what \<open>EXEC\<close> does with its queue.\<close>

definition handlers ::
  "(resp list list \<Rightarrow> world \<Rightarrow> result) \<Rightarrow> env \<Rightarrow> conn \<Rightarrow> (string \<times> (resp list \<Rightarrow> world \<Rightarrow> result)) list"
where
  "handlers run_all e c =
     [(''AUTH'', handleAUTH e c), (''PING'', handlePING c), (''REPLCONF'', handleREPLCONF c),
      (''WAIT'', handleWAIT e c), (''PSYNC'', \<lambda>arr. handlePSYNC e c), (''ECHO'', handleECHO c),
      (''SET'', handleSET e c), (''GET'', handleGET e c), (''LPUSH'', handleLPUSH e c),
      (''RPUSH'', handleRPUSH e c), (''LRANGE'', handleLRANGE e c), (''LLEN'', handleLLEN e c),
      (''LPOP'', handleLPOP e c), (''RPOP'', handleRPOP e c), (''BLPOP'', handleBLPOP e c),
      (''CONFIG'', handleCONFIG e c), (''KEYS'', handleKEYS c), (''ZADD'', handleZADD e c),
      (''ZRANGE'', handleZRANGE c), (''ZRANK'', handleZRANK c), (''ZCARD'', handleZCARD c),
      (''XADD'', handleXADD e c), (''ZSCORE'', handleZSCORE c), (''ZREM'', handleZREM c),
      (''SUBSCRIBE'', handleSUBSCRIBE c), (''PUBLISH'', handlePUBLISH c),
      (''UNSUBSCRIBE'', handleUNSUBSCRIBE c), (''INCR'', handleINCR e c),
      (''MULTI'', handleMULTI c), (''EXEC'', handleEXEC run_all c), (''DISCARD'', handleDISCARD c),
      (''WATCH'', handleWATCH c), (''UNWATCH'', handleUNWATCH c), (''TYPE'', handleTYPE e c),
      (''XRANGE'', handleXRANGE e c), (''XREAD'', handleXREAD e c), (''GEOADD'', handleGEOADD e c),
      (''GEOPOS'', handleGEOPOS e c), (''GEODIST'', handleGEODIST e c),
      (''GEOSEARCH'', handleGEOSEARCH e c), (''INFO'', handleINFO e c), (''ACL'', handleACL e c)]"

definition dispatch ::
  "(resp list list \<Rightarrow> world \<Rightarrow> result) \<Rightarrow> env \<Rightarrow> conn \<Rightarrow> string \<Rightarrow> resp list \<Rightarrow> world \<Rightarrow> result" where
  "dispatch run_all e c cmd arr w =
     (case map_of (handlers run_all e c) cmd of
        Some h \<Rightarrow> h arr w
      | None \<Rightarrow> finish (writeErr c ''unknown command'' w))"

definition handle_with ::
  "(resp list list \<Rightarrow> world \<Rightarrow> result) \<Rightarrow> env \<Rightarrow> conn \<Rightarrow> resp list \<Rightarrow> world \<Rightarrow> result" where
  "handle_with run_all e c arr w =
     (case command_name arr of
        None \<Rightarrow> finish w
      | Some cmd \<Rightarrow>
          let w1 = let_in e c w
          in if authRequired e w1 \<and> \<not> IsAuthenticated c w1 \<and> cmd \<noteq> ''AUTH''
             then finish (writeErr c ''NOAUTH Authentication required.'' w1)
             else if c \<noteq> None \<and> IsSubscribed c w1 \<and> cmd \<notin> set subscribed_commands
             then finish (writeErr c (subscribed_error cmd) w1)
             else if c \<noteq> None \<and> IsInTx c w1 \<and> cmd \<notin> set tx_commands
             then conn_write c (''+QUEUED'' @ crlf) (QueueCommand c arr w1)
             else dispatch run_all e c cmd arr w1)"

primrec handle_at :: "nat \<Rightarrow> env \<Rightarrow> conn \<Rightarrow> resp list \<Rightarrow> world \<Rightarrow> result" where
  "handle_at 0 = (\<lambda>e c arr w. (w, TooDeep))"
| "handle_at (Suc d) = (\<lambda>e c arr w. handle_with (run_queue (handle_at d e c)) e c arr w)"

definition handleCommand :: "env \<Rightarrow> conn \<Rightarrow> resp list \<Rightarrow> world \<Rightarrow> result" where
  "handleCommand = handle_at 2"

text \<open>The rest of a transaction after one of its commands has waited.\<close>

definition continue_exec :: "env \<Rightarrow> conn \<Rightarrow> resp list list \<Rightarrow> world \<Rightarrow> result" where
  "continue_exec e c = run_queue (handle_at 1 e c)"

end
