(* ===== verification/Server.thy ===== *)
theory Server
  imports Dispatch
begin

text \<open>
  The loops that feed \<open>handleCommand\<close>: a client's connection (\<open>app/conn.go\<close>), the replay of the
  append-only file (\<open>app/aof.go\<close>), and start-up and replica side of \<open>main\<close> (\<open>app/server.go\<close>).
  A reader is the list of all bytes still to come on it; the end of the list is the end of the
  stream. The fuel of a loop is the number of these bytes, of which every turn consumes some.
\<close>

section \<open>A client's connection\<close>

text \<open>The deferred calls of \<open>handleConnection\<close>, the last one first.\<close>

definition disconnect :: "conn \<Rightarrow> world \<Rightarrow> world" where
  "disconnect c w = RemoveSubscriber c (ClearTx c (Unwatch c (RemoveAuth c (removeReplica c w))))"

text \<open>One turn of the loop: the bytes left, or the end of the connection.\<close>

datatype turn = Continue string | Hangup | Stop signal string

definition command_of :: "resp \<Rightarrow> resp list option" where
  "command_of v = (case v of RArr (a # rest) \<Rightarrow> Some (a # rest) | _ \<Rightarrow> None)"

definition connection_turn :: "env \<Rightarrow> conn \<Rightarrow> string \<Rightarrow> world \<Rightarrow> world \<times> turn" where
  "connection_turn e c inp w =
     (case ParseRESP inp of
        PErr err \<Rightarrow> (disconnect c w, Hangup)
      | PPanic \<Rightarrow> (w, Stop Panic inp)
      | PFuel \<Rightarrow> (w, Stop TooDeep inp)
      | POk val rest \<Rightarrow>
          (case command_of val of
             None \<Rightarrow> (w, Continue rest)
           | Some arr \<Rightarrow>
               (case handleCommand e c arr w of
                  (w1, Done) \<Rightarrow> (w1, Continue rest)
                | (w1, sig) \<Rightarrow> (w1, Stop sig rest))))"

text \<open>The whole loop, for a client that is alone and never has to wait.\<close>

fun connection_loop :: "nat \<Rightarrow> env \<Rightarrow> conn \<Rightarrow> string \<Rightarrow> world \<Rightarrow> world \<times> turn" where
  "connection_loop 0 e c inp w = (w, Continue inp)"
| "connection_loop (Suc fuel) e c inp w =
     (case connection_turn e c inp w of
        (w1, Continue rest) \<Rightarrow> connection_loop fuel e c rest w1
      | (w1, t) \<Rightarrow> (w1, t))"

definition handleConnection :: "env \<Rightarrow> conn \<Rightarrow> string \<Rightarrow> world \<Rightarrow> world \<times> turn" where
  "handleConnection e c inp w = connection_loop (Suc (length inp)) e c inp w"

section \<open>Replaying the append-only file\<close>

datatype replay_end = Replayed | ReplayError aof_err | Interrupted signal

fun replay_loop :: "nat \<Rightarrow> env \<Rightarrow> string \<Rightarrow> world \<Rightarrow> world \<times> replay_end" where
  "replay_loop 0 e inp w = (w, Interrupted TooDeep)"
| "replay_loop (Suc fuel) e inp w =
     (case ParseRESP inp of
        PErr err \<Rightarrow> (w, if err_is_EOF err then Replayed else ReplayError (LogError err))
      | PPanic \<Rightarrow> (w, Interrupted Panic)
      | PFuel \<Rightarrow> (w, Interrupted TooDeep)
      | POk val rest \<Rightarrow>
          (case command_of val of
             None \<Rightarrow> replay_loop fuel e rest w
           | Some arr \<Rightarrow>
               (case handleCommand e None arr w of
                  (w1, Done) \<Rightarrow> replay_loop fuel e rest w1
                | (w1, sig) \<Rightarrow> (w1, Interrupted sig))))"

definition replay_bytes :: "env \<Rightarrow> string \<Rightarrow> world \<Rightarrow> world \<times> replay_end" where
  "replay_bytes e inp w = replay_loop (Suc (length inp)) e inp w"

definition replayAOFCommands :: "env \<Rightarrow> world \<Rightarrow> world \<times> replay_end" where
  "replayAOFCommands e w =
     (if appendonly (cfg e) \<noteq> ''yes'' then (w, Replayed)
      else (case readAOFFilePathFromManifest (io e) (cfg e) (files w) of
              Inl err \<Rightarrow> (w, ReplayError err)
            | Inr path \<Rightarrow>
                (case (if io e Open path then None else mget (files w) path) of
                   None \<Rightarrow> (w, ReplayError OpenFailed)
                 | Some content \<Rightarrow> replay_bytes e content w)))"

section \<open>Start-up\<close>

definition initial_world :: "(string, cached) gomap \<Rightarrow> (string, int) gomap \<Rightarrow> files \<Rightarrow> world" where
  "initial_world data expi fs =
     store.extend (NewStore data expi)
       \<lparr>replicas = [], masterOffset = 0, replicaOffsets = [], defaultUserPasswords = [], files = fs,
        chans = [], next_chan = 0, sent = []\<rparr>"

text \<open>The snapshot, if one is configured, then the log. An error of the log ends the process.\<close>

definition start_data :: "env \<Rightarrow> files \<Rightarrow> rdb_data" where
  "start_data e fs =
     (if dir (cfg e) \<noteq> [] \<and> dbfilename (cfg e) \<noteq> []
      then let path = Join [dir (cfg e), dbfilename (cfg e)]
           in LoadRDB (if io e Open path then None else mget fs path)
      else ([], []))"

definition main_start :: "env \<Rightarrow> files \<Rightarrow> world \<times> replay_end" where
  "main_start e fs =
     (case start_data e fs of
        (data, expi) \<Rightarrow>
          if appendonly (cfg e) = ''yes'' then
            (case ensureAOFState (io e) (cfg e) fs of
               (fs1, Inl err) \<Rightarrow> (initial_world data expi fs1, ReplayError err)
             | (fs1, Inr _) \<Rightarrow> replayAOFCommands e (initial_world data expi fs1))
          else (initial_world data expi fs, Replayed))"

section \<open>The replica side\<close>

definition command_bytes :: "string list \<Rightarrow> string" where
  "command_bytes ws = array_header (length ws) @ concat (map bulk ws)"

text \<open>The messages of the handshake; an answer is awaited after each but the last.\<close>

definition handshake_messages :: "string \<Rightarrow> string list" where
  "handshake_messages replicaPort =
     [command_bytes [''PING''],
      command_bytes [''REPLCONF'', ''listening-port'', replicaPort],
      command_bytes [''REPLCONF'', ''capa'', ''psync2''],
      command_bytes [''PSYNC'', ''?'', ''-1'']]"

text \<open>What has been written so far, and what remains of the master's stream after the last answer.\<close>

fun send_and_await :: "string list \<Rightarrow> string \<Rightarrow> string list \<times> string option" where
  "send_and_await [] inp = ([], Some inp)"
| "send_and_await [m] inp = ([m], Some inp)"
| "send_and_await (m # ms) inp =
     (case ParseRESP inp of
        POk v rest \<Rightarrow> (case send_and_await ms rest of (out, r) \<Rightarrow> (m # out, r))
      | _ \<Rightarrow> ([m], None))"

definition performReplicaHandshake ::
  "string \<Rightarrow> string \<Rightarrow> string \<Rightarrow> string \<Rightarrow> string list \<times> string option" where
  "performReplicaHandshake host masterPort replicaPort inp =
     (if host = [] \<or> masterPort = [] \<or> replicaPort = [] then ([], None)
      else send_and_await (handshake_messages replicaPort) inp)"

text \<open>The answer to \<open>PSYNC\<close> and the snapshot behind it, which is skipped.\<close>

definition skip_snapshot :: "string \<Rightarrow> string pres" where
  "skip_snapshot inp =
     (case ParseRESP inp of
        PErr e \<Rightarrow> PErr e | PPanic \<Rightarrow> PPanic | PFuel \<Rightarrow> PFuel
      | POk v r1 \<Rightarrow>
          (case ReadString LF r1 of
             None \<Rightarrow> PErr EOF
           | Some (line, r2) \<Rightarrow>
               if \<not> prefix ''$'' line then PErr (ErrText line)
               else (case Atoi (TrimSpace (drop 1 line)) of
                       (_, Some err) \<Rightarrow> PErr (NumError err)
                     | (n, None) \<Rightarrow>
                         if n < 0 \<or> max_alloc < n then PPanic
                         else if length r2 < nat n then PErr (if r2 = [] then EOF else UnexpectedEOF)
                         else POk (take (nat n) r2) (drop (nat n) r2))))"

definition is_GETACK :: "resp list \<Rightarrow> bool" where
  "is_GETACK arr \<longleftrightarrow>
     ToUpper (asStringOrEmpty (arr ! 0)) = ''REPLCONF'' \<and> 3 \<le> length arr \<and>
     ToUpper (arg arr 1) = ''GETACK''"

text \<open>
  The loop over the propagated commands: \<open>m\<close> is the connection to the master, the number the
  offset of the replica.
\<close>

fun replica_loop ::
  "nat \<Rightarrow> env \<Rightarrow> conn \<Rightarrow> string \<Rightarrow> int \<Rightarrow> world \<Rightarrow> world \<times> int \<times> replay_end" where
  "replica_loop 0 e m inp off w = (w, off, Interrupted TooDeep)"
| "replica_loop (Suc fuel) e m inp off w =
     (case ParseRESP inp of
        PErr err \<Rightarrow> (w, off, Replayed)
      | PPanic \<Rightarrow> (w, off, Interrupted Panic)
      | PFuel \<Rightarrow> (w, off, Interrupted TooDeep)
      | POk val rest \<Rightarrow>
          (case command_of val of
             None \<Rightarrow> replica_loop fuel e m rest off w
           | Some arr \<Rightarrow>
               let off1 = wrap64 (off + int (length (encodeRESPArray arr)))
               in if is_GETACK arr
                  then replica_loop fuel e m rest off1
                         (writeArrayResponse m [''REPLCONF'', ''ACK'', Itoa off] w)
                  else (case handleCommand e None arr w of
                          (w1, Done) \<Rightarrow> replica_loop fuel e m rest off1 w1
                        | (w1, sig) \<Rightarrow> (w1, off, Interrupted sig))))"

definition replicate_from :: "env \<Rightarrow> conn \<Rightarrow> string \<Rightarrow> world \<Rightarrow> world \<times> int \<times> replay_end" where
  "replicate_from e m inp w = replica_loop (Suc (length inp)) e m inp 0 w"

end
