(* ===== verification/System.thy ===== *)
theory System
  imports Server
begin

text \<open>
  The server as a whole: clients whose commands interleave, clients that wait, goroutines that
  have been started and not yet run, and the clock. An event is one turn of a client's loop, the
  end of a wait, one goroutine, or time passing; a handler runs without interruption until it
  ends or waits. The order of the events is free, so a reachable state is what any scheduling
  of the goroutines can bring about.

  A panic ends the process. A handler that blocks or returns with the store's mutex held ends
  the model's run as well: every later command would wait for the mutex.
\<close>

datatype client =
    Ready string
  | Blocked wait "resp list list" string
  | Gone

record system =
  state :: world
  clients :: "(nat, client) gomap"
  clock :: int
  halted :: "signal option"

datatype event =
    Accept nat string
  | Serve nat
  | Deliver nat
  | TimeUp nat
  | Run nat
  | Tick

definition at_time :: "env \<Rightarrow> system \<Rightarrow> env" where
  "at_time e s = e\<lparr>now := clock s\<rparr>"

text \<open>What becomes of a client whose handler has returned with a signal, \<open>rest\<close> to be read.\<close>

definition settle :: "nat \<Rightarrow> string \<Rightarrow> result \<Rightarrow> system \<Rightarrow> system" where
  "settle n rest r s =
     (case r of
        (w, Done) \<Rightarrow> s\<lparr>state := w, clients := mput n (Ready rest) (clients s)\<rparr>
      | (w, Waiting wt queue) \<Rightarrow> s\<lparr>state := w, clients := mput n (Blocked wt queue rest) (clients s)\<rparr>
      | (w, sig) \<Rightarrow> s\<lparr>state := w, halted := Some sig\<rparr>)"

definition serve :: "env \<Rightarrow> nat \<Rightarrow> string \<Rightarrow> system \<Rightarrow> system" where
  "serve e n inp s =
     (case connection_turn e (Some n) inp (state s) of
        (w, Continue rest) \<Rightarrow> settle n rest (w, Done) s
      | (w, Hangup) \<Rightarrow> s\<lparr>state := w, clients := mput n Gone (clients s)\<rparr>
      | (w, Stop sig rest) \<Rightarrow> settle n rest (w, sig) s)"

text \<open>A value is taken from the channel; of the two kinds of readers, \<open>XREAD\<close> ignores it.\<close>

definition take_value :: "nat \<Rightarrow> world \<Rightarrow> (world \<times> string) option" where
  "take_value ch w =
     (case mget (chans w) ch of
        None \<Rightarrow> None
      | Some v \<Rightarrow> Some (w\<lparr>chans := mdel ch (chans w)\<rparr>, v))"

definition woken :: "env \<Rightarrow> conn \<Rightarrow> wait \<Rightarrow> world \<Rightarrow> result option" where
  "woken e c wt w =
     (case wt of
        WaitPop key ch deadline \<Rightarrow> map_option (\<lambda>(w1, v). BLPOP_value c key v w1) (take_value ch w)
      | WaitStream keys ids ch deadline \<Rightarrow>
          map_option (\<lambda>(w1, v). XREAD_wake e c keys ids ch w1) (take_value ch w)
      | WaitAcks _ _ _ _ _ \<Rightarrow> poll_wait (now e) c wt w)"

definition timed_out :: "env \<Rightarrow> conn \<Rightarrow> wait \<Rightarrow> world \<Rightarrow> result option" where
  "timed_out e c wt w =
     (case wt of
        WaitPop key ch (Some d) \<Rightarrow> if d \<le> now e then Some (BLPOP_timeout c key ch w) else None
      | WaitStream keys ids ch (Some d) \<Rightarrow>
          if d \<le> now e then Some (XREAD_timeout c keys ch w) else None
      | _ \<Rightarrow> None)"

definition resume :: "env \<Rightarrow> (env \<Rightarrow> conn \<Rightarrow> wait \<Rightarrow> world \<Rightarrow> result option) \<Rightarrow> nat \<Rightarrow> system \<Rightarrow> system option"
where
  "resume e how n s =
     (case mget (clients s) n of
        Some (Blocked wt queue rest) \<Rightarrow>
          (case how e (Some n) wt (state s) of
             None \<Rightarrow> None
           | Some r \<Rightarrow> Some (settle n rest (and_then r (continue_exec e (Some n) queue)) s))
      | _ \<Rightarrow> None)"

text \<open>One goroutine: the cleanup of an expired key, a delivery to a channel or to a subscriber.\<close>

definition run_goroutine :: "int \<Rightarrow> goroutine \<Rightarrow> world \<Rightarrow> world option" where
  "run_goroutine t g w =
     (case g of
        Expire key due \<Rightarrow> if due \<le> t then Some (run_Expire t key w) else None
      | SendTo ch v \<Rightarrow>
          if mget (chans w) ch = None then Some (w\<lparr>chans := mput ch v (chans w)\<rparr>) else None
      | Push c msg \<Rightarrow> Some (writeArrayResponse c msg w))"

definition run_spawned :: "int \<Rightarrow> nat \<Rightarrow> world \<Rightarrow> world option" where
  "run_spawned t i w =
     (if i < length (spawned w)
      then run_goroutine t (spawned w ! i)
             (w\<lparr>spawned := take i (spawned w) @ drop (Suc i) (spawned w)\<rparr>)
      else None)"

definition step :: "env \<Rightarrow> event \<Rightarrow> system \<Rightarrow> system option" where
  "step e0 ev s =
     (let e = at_time e0 s
      in if halted s \<noteq> None then None
         else (case ev of
                 Accept n inp \<Rightarrow>
                   if mget (clients s) n = None
                   then Some (s\<lparr>clients := mput n (Ready inp) (clients s)\<rparr>) else None
               | Serve n \<Rightarrow>
                   (case mget (clients s) n of
                      Some (Ready inp) \<Rightarrow> Some (serve e n inp s)
                    | _ \<Rightarrow> None)
               | Deliver n \<Rightarrow> resume e woken n s
               | TimeUp n \<Rightarrow> resume e timed_out n s
               | Run i \<Rightarrow> map_option (\<lambda>w. s\<lparr>state := w\<rparr>) (run_spawned (clock s) i (state s))
               | Tick \<Rightarrow> Some (s\<lparr>clock := clock s + 1\<rparr>)))"

fun run_events :: "env \<Rightarrow> event list \<Rightarrow> system \<Rightarrow> system option" where
  "run_events e [] s = Some s"
| "run_events e (ev # evs) s = (case step e ev s of None \<Rightarrow> None | Some s' \<Rightarrow> run_events e evs s')"

inductive reachable :: "env \<Rightarrow> system \<Rightarrow> system \<Rightarrow> bool" for e :: env and s0 :: system where
  start: "reachable e s0 s0"
| event: "reachable e s0 s \<Longrightarrow> step e ev s = Some s' \<Longrightarrow> reachable e s0 s'"

definition booted :: "world \<Rightarrow> int \<Rightarrow> system" where
  "booted w t = \<lparr>state = w, clients = [], clock = t, halted = None\<rparr>"

lemma run_events_append:
  "run_events e (as @ bs) s = (case run_events e as s of None \<Rightarrow> None | Some s' \<Rightarrow> run_events e bs s')"
  by (induction as arbitrary: s) (simp_all split: option.split)

text \<open>Reachable are exactly the states some sequence of events leads to.\<close>

lemma reachable_run: "reachable e s0 s \<longleftrightarrow> (\<exists>evs. run_events e evs s0 = Some s)"
proof
  assume "reachable e s0 s"
  then show "\<exists>evs. run_events e evs s0 = Some s"
  proof induction
    case start
    have "run_events e [] s0 = Some s0" by simp
    then show ?case by blast
  next
    case (event s ev s')
    then obtain evs where "run_events e evs s0 = Some s" by blast
    with event have "run_events e (evs @ [ev]) s0 = Some s'" by (simp add: run_events_append)
    then show ?case by blast
  qed
next
  have "reachable e s0 s \<Longrightarrow> run_events e evs s = Some s' \<Longrightarrow> reachable e s0 s'" for evs s s'
    by (induction evs arbitrary: s) (auto split: option.splits intro: reachable.event)
  then show "\<exists>evs. run_events e evs s0 = Some s \<Longrightarrow> reachable e s0 s"
    using reachable.start by blast
qed

end
