(* ===== verification/WorldFacts.thy ===== *)
theory WorldFacts
  imports System
begin

text \<open>
  Well-formed worlds, and that every operation a handler uses keeps them so: sorted sets are
  maps with a member, no queue of waiting channels is empty, the two maps of the subscriptions
  hold no repetitions, a queued command is never one that \<open>handleCommand\<close> lets through a
  transaction, and channel numbers are below the counter.
\<close>

definition queue_ok :: "resp list \<Rightarrow> bool" where
  "queue_ok arr \<longleftrightarrow> (case command_name arr of None \<Rightarrow> False | Some cmd \<Rightarrow> cmd \<notin> set tx_commands)"

definition wf_queues :: "world \<Rightarrow> bool" where
  "wf_queues w \<longleftrightarrow> (\<forall>c q. mget (transactions w) c = Some q \<longrightarrow> list_all queue_ok q)"

definition wf_channels :: "world \<Rightarrow> bool" where
  "wf_channels w \<longleftrightarrow> (\<forall>k. list_all (\<lambda>ch. ch < next_chan w) (queue_at w k))"

definition wf_world :: "world \<Rightarrow> bool" where
  "wf_world w \<longleftrightarrow> wf_values w \<and> wf_waiters w \<and> wf_pubsub w \<and> wf_map (watchedKeys w) \<and>
     wf_queues w \<and> wf_channels w"

named_theorems keeps \<open>operations that keep a world well-formed\<close>

text \<open>Updates of the store's fields commute with a reply; they are normalised inside it.\<close>

lemma sent_last [simp]:
  "w\<lparr>sent := y, cache := x0\<rparr> = w\<lparr>cache := x0, sent := y\<rparr>"
  "w\<lparr>sent := y, waiters := x1\<rparr> = w\<lparr>waiters := x1, sent := y\<rparr>"
  "w\<lparr>sent := y, expiry := x2\<rparr> = w\<lparr>expiry := x2, sent := y\<rparr>"
  "w\<lparr>sent := y, pubsub := x3\<rparr> = w\<lparr>pubsub := x3, sent := y\<rparr>"
  "w\<lparr>sent := y, clientSubscriptions := x4\<rparr> = w\<lparr>clientSubscriptions := x4, sent := y\<rparr>"
  "w\<lparr>sent := y, transactions := x5\<rparr> = w\<lparr>transactions := x5, sent := y\<rparr>"
  "w\<lparr>sent := y, watchedKeys := x6\<rparr> = w\<lparr>watchedKeys := x6, sent := y\<rparr>"
  "w\<lparr>sent := y, dirtyClients := x7\<rparr> = w\<lparr>dirtyClients := x7, sent := y\<rparr>"
  "w\<lparr>sent := y, authenticatedClients := x8\<rparr> = w\<lparr>authenticatedClients := x8, sent := y\<rparr>"
  "w\<lparr>sent := y, spawned := x9\<rparr> = w\<lparr>spawned := x9, sent := y\<rparr>"
  for w :: world
  by (cases w; simp)+

section \<open>Operations of the store\<close>

text \<open>What an operation on the keyspace leaves alone.\<close>

definition same_rest :: "world \<Rightarrow> world \<Rightarrow> bool" where
  "same_rest w w' \<longleftrightarrow> pubsub w' = pubsub w \<and> clientSubscriptions w' = clientSubscriptions w \<and>
     transactions w' = transactions w \<and> watchedKeys w' = watchedKeys w \<and>
     authenticatedClients w' = authenticatedClients w \<and> store.more w' = store.more w"

lemma next_chan_more: "store.more w' = store.more w \<Longrightarrow> next_chan w' = next_chan w"
  by (cases w; cases w') simp

lemma wf_world_same_rest:
  "wf_world w \<Longrightarrow> same_rest w w' \<Longrightarrow> wf_values w' \<Longrightarrow> wf_waiters w' \<Longrightarrow>
     (\<And>k. set (queue_at w' k) \<subseteq> set (queue_at w k)) \<Longrightarrow> wf_world w'"
  using next_chan_more [of w' w]
  by (fastforce simp: wf_world_def same_rest_def wf_queues_def wf_channels_def wf_pubsub_def list_all_iff)

lemma notify_waiters_rest:
  "pubsub (notify_waiters k i s) = pubsub s"
  "clientSubscriptions (notify_waiters k i s) = clientSubscriptions s"
  "transactions (notify_waiters k i s) = transactions s"
  "watchedKeys (notify_waiters k i s) = watchedKeys s"
  "authenticatedClients (notify_waiters k i s) = authenticatedClients s"
  "store.more (notify_waiters k i s) = store.more s"
  by (simp_all add: notify_waiters_def split: option.split)

lemma exec_op_rest: "same_rest w (exec_op op w)"
  by (cases op) (auto simp: same_rest_def op_defs notify_waiters_rest split: op_splits)

lemma notify_waiters_wf:
  "wf_waiters s \<Longrightarrow> wf_waiters (notify_waiters k i s)"
  "queue_at (notify_waiters k i s) k' \<in> {queue_at s k', []}"
  by (auto simp: wf_waiters_def notify_waiters_def queue_at_def split: option.split)

lemma wf_waiters_cong: "waiters s' = waiters s \<Longrightarrow> wf_waiters s' = wf_waiters s"
  by (simp add: wf_waiters_def)

lemma exec_op_waiters:
  fixes w :: world
  shows "waiters (exec_op op w) = waiters w \<or>
     (\<exists>k i (s :: world). waiters (exec_op op w) = waiters (notify_waiters k i s) \<and> waiters s = waiters w)"
proof (cases op)
  case (OpXAdd now k sid fs)
  show ?thesis
  proof (cases "snd (XAdd now k sid fs w)")
    case (Inl err)
    then show ?thesis using OpXAdd by (auto simp: XAdd_def Let_def split: sum.splits)
  next
    case (Inr i)
    then obtain s :: world where "fst (XAdd now k sid fs w) = notify_waiters k i s" "waiters s = waiters w"
      by (auto simp: XAdd_def Let_def split: sum.splits)
    then show ?thesis using OpXAdd by auto
  qed
qed (auto simp: op_defs split: op_splits)

lemma wf_world_exec:
  assumes "wf_world w" and "op_before t op"
  shows "wf_world (exec_op op w)"
proof -
  have "wf_waiters (exec_op op w) \<and> (\<forall>k. set (queue_at (exec_op op w) k) \<subseteq> set (queue_at w k))"
    using exec_op_waiters [of op w]
  proof (elim disjE exE conjE)
    assume "waiters (exec_op op w) = waiters w"
    then show ?thesis
      using assms(1) wf_waiters_cong [of "exec_op op w" w] by (simp add: wf_world_def queue_at_def)
  next
    fix k i and s :: world
    assume eq: "waiters (exec_op op w) = waiters (notify_waiters k i s)" "waiters s = waiters w"
    then have "wf_waiters s" using assms(1) by (simp add: wf_world_def wf_waiters_def)
    then have "wf_waiters (exec_op op w)"
      using notify_waiters_wf(1) [of s k i] eq(1) by (simp add: wf_waiters_def)
    moreover have "set (queue_at (exec_op op w) k') \<subseteq> set (queue_at w k')" for k'
      using notify_waiters_wf(2) [of k i s k'] eq by (auto simp: queue_at_def)
    ultimately show ?thesis by blast
  qed
  moreover have "wf_values (exec_op op w)"
    using assms by (intro exec_op_wf_values [of w t]) (simp_all add: wf_world_def)
  ultimately show ?thesis
    using wf_world_same_rest [OF assms(1) exec_op_rest] by blast
qed

lemma wf_world_ops [keeps]:
  assumes "wf_world w"
  shows "wf_value v \<Longrightarrow> wf_world (Set k v w)" "wf_value v \<Longrightarrow> wf_world (SetWithTTL t k v ttl w)"
    "wf_world (fst (LPush k vs w))" "wf_world (fst (RPush k vs w))"
    "wf_world (fst (Incr k w))" "wf_world (fst (ZAdd k sc m w))" "wf_world (fst (ZRem k ms w))"
    "wf_world (fst (XAdd t k sid fs w))" "wf_world (fst (Get t k w))" "wf_world (run_Expire t k w)"
  using wf_world_exec [OF assms, of t "OpSet k v"] wf_world_exec [OF assms, of t "OpSetTTL t k v ttl"]
    wf_world_exec [OF assms, of t "OpLPush k vs"] wf_world_exec [OF assms, of t "OpRPush k vs"]
    wf_world_exec [OF assms, of t "OpIncr k"] wf_world_exec [OF assms, of t "OpZAdd k sc m"]
    wf_world_exec [OF assms, of t "OpZRem k ms"] wf_world_exec [OF assms, of t "OpXAdd t k sid fs"]
    wf_world_exec [OF assms, of t "OpGet t k"] wf_world_exec [OF assms, of "t + 1" "OpExpire t k"]
  by simp_all

lemma wf_world_pop_front:
  "wf_world w \<Longrightarrow> pop_front k w = Some (w', v) \<Longrightarrow> wf_world w'"
  using wf_world_exec [of w t "OpPop k"] by simp


section \<open>Other operations\<close>

lemmas wf_world_defs =
  wf_world_def wf_values_def wf_waiters_def wf_pubsub_def wf_queues_def wf_channels_def queue_at_def

lemma wf_world_update [simp]:
  "wf_world (w\<lparr>sent := x1\<rparr>) = wf_world w" "wf_world (w\<lparr>chans := x2\<rparr>) = wf_world w"
  "wf_world (w\<lparr>masterOffset := x3\<rparr>) = wf_world w" "wf_world (w\<lparr>replicas := x4\<rparr>) = wf_world w"
  "wf_world (w\<lparr>replicaOffsets := x5\<rparr>) = wf_world w" "wf_world (w\<lparr>files := x6\<rparr>) = wf_world w"
  "wf_world (w\<lparr>defaultUserPasswords := x7\<rparr>) = wf_world w" "wf_world (w\<lparr>spawned := x8\<rparr>) = wf_world w"
  "wf_world (w\<lparr>authenticatedClients := x9\<rparr>) = wf_world w"
  "wf_world (w\<lparr>dirtyClients := x10\<rparr>) = wf_world w"
  by (simp_all add: wf_world_defs)

lemma wf_world_auth [keeps]:
  "wf_world w \<Longrightarrow> wf_world (Authenticate c w)" "wf_world w \<Longrightarrow> wf_world (RemoveAuth c w)"
  by (simp_all add: Authenticate_def RemoveAuth_def)

lemma wf_world_replies [keeps]:
  assumes "wf_world w"
  shows "wf_world (reply c b w)" "wf_world (writeOK c w)" "wf_world (writeErr c m w)"
    "wf_world (writeNullBulk c w)" "wf_world (writeInteger c i w)" "wf_world (writeString c m w)"
    "wf_world (writeBulkString c m w)" "wf_world (writeArrayResponse c ms w)"
  using assms
  by (simp_all add: reply_def writeOK_def writeErr_def writeNullBulk_def writeInteger_def
      writeString_def writeBulkString_def writeArrayResponse_def)

lemma wf_world_replication [keeps]:
  assumes "wf_world w"
  shows "wf_world (addReplica c w)" "wf_world (removeReplica c w)" "wf_world (propagate arr w)"
    "wf_world (fst (persistWriteCommand e c arr w))"
  using assms
  by (auto simp: addReplica_def removeReplica_def propagate_def persistWriteCommand_def Let_def
      reply_def writeErr_def split: prod.split option.split)

lemma wf_world_add_waiter [keeps]:
  "wf_world w \<Longrightarrow> ch < next_chan w \<Longrightarrow> wf_world (add_waiter k ch w)"
  using wf_waiters_add [of w k ch] queue_add_waiter [of k ch w]
  by (auto simp: wf_world_def wf_values_def wf_pubsub_def wf_queues_def wf_channels_def)
     (auto simp: add_waiter_def)

lemma wf_world_new_chan [keeps]: "wf_world w \<Longrightarrow> next_chan w \<le> n \<Longrightarrow> wf_world (w\<lparr>next_chan := n\<rparr>)"
  by (fastforce simp: wf_world_defs list_all_iff)

lemma wf_world_waiters:
  assumes "wf_world w" and "wf_waiters w'" and "\<And>k. set (queue_at w' k) \<subseteq> set (queue_at w k)"
    and "w' = w\<lparr>waiters := ws\<rparr>"
  shows "wf_world w'"
proof -
  have "wf_channels w'"
    using assms(1,3) by (fastforce simp: wf_world_def wf_channels_def list_all_iff assms(4))
  then show ?thesis
    using assms(1,2) by (auto simp: assms(4) wf_world_def wf_values_def wf_pubsub_def wf_queues_def)
qed

lemma wf_world_take_waiter:
  assumes w: "wf_world w" and t: "take_waiter k w = Some (w', ch)"
  shows "wf_world w'"
proof -
  have "w' = w\<lparr>waiters := waiters w'\<rparr>"
    using t by (auto simp: take_waiter_def split: option.splits list.splits if_splits)
  moreover have "set (queue_at w' k') \<subseteq> set (queue_at w k')" for k'
    using t by (auto simp: take_waiter_def queue_at_def mget_list_def
        split: option.splits list.splits if_splits)
  ultimately show ?thesis
    using w wf_waiters_take [OF _ t] by (intro wf_world_waiters [OF w]) (auto simp: wf_world_def)
qed

lemma wf_world_CleanUp [keeps]: "wf_world w \<Longrightarrow> wf_world (CleanUpExpiredKeyWaiter k ch w)"
proof -
  assume w: "wf_world w"
  have "CleanUpExpiredKeyWaiter k ch w = w\<lparr>waiters := waiters (CleanUpExpiredKeyWaiter k ch w)\<rparr>"
    by (simp add: CleanUpExpiredKeyWaiter_def Let_def split: option.split)
  moreover have "set (queue_at (CleanUpExpiredKeyWaiter k ch w) k') \<subseteq> set (queue_at w k')" for k'
    by (auto simp: CleanUp_queue dest: set_remove1_subset [THEN subsetD])
  ultimately show ?thesis
    using w wf_waiters_CleanUp [of w k ch] by (intro wf_world_waiters [OF w]) (auto simp: wf_world_def)
qed

lemma wf_world_pubsub [keeps]:
  assumes "wf_world w"
  shows "wf_world (fst (Subscribe c ch w))" "wf_world (fst (Unsubscribe c ch w))"
    "wf_world (RemoveSubscriber c w)" "wf_world (fst (PublishMessageOnChannel ch m w))"
proof -
  have p: "wf_pubsub w" using assms by (simp add: wf_world_def)
  have u: "wf_world w'" if "wf_pubsub w'" "w' = w\<lparr>pubsub := p, clientSubscriptions := q\<rparr>" for w' p q
    using assms that by (simp add: wf_world_def wf_values_def wf_waiters_def wf_queues_def
        wf_channels_def queue_at_def)
  show "wf_world (fst (Subscribe c ch w))"
    by (rule u [OF wf_pubsub_Subscribe [OF p]]) (simp add: Subscribe_def Let_def)
  have "fst (Unsubscribe c ch w) = w\<lparr>pubsub := pubsub (fst (Unsubscribe c ch w)),
      clientSubscriptions := clientSubscriptions (fst (Unsubscribe c ch w))\<rparr>"
    by (simp add: Unsubscribe_def Let_def split: option.split)
  then show "wf_world (fst (Unsubscribe c ch w))" by (rule u [OF wf_pubsub_Unsubscribe [OF p]])
  have "distinct (mget_list (pubsub (RemoveSubscriber c w)) ch)" for ch
    using p by (auto simp: RemoveSubscriber_def mget_list_def mget_map_snd wf_pubsub_def split: option.split)
      (metis mget_list_def option.simps(5) distinct_sdel)
  then have "wf_pubsub (RemoveSubscriber c w)"
    using p by (simp add: wf_pubsub_def) (simp add: RemoveSubscriber_def)
  moreover have "RemoveSubscriber c w = w\<lparr>pubsub := pubsub (RemoveSubscriber c w),
      clientSubscriptions := clientSubscriptions w\<rparr>"
    by (simp add: RemoveSubscriber_def)
  ultimately show "wf_world (RemoveSubscriber c w)" by (rule u)
  show "wf_world (fst (PublishMessageOnChannel ch m w))"
    using assms by (simp add: Publish_spec)
qed

lemma wf_world_tx [keeps]:
  assumes "wf_world w"
  shows "wf_world (fst (StartTx c w))" "queue_ok arr \<Longrightarrow> wf_world (QueueCommand c arr w)"
    "wf_world (ClearTx c w)" "wf_world (fst (GetAndClearTx c w))"
proof -
  have u: "wf_world w'" if "wf_queues w'" "w' = w\<lparr>transactions := ts\<rparr>" for w' ts
    using assms that by (simp add: wf_world_def wf_values_def wf_waiters_def wf_pubsub_def
        wf_channels_def queue_at_def)
  have q: "wf_queues w" using assms by (simp add: wf_world_def)
  have "\<exists>ts. fst (StartTx c w) = w\<lparr>transactions := ts\<rparr>"
    by (auto simp: StartTx_def intro: exI [of _ "transactions w"])
  with u [of "fst (StartTx c w)"] q show "wf_world (fst (StartTx c w))"
    by (auto simp: wf_queues_def StartTx_def split: if_splits)
  have "\<exists>ts. QueueCommand c arr w = w\<lparr>transactions := ts\<rparr>"
    by (auto simp: QueueCommand_def intro: exI [of _ "transactions w"] split: option.split)
  moreover assume "queue_ok arr"
  then have "wf_queues (QueueCommand c arr w)"
    using q by (auto simp: wf_queues_def QueueCommand_def split: option.splits)
  ultimately show "wf_world (QueueCommand c arr w)" using u by blast
next
  show "wf_world (ClearTx c w)" and "wf_world (fst (GetAndClearTx c w))"
    using assms
    by (auto simp: wf_world_defs ClearTx_def GetAndClearTx_def split: option.split)
qed

lemma wf_map_map_snd: "wf_map (map (\<lambda>(k, v). (k, f v)) m) = wf_map m"
  by (simp add: wf_map_def comp_def case_prod_unfold)

lemma wf_map_filter: "wf_map m \<Longrightarrow> wf_map (filter P m)"
  by (simp add: wf_map_def distinct_map_filter)

lemma wf_map_Watch: "wf_map (watchedKeys w) \<Longrightarrow> wf_map (watchedKeys (Watch c keys w))"
  unfolding Watch_def by (induction keys arbitrary: w) (simp_all add: watch_key_def)

lemma Watch_only: "Watch c keys w = w\<lparr>watchedKeys := watchedKeys (Watch c keys w)\<rparr>"
proof (induction keys arbitrary: w)
  case (Cons k keys)
  from Cons [of "watch_key c k w"] show ?case by (simp add: Watch_def watch_key_def)
qed (simp add: Watch_def)

lemma wf_world_watch [keeps]:
  assumes "wf_world w"
  shows "wf_world (Watch c keys w)" "wf_world (Unwatch c w)"
proof -
  have "wf_world (w\<lparr>watchedKeys := watchedKeys (Watch c keys w)\<rparr>)"
    using assms wf_map_Watch [of w c keys] by (auto simp: wf_world_defs)
  then show "wf_world (Watch c keys w)" by (simp flip: Watch_only)
  show "wf_world (Unwatch c w)"
    using assms by (auto simp: wf_world_defs Unwatch_def wf_map_map_snd wf_map_filter)
qed

end
