(* ===== verification/HandlerFacts.thy ===== *)
theory HandlerFacts
  imports WorldFacts
begin

text \<open>
  What the handlers keep. The locale \<open>kept\<close> is the contract between the handlers and an
  invariant: it must follow from nothing but the operations on the keyspace, watching, and
  changes of the rest of the world that leave it well-formed. Then every handler keeps it, never
  reaches the recursion bound, and leaves only commands behind a wait that may be queued; so do
  \<open>handleCommand\<close> and everything a client's turn or the end of its wait does. The interpretation
  \<open>wf\<close> is for well-formedness itself; \<open>LockingFacts\<close> has another one.
\<close>

definition same_keys :: "world \<Rightarrow> world \<Rightarrow> bool" where
  "same_keys w w' \<longleftrightarrow> cache w' = cache w \<and> expiry w' = expiry w \<and>
     watchedKeys w' = watchedKeys w \<and> dirtyClients w' = dirtyClients w"

definition fine :: "(world \<Rightarrow> bool) \<Rightarrow> result \<Rightarrow> bool" where
  "fine P r \<longleftrightarrow> P (fst r) \<and> snd r \<noteq> TooDeep \<and>
     (\<forall>wt queue. snd r = Waiting wt queue \<longrightarrow> list_all queue_ok queue)"

lemma fine_simps [simp]:
  "fine P (finish w) = P w" "fine P (w, Done) = P w" "fine P (w, Panic) = P w"
  "fine P (w, Stuck) = P w" "fine P (w, Leaked) = P w"
  "fine P (w, Waiting wt queue) \<longleftrightarrow> P w \<and> list_all queue_ok queue"
  "\<not> fine P (w, TooDeep)"
  by (simp_all add: fine_def finish_def)

text \<open>A queue runner, as \<open>EXEC\<close> uses it.\<close>

definition fine_runner :: "(world \<Rightarrow> bool) \<Rightarrow> (resp list list \<Rightarrow> world \<Rightarrow> result) \<Rightarrow> bool" where
  "fine_runner P run \<longleftrightarrow> (\<forall>queue w. P w \<longrightarrow> list_all queue_ok queue \<longrightarrow> fine P (run queue w))"

lemma handlers_not_exec:
  "cmd \<noteq> ''EXEC'' \<Longrightarrow> map_of (handlers run e c) cmd = map_of (handlers run' e c) cmd"
  by (simp add: handlers_def)

section \<open>What leaves the keys and the marks alone\<close>

named_theorems same_keys_simps

lemma same_keys_refl [same_keys_simps]: "same_keys w w"
  by (simp add: same_keys_def)

lemma same_keys_trans: "same_keys w1 w2 \<Longrightarrow> same_keys w2 w3 \<Longrightarrow> same_keys w1 w3"
  by (simp add: same_keys_def)

lemma same_keys_update [same_keys_simps]:
  "same_keys w (w'\<lparr>sent := x1\<rparr>) = same_keys w w'" "same_keys w (w'\<lparr>chans := x2\<rparr>) = same_keys w w'"
  "same_keys w (w'\<lparr>masterOffset := x3\<rparr>) = same_keys w w'" "same_keys w (w'\<lparr>replicas := x4\<rparr>) = same_keys w w'"
  "same_keys w (w'\<lparr>replicaOffsets := x5\<rparr>) = same_keys w w'" "same_keys w (w'\<lparr>files := x6\<rparr>) = same_keys w w'"
  "same_keys w (w'\<lparr>defaultUserPasswords := x7\<rparr>) = same_keys w w'"
  "same_keys w (w'\<lparr>spawned := x8\<rparr>) = same_keys w w'"
  "same_keys w (w'\<lparr>authenticatedClients := x9\<rparr>) = same_keys w w'"
  "same_keys w (w'\<lparr>waiters := x10\<rparr>) = same_keys w w'"
  "same_keys w (w'\<lparr>next_chan := x11\<rparr>) = same_keys w w'"
  "same_keys w (w'\<lparr>transactions := x12\<rparr>) = same_keys w w'"
  "same_keys w (w'\<lparr>pubsub := x13\<rparr>) = same_keys w w'"
  "same_keys w (w'\<lparr>clientSubscriptions := x14\<rparr>) = same_keys w w'"
  by (simp_all add: same_keys_def)

lemma same_keys_ops [same_keys_simps]:
  "same_keys w (Authenticate c w)" "same_keys w (RemoveAuth c w)" "same_keys w (reply c b w)"
  "same_keys w (writeOK c w)" "same_keys w (writeErr c m w)" "same_keys w (writeNullBulk c w)"
  "same_keys w (writeInteger c i w)" "same_keys w (writeString c m w)"
  "same_keys w (writeBulkString c m w)" "same_keys w (writeArrayResponse c ms w)"
  "same_keys w (addReplica c w)" "same_keys w (removeReplica c w)" "same_keys w (propagate arr w)"
  "same_keys w (add_waiter k ch w)" "same_keys w (CleanUpExpiredKeyWaiter k ch w)"
  "same_keys w (fst (Subscribe c k w))" "same_keys w (fst (Unsubscribe c k w))"
  "same_keys w (RemoveSubscriber c w)" "same_keys w (fst (PublishMessageOnChannel k m w))"
  "same_keys w (fst (StartTx c w))" "same_keys w (QueueCommand c arr w)" "same_keys w (ClearTx c w)"
  "same_keys w (fst (GetAndClearTx c w))"
  by (simp_all add: Authenticate_def RemoveAuth_def reply_def writeOK_def writeErr_def
      writeNullBulk_def writeInteger_def writeString_def writeBulkString_def writeArrayResponse_def
      addReplica_def removeReplica_def propagate_def add_waiter_def CleanUpExpiredKeyWaiter_def
      Subscribe_def Unsubscribe_def RemoveSubscriber_def Publish_spec StartTx_def QueueCommand_def
      ClearTx_def GetAndClearTx_def Let_def same_keys_simps split: option.split)

lemma same_keys_persist [same_keys_simps]: "same_keys w (fst (persistWriteCommand e c arr w))"
  by (auto simp: persistWriteCommand_def Let_def propagate_def reply_def writeErr_def same_keys_simps
      split: prod.split option.split)

lemma same_keys_take_waiter: "take_waiter k w = Some (w', ch) \<Longrightarrow> same_keys w w'"
  by (auto simp: take_waiter_def same_keys_simps split: option.splits list.splits)

section \<open>The contract\<close>

named_theorems P_keeps \<open>operations that keep the invariant\<close>
named_theorems fine_intros \<open>how the pieces of a handler combine\<close>

lemmas handler_splits = prod.splits option.splits cached.splits sum.splits

locale kept =
  fixes P :: "world \<Rightarrow> bool" and e :: env and c :: conn
  assumes P_wf: "P w \<Longrightarrow> wf_world w"
    and P_frame: "P w \<Longrightarrow> wf_world w' \<Longrightarrow> same_keys w w' \<Longrightarrow> P w'"
    and P_exec: "P w \<Longrightarrow> op_before (now e) op \<Longrightarrow> P (exec_op op w)"
    and P_watch: "P w \<Longrightarrow> P (Watch c keys w)" "P w \<Longrightarrow> P (Unwatch c w)"
begin

lemma P_ops [P_keeps]:
  assumes "P w"
  shows "wf_value v \<Longrightarrow> P (Set k v w)" "wf_value v \<Longrightarrow> P (SetWithTTL t k v ttl w)"
    "P (fst (LPush k vs w))" "P (fst (RPush k vs w))"
    "P (fst (Incr k w))" "P (fst (ZAdd k sc m w))" "P (fst (ZRem k ms w))"
    "P (fst (XAdd t k sid fs w))" "P (fst (Get (now e) k w))"
  using P_exec [OF assms, of "OpSet k v"] P_exec [OF assms, of "OpSetTTL t k v ttl"]
    P_exec [OF assms, of "OpLPush k vs"] P_exec [OF assms, of "OpRPush k vs"]
    P_exec [OF assms, of "OpIncr k"] P_exec [OF assms, of "OpZAdd k sc m"]
    P_exec [OF assms, of "OpZRem k ms"] P_exec [OF assms, of "OpXAdd t k sid fs"]
    P_exec [OF assms, of "OpGet (now e) k"]
  by simp_all

lemma P_pop_front: "P w \<Longrightarrow> pop_front k w = Some (w', v) \<Longrightarrow> P w'"
  using P_exec [of w "OpPop k"] by simp

lemma P_Expire: "P w \<Longrightarrow> t < now e \<Longrightarrow> P (run_Expire t k w)"
  using P_exec [of w "OpExpire t k"] by simp

lemma P_eq: "wf_world w' = wf_world w \<Longrightarrow> same_keys w w' \<Longrightarrow> P w' = P w"
  using P_frame [of w w'] P_frame [of w' w] P_wf [of w] P_wf [of w'] by (auto simp: same_keys_def)

lemma P_update [simp]:
  "P (w\<lparr>sent := x1\<rparr>) = P w" "P (w\<lparr>chans := x2\<rparr>) = P w"
  "P (w\<lparr>masterOffset := x3\<rparr>) = P w" "P (w\<lparr>replicas := x4\<rparr>) = P w"
  "P (w\<lparr>replicaOffsets := x5\<rparr>) = P w" "P (w\<lparr>files := x6\<rparr>) = P w"
  "P (w\<lparr>defaultUserPasswords := x7\<rparr>) = P w" "P (w\<lparr>spawned := x8\<rparr>) = P w"
  "P (w\<lparr>authenticatedClients := x9\<rparr>) = P w"
  by (rule P_eq; simp add: same_keys_simps)+

lemma P_frames [P_keeps]:
  assumes "P w"
  shows "P (Authenticate c' w)" "P (RemoveAuth c' w)" "P (reply c' b w)" "P (writeOK c' w)"
    "P (writeErr c' m w)" "P (writeNullBulk c' w)" "P (writeInteger c' i w)" "P (writeString c' m w)"
    "P (writeBulkString c' m w)" "P (writeArrayResponse c' ms w)" "P (addReplica c' w)"
    "P (removeReplica c' w)" "P (propagate arr w)" "P (fst (persistWriteCommand e' c' arr w))"
    "ch < next_chan w \<Longrightarrow> P (add_waiter k ch w)" "next_chan w \<le> n \<Longrightarrow> P (w\<lparr>next_chan := n\<rparr>)"
    "P (CleanUpExpiredKeyWaiter k ch w)" "P (fst (Subscribe c' k w))" "P (fst (Unsubscribe c' k w))"
    "P (RemoveSubscriber c' w)" "P (fst (PublishMessageOnChannel k m w))" "P (fst (StartTx c' w))"
    "queue_ok arr \<Longrightarrow> P (QueueCommand c' arr w)" "P (ClearTx c' w)" "P (fst (GetAndClearTx c' w))"
  by (rule P_frame [OF assms]; simp add: keeps P_wf [OF assms] same_keys_simps)+

lemmas P_watching [P_keeps] = P_watch

lemma P_take_waiter: "P w \<Longrightarrow> take_waiter k w = Some (w', ch) \<Longrightarrow> P w'"
  using wf_world_take_waiter [OF P_wf] same_keys_take_waiter P_frame by blast

lemma fine_and_then [fine_intros]:
  "fine P r \<Longrightarrow> (\<And>w. P w \<Longrightarrow> fine P (k w)) \<Longrightarrow> fine P (and_then r k)"
  by (cases r; cases "snd r") (auto simp: and_then_def)

lemma fine_conn [fine_intros]:
  "P w \<Longrightarrow> fine P (conn_write c' b w)" "P w \<Longrightarrow> fine P (remote_addr c' w)"
  by (simp_all add: conn_write_def remote_addr_def)

lemma fine_persist_then [fine_intros]:
  "P w \<Longrightarrow> (\<And>w. P w \<Longrightarrow> fine P (k w)) \<Longrightarrow> fine P (persist_then e' c' arr k w)"
  using P_frames(14) [of w e' c' arr]
  by (cases "persistWriteCommand e' c' arr w") (simp add: persist_then_def)

text \<open>The operations that return a pair, in the form a case distinction leaves.\<close>

lemma P_pair:
  assumes "P w"
  shows "Get (now e) k w = (w1, v1) \<Longrightarrow> P w1" "Incr k w = (w1, v2) \<Longrightarrow> P w1"
    "LPush k vs w = (w1, v3) \<Longrightarrow> P w1" "RPush k vs w = (w1, v3) \<Longrightarrow> P w1"
    "ZAdd k sc m w = (w1, v3) \<Longrightarrow> P w1" "ZRem k ms w = (w1, v3) \<Longrightarrow> P w1"
    "XAdd t k i fs w = (w1, v4) \<Longrightarrow> P w1" "Subscribe c' ch w = (w1, v3) \<Longrightarrow> P w1"
    "Unsubscribe c' ch w = (w1, v3) \<Longrightarrow> P w1"
    "PublishMessageOnChannel ch msg w = (w1, v3) \<Longrightarrow> P w1"
    "StartTx c' w = (w1, v5) \<Longrightarrow> P w1" "GetAndClearTx c' w = (w1, v6) \<Longrightarrow> P w1"
    "persistWriteCommand e' c' arr w = (w1, v5) \<Longrightarrow> P w1"
  using P_ops [OF assms] P_frames [OF assms] by (metis fst_conv)+

section \<open>The handlers\<close>

lemma fine_basic [fine_intros]:
  assumes "P w"
  shows "fine P (handleAUTH e c arr w)" "fine P (handleACL e c arr w)" "fine P (handlePING c arr w)"
    "fine P (handleECHO c arr w)" "fine P (handleINFO e c arr w)" "fine P (handleCONFIG e c arr w)"
    "fine P (handleREPLCONF c arr w)" "fine P (handlePSYNC e c w)"
  using assms
  by (auto simp: handleAUTH_def handleACL_def handlePING_def handleECHO_def handleINFO_def
      handleCONFIG_def handleREPLCONF_def handlePSYNC_def Let_def intro!: fine_intros P_keeps
      split: prod.split bool.split)

lemma fine_WAIT [fine_intros]: "P w \<Longrightarrow> fine P (handleWAIT e c arr w)"
  by (auto simp: handleWAIT_def poll_wait_def Let_def intro!: fine_intros P_keeps)

lemma fine_strings [fine_intros]:
  assumes "P w"
  shows "fine P (handleSET e c arr w)" "fine P (handleGET e c arr w)" "fine P (handleINCR e c arr w)"
    "fine P (handleKEYS c arr w)" "fine P (handleTYPE e c arr w)"
  using assms
  by (auto simp: handleSET_def handleGET_def handleINCR_def handleKEYS_def handleTYPE_def Let_def
      intro!: fine_intros P_keeps dest: P_pair [OF assms] split: handler_splits bool.split)


lemma push_loop_keeps:
  "P w \<Longrightarrow> push_loop key vs w = (w', sig, rem) \<Longrightarrow> P w' \<and> (sig = Done \<or> sig = Stuck)"
proof (induction vs arbitrary: w w' rem)
  case (Cons v vs)
  show ?case
  proof (cases "take_waiter key w")
    case None
    with Cons show ?thesis by (auto split: prod.splits)
  next
    case (Some p)
    obtain w1 ch where "p = (w1, ch)" by (cases p)
    with Some Cons.prems(1) have "P w1" by (auto intro: P_take_waiter)
    with Some \<open>p = (w1, ch)\<close> Cons.prems(2) show ?thesis
      using Cons.IH [of "w1\<lparr>chans := mput ch v (chans w1)\<rparr>" w' rem] by (simp split: if_splits)
  qed
qed simp

lemma fine_push:
  assumes w: "P w" and keep: "\<And>k vs w. P w \<Longrightarrow> P (fst (push k vs w))"
  shows "fine P (push_handler push name e c arr w)"
proof -
  have "P (fst (initialLen e key w))" for key
    using w by (auto simp: initialLen_def dest: P_pair split: handler_splits)
  then show ?thesis
    using w
    by (auto simp: push_handler_def Let_def intro!: fine_intros P_keeps keep
        dest!: push_loop_keeps [rotated] split: handler_splits signal.splits) (metis fst_conv)+
qed

lemma fine_lists [fine_intros]:
  assumes "P w"
  shows "fine P (handleLPUSH e c arr w)" "fine P (handleRPUSH e c arr w)" "fine P (handleLRANGE e c arr w)"
    "fine P (handleLLEN e c arr w)" "fine P (handleLPOP e c arr w)" "fine P (handleRPOP e c arr w)"
  using assms
  by (auto simp: handleLPUSH_def handleRPUSH_def handleLRANGE_def handleLLEN_def handleLPOP_def
      handleRPOP_def Let_def intro!: fine_push fine_intros P_keeps dest: P_pair [OF assms]
      split: handler_splits list.splits)

lemma fine_BLPOP [fine_intros]:
  assumes "P w"
  shows "fine P (handleBLPOP e c arr w)"
proof -
  have "fine P (handleBLPOP e c arr w)" if "ParseFloat (arg arr (length arr - 1)) = Some x" for x
  proof (cases "pop_front (arg arr 1) w")
    case None
    with that assms show ?thesis by (simp add: handleBLPOP_def Let_def P_keeps)
  next
    case (Some p)
    then obtain w1 v where p: "pop_front (arg arr 1) w = Some (w1, v)" by (cases p) auto
    from P_pop_front [OF assms this] have "P w1" .
    with p that assms show ?thesis
      by (auto simp: handleBLPOP_def Let_def intro!: P_keeps dest: P_pair split: prod.splits bool.splits)
  qed
  with assms show ?thesis
    by (cases "ParseFloat (arg arr (length arr - 1))") (simp_all add: handleBLPOP_def Let_def P_keeps)
qed

lemma zadd_loop_keeps: "P w \<Longrightarrow> P (fst (zadd_loop key args n w))"
  by (induction key args n w rule: zadd_loop.induct) (auto dest: P_pair split: handler_splits)

lemma geoadd_loop_keeps: "P w \<Longrightarrow> P (fst (geoadd_loop e key args n w))"
  by (induction e key args n w rule: geoadd_loop.induct) (auto dest: P_pair split: handler_splits)

lemma fine_zsets [fine_intros]:
  assumes "P w"
  shows "fine P (handleZADD e c arr w)" "fine P (handleZRANGE c arr w)" "fine P (handleZRANK c arr w)"
    "fine P (handleZCARD c arr w)" "fine P (handleZSCORE c arr w)" "fine P (handleZREM c arr w)"
  using assms zadd_loop_keeps [OF assms]
  by (auto simp: handleZADD_def handleZRANGE_def handleZRANK_def handleZCARD_def handleZSCORE_def
      handleZREM_def Let_def intro!: fine_intros P_keeps dest: P_pair [OF assms]
      split: handler_splits) (metis fst_conv)+


lemma fine_write_entries [fine_intros]: "P w \<Longrightarrow> fine P (write_entries c entries w)"
proof (induction entries arbitrary: w)
  case (Cons en entries)
  then show ?case by (auto intro!: Cons.IH fine_intros P_keeps)
qed simp

lemma fine_write_streams [fine_intros]: "P w \<Longrightarrow> fine P (write_streams c keys data w)"
proof (induction keys arbitrary: w)
  case (Cons k keys)
  then show ?case by (auto intro!: Cons.IH fine_intros P_keeps)
qed simp

lemma fine_write_xread [fine_intros]: "P w \<Longrightarrow> fine P (write_xread c keys data w)"
  by (auto simp: write_xread_def intro!: fine_intros)

lemma fine_XADD [fine_intros]: "P w \<Longrightarrow> fine P (handleXADD e c arr w)"
proof -
  assume w: "P w"
  then show ?thesis
    by (auto simp: handleXADD_def Let_def intro!: P_keeps dest: P_pair split: handler_splits)
qed

lemma fine_XRANGE [fine_intros]: "P w \<Longrightarrow> fine P (handleXRANGE e c arr w)"
  by (auto simp: handleXRANGE_def intro!: fine_intros P_keeps split: sum.split)

lemma resolve_ids_keeps: "P w \<Longrightarrow> P (fst (resolve_ids (now e) ps w))"
proof (induction "now e" ps w rule: resolve_ids.induct)
  case (2 key rawId rest w)
  then show ?case
    by (auto dest: P_pair split: prod.split)
qed simp

lemma clean_up_keeps: "P w \<Longrightarrow> P (clean_up_reader keys ch w)"
  unfolding clean_up_reader_def by (induction keys arbitrary: w) (simp_all add: P_keeps)

lemma next_chan_add_waiter [simp]: "next_chan (add_waiter k ch w) = next_chan w"
  by (simp add: add_waiter_def)

lemma register_keeps: "P w \<Longrightarrow> ch < next_chan w \<Longrightarrow> P (register_reader keys ch w)"
  unfolding register_reader_def by (induction keys arbitrary: w) (simp_all add: P_keeps)

lemma fine_XREAD [fine_intros]: "P w \<Longrightarrow> fine P (handleXREAD e c arr w)"
proof -
  assume w: "P w"
  have "fine P (xread_now e c keys ids w)" for keys ids
    using resolve_ids_keeps [OF w, of "zip keys ids"]
    by (auto simp: xread_now_def intro!: fine_intros P_keeps split: prod.split sum.split)
  moreover have "fine P (xread_block e c tmo keys ids w)" for tmo keys ids
  proof -
    let ?w1 = "register_reader keys (next_chan w) (w\<lparr>next_chan := next_chan w + 1\<rparr>)"
    have "P ?w1" using w by (intro register_keeps P_frames(16)) simp_all
    then show ?thesis
      by (auto simp: xread_block_def Let_def intro!: fine_intros P_keeps clean_up_keeps split: sum.split)
  qed
  ultimately show ?thesis
    using w by (auto simp: handleXREAD_def intro!: P_keeps split: sum.split option.split prod.split)
qed

lemma fine_positions [fine_intros]: "P w \<Longrightarrow> fine P (write_positions e c key vs w)"
proof (induction vs arbitrary: w)
  case (Cons v vs)
  then show ?case by (auto simp: Let_def intro!: Cons.IH fine_intros P_keeps split: option.split)
qed simp

lemma fine_GEOADD [fine_intros]: "P w \<Longrightarrow> fine P (handleGEOADD e c arr w)"
  using geoadd_loop_keeps [of w "arg arr 1" "drop 2 arr" 0]
  by (auto simp: handleGEOADD_def intro!: P_keeps split: prod.split sum.split)

lemma fine_geo [fine_intros]:
  assumes "P w"
  shows "fine P (handleGEOPOS e c arr w)" "fine P (handleGEODIST e c arr w)"
    "fine P (handleGEOSEARCH e c arr w)"
  using assms
  by (auto simp: handleGEOPOS_def handleGEODIST_def handleGEOSEARCH_def Let_def
      intro!: fine_intros P_keeps dest: P_pair split: handler_splits)

lemma fine_subscription_loop:
  assumes "\<And>c ch w. P w \<Longrightarrow> P (fst (change c ch w))"
  shows "P w \<Longrightarrow> fine P (subscription_loop change kind c vs w)"
proof (induction vs arbitrary: w)
  case (Cons v vs)
  from Cons.prems have "P (fst (change c ch w))" for ch by (rule assms)
  then show ?case
    using Cons by (auto intro!: fine_intros split: prod.split bool.split) (metis fst_conv)
qed simp

lemma fine_channels [fine_intros]:
  assumes "P w"
  shows "fine P (handleSUBSCRIBE c arr w)" "fine P (handleUNSUBSCRIBE c arr w)"
    "fine P (handlePUBLISH c arr w)"
  using assms
  by (auto simp: handleSUBSCRIBE_def handleUNSUBSCRIBE_def handlePUBLISH_def
      intro!: fine_subscription_loop P_keeps dest: P_pair [OF assms] split: prod.split)

lemma fine_transactions [fine_intros]:
  assumes "P w"
  shows "fine P (handleMULTI c arr w)" "fine P (handleDISCARD c arr w)" "fine P (handleWATCH c arr w)"
    "fine P (handleUNWATCH c arr w)"
  using assms
  by (auto simp: handleMULTI_def handleDISCARD_def handleWATCH_def handleUNWATCH_def
      intro!: fine_intros P_keeps dest: P_pair [OF assms] split: prod.split)

section \<open>Transactions and the depth\<close>

lemma fine_EXEC: "P w \<Longrightarrow> fine_runner P run \<Longrightarrow> fine P (handleEXEC run c arr w)"
proof -
  assume w: "P w" and run: "fine_runner P run"
  obtain w1 queue tx where g: "GetAndClearTx c w = (w1, queue, tx)" by (cases "GetAndClearTx c w")
  then have w1: "P w1" by (rule P_pair [OF w])
  have "list_all queue_ok queue"
    using g P_wf [OF w] by (auto simp: GetAndClearTx_def wf_world_def wf_queues_def split: option.splits)
  then have "P w' \<Longrightarrow> fine P (run queue w')" for w' using run by (simp add: fine_runner_def)
  with g w w1 show ?thesis by (auto simp: handleEXEC_def Let_def intro!: fine_intros P_keeps)
qed

lemma fine_dispatch:
  "P w \<Longrightarrow> cmd \<noteq> ''EXEC'' \<or> fine_runner P run \<Longrightarrow> fine P (dispatch run e c cmd arr w)"
proof -
  assume w: "P w" and run: "cmd \<noteq> ''EXEC'' \<or> fine_runner P run"
  have all: "\<forall>(n, h) \<in> set (handlers run e c). n = ''EXEC'' \<or> fine P (h arr w)"
    unfolding handlers_def by (simp add: fine_intros w)
  show ?thesis
  proof (cases "cmd = ''EXEC''")
    case True
    with run w show ?thesis by (simp add: dispatch_def handlers_def fine_EXEC)
  next
    case False
    show ?thesis
    proof (cases "map_of (handlers run e c) cmd")
      case (Some h)
      with all False map_of_SomeD [OF Some] show ?thesis by (auto simp: dispatch_def)
    qed (simp add: dispatch_def w P_keeps)
  qed
qed

lemma fine_let_in: "P w \<Longrightarrow> P (let_in e c w)"
  by (simp add: let_in_def P_keeps)

text \<open>Either \<open>EXEC\<close> has a runner that is fine, or the command is not one that starts \<open>EXEC\<close>.\<close>

lemma fine_handle_with:
  "P w \<Longrightarrow> command_name arr \<noteq> Some ''EXEC'' \<or> fine_runner P run \<Longrightarrow>
     fine P (handle_with run e c arr w)"
proof -
  assume w: "P w" and run: "command_name arr \<noteq> Some ''EXEC'' \<or> fine_runner P run"
  let ?w = "let_in e c w"
  have l: "P ?w" using w by (rule fine_let_in)
  have d: "fine P (dispatch run e c cmd arr ?w)" if "command_name arr = Some cmd" for cmd
    using l run that by (intro fine_dispatch) auto
  have q: "fine P (conn_write c b (QueueCommand c arr ?w))"
    if "command_name arr = Some cmd" "cmd \<notin> set tx_commands" for b cmd
    using l that by (intro fine_conn P_keeps) (simp_all add: queue_ok_def)
  show ?thesis using w l by (simp add: handle_with_def Let_def d q P_keeps split: option.split)
qed

lemma fine_run_queue:
  assumes "\<And>arr w. P w \<Longrightarrow> queue_ok arr \<Longrightarrow> fine P (h arr w)"
  shows "fine_runner P (run_queue h)"
proof -
  have "P w \<Longrightarrow> list_all queue_ok queue \<Longrightarrow> fine P (run_queue h queue w)" for queue w
  proof (induction queue arbitrary: w)
    case (Cons arr queue)
    then have "fine P (h arr w)" by (simp add: assms)
    then show ?case using Cons by (cases "h arr w"; cases "snd (h arr w)") auto
  qed simp
  then show ?thesis by (simp add: fine_runner_def)
qed

lemma fine_handle_1: "P w \<Longrightarrow> queue_ok arr \<Longrightarrow> fine P (handle_at 1 e c arr w)"
  by (auto simp: queue_ok_def tx_commands_def intro!: fine_handle_with split: option.splits)

lemma fine_continue: "P w \<Longrightarrow> list_all queue_ok queue \<Longrightarrow> fine P (continue_exec e c queue w)"
  using fine_run_queue [of "handle_at 1 e c"] fine_handle_1
  by (simp add: continue_exec_def fine_runner_def)

lemma fine_handleCommand: "P w \<Longrightarrow> fine P (handleCommand e c arr w)"
  using fine_run_queue [of "handle_at 1 e c"] fine_handle_1
  by (simp add: handleCommand_def numeral_2_eq_2 fine_handle_with)

end

interpretation wf: kept wf_world e c for e c
  by unfold_locales (simp_all add: keeps wf_world_exec)

end
