(* ===== verification/SystemFacts.thy ===== *)
theory SystemFacts
  imports HandlerFacts
begin

text \<open>
  From the handlers to the system. Within \<open>kept\<close>, everything a client does, and every goroutine,
  keeps the invariant; \<open>good_step\<close> puts this together for one event, whose actor has to meet the
  contract. Every reachable state of the system is well-formed.
\<close>

context kept
begin

lemma P_disconnect: "P w \<Longrightarrow> P (disconnect c w)"
  by (simp add: disconnect_def P_keeps)

lemma fine_turn:
  assumes "P w"
  shows "P (fst (connection_turn e c inp w))"
    and "snd (connection_turn e c inp w) = Stop sig rest \<Longrightarrow> fine P (fst (connection_turn e c inp w), sig)"
proof -
  have "fine P (handleCommand e c arr w)" for arr using assms by (rule fine_handleCommand)
  then have f: "handleCommand e c arr w = (w1, sg) \<Longrightarrow> fine P (w1, sg)" for arr w1 sg by metis
  show "P (fst (connection_turn e c inp w))"
    using assms P_disconnect [OF assms]
    by (auto simp: connection_turn_def fine_def dest!: f split: pres.split option.split prod.split signal.split)
  show "snd (connection_turn e c inp w) = Stop sig rest \<Longrightarrow> fine P (fst (connection_turn e c inp w), sig)"
    using assms ParseRESP_not_fuel [of inp]
    by (auto simp: connection_turn_def dest!: f split: pres.splits option.splits prod.splits signal.splits)
qed

lemma fine_woken: "P w \<Longrightarrow> woken e c wt w = Some r \<Longrightarrow> fine P r"
  by (auto simp: woken_def take_value_def BLPOP_value_def XREAD_wake_def poll_wait_def Let_def
      intro!: fine_intros P_keeps clean_up_keeps split: wait.splits option.splits if_splits sum.split)

lemma fine_timed_out: "P w \<Longrightarrow> timed_out e c wt w = Some r \<Longrightarrow> fine P r"
  by (auto simp: timed_out_def BLPOP_timeout_def XREAD_timeout_def
      intro!: fine_intros P_keeps clean_up_keeps split: wait.splits option.splits if_splits)

lemma P_run_spawned: "P w \<Longrightarrow> t < now e \<Longrightarrow> run_spawned t i w = Some w' \<Longrightarrow> P w'"
  by (auto simp: run_spawned_def run_goroutine_def intro!: P_keeps P_Expire split: goroutine.splits if_splits)

end

section \<open>Events\<close>

text \<open>Commands wait behind a blocked one only if they may be queued.\<close>

definition good :: "(world \<Rightarrow> bool) \<Rightarrow> system \<Rightarrow> bool" where
  "good P s \<longleftrightarrow> P (state s) \<and>
     (\<forall>n wt queue rest. mget (clients s) n = Some (Blocked wt queue rest) \<longrightarrow> list_all queue_ok queue) \<and>
     halted s \<in> {None, Some Panic, Some Stuck, Some Leaked}"

lemma good_state: "good P s \<Longrightarrow> P w \<Longrightarrow> good P (s\<lparr>state := w\<rparr>)"
  by (simp add: good_def)

lemma goodD: "good P s \<Longrightarrow> P (state s)"
  by (simp add: good_def)

lemma good_settle: "good P s \<Longrightarrow> fine P r \<Longrightarrow> good P (settle n rest r s)"
  by (cases r; cases "snd r") (auto simp: settle_def good_def)

context kept
begin

lemma good_serve: "c = Some n \<Longrightarrow> good P s \<Longrightarrow> good P (serve e n inp s)"
proof -
  assume c: "c = Some n" and s: "good P s"
  then have w: "P (state s)" by (simp add: good_def)
  obtain w' t where t: "connection_turn e (Some n) inp (state s) = (w', t)"
    by (cases "connection_turn e (Some n) inp (state s)")
  with fine_turn(1) [OF w, of inp] c have "P w'" by simp
  moreover have "fine P (w', sig)" if "t = Stop sig rest" for sig rest
    using fine_turn(2) [OF w, of inp sig rest] t c that by simp
  ultimately show ?thesis
    using s t by (cases t) (auto simp: serve_def good_settle, auto simp: good_def)
qed

lemma good_resume:
  assumes "c = Some n" and "good P s" and "resume e how n s = Some s'"
    and "\<And>wt w r. P w \<Longrightarrow> how e c wt w = Some r \<Longrightarrow> fine P r"
  shows "good P s'"
proof -
  from assms(3) obtain wt queue rest r where
    b: "mget (clients s) n = Some (Blocked wt queue rest)" and r: "how e c wt (state s) = Some r"
    and s': "s' = settle n rest (and_then r (continue_exec e c queue)) s"
    by (auto simp: resume_def assms(1) split: option.splits client.splits)
  have "list_all queue_ok queue" using assms(2) b by (auto simp: good_def)
  then have "fine P (and_then r (continue_exec e c queue))"
    using assms(2) r
    by (intro fine_and_then fine_continue assms(4) [of "state s" wt]) (auto simp: good_def)
  with assms(2) show ?thesis unfolding s' by (rule good_settle)
qed

end

text \<open>The client whose turn an event is.\<close>

fun actor :: "event \<Rightarrow> nat option" where
  "actor (Serve n) = Some n"
| "actor (Deliver n) = Some n"
| "actor (TimeUp n) = Some n"
| "actor _ = None"

lemma good_step:
  assumes "good P s" and "step e ev s = Some s'"
    and "\<And>n. actor ev = Some n \<Longrightarrow> kept P (at_time e s) (Some n)"
    and "\<And>i. ev = Run i \<Longrightarrow> kept P (e\<lparr>now := clock s + 1\<rparr>) None"
  shows "good P s'"
proof (cases ev)
  case (Serve n)
  with assms(1,2) kept.good_serve [OF assms(3)] show ?thesis
    by (auto simp: step_def Let_def split: if_splits option.splits client.splits)
next
  case (Deliver n)
  with assms(3) have k: "kept P (at_time e s) (Some n)" by simp
  from Deliver assms(2) have "resume (at_time e s) woken n s = Some s'"
    by (simp add: step_def Let_def split: if_splits)
  from kept.good_resume [OF k refl assms(1) this kept.fine_woken [OF k]] show ?thesis .
next
  case (TimeUp n)
  with assms(3) have k: "kept P (at_time e s) (Some n)" by simp
  from TimeUp assms(2) have "resume (at_time e s) timed_out n s = Some s'"
    by (simp add: step_def Let_def split: if_splits)
  from kept.good_resume [OF k refl assms(1) this kept.fine_timed_out [OF k]] show ?thesis .
next
  case (Run i)
  with assms(2) obtain w where w: "run_spawned (clock s) i (state s) = Some w" "s' = s\<lparr>state := w\<rparr>"
    by (auto simp: step_def Let_def split: if_splits)
  with kept.P_run_spawned [OF assms(4) [OF Run] goodD [OF assms(1)] _ w(1)] assms(1) show ?thesis
    by (simp add: good_state)
qed (use assms(1,2) in \<open>auto simp: step_def Let_def split: if_splits\<close>,
     (use assms(1) in \<open>fastforce simp: good_def\<close>)+)

section \<open>Well-formedness\<close>

abbreviation wf_system :: "system \<Rightarrow> bool" where
  "wf_system \<equiv> good wf_world"

lemma wf_step: "wf_system s \<Longrightarrow> step e ev s = Some s' \<Longrightarrow> wf_system s'"
  by (rule good_step) (assumption | rule wf.kept_axioms)+

lemma wf_reachable: "reachable e s0 s \<Longrightarrow> wf_system s0 \<Longrightarrow> wf_system s"
  by (induction rule: reachable.induct) (auto intro: wf_step)

lemma wf_initial: "wf_values (NewStore data expi) \<Longrightarrow> wf_world (initial_world data expi fs)"
  by (simp add: wf_world_defs initial_world_def NewStore_def store.defs)

section \<open>Properties\<close>

text \<open>
  C1: whatever the clients send and however commands, deliveries, timeouts and goroutines
  interleave, the state stays well-formed: sorted sets are maps with at least one member, no
  queue of waiting channels is empty and no waiting channel unknown, the subscription sets have
  no repetitions, and a transaction's queue, also one interrupted by a command that waits, holds
  no \<open>EXEC\<close>, \<open>DISCARD\<close>, \<open>MULTI\<close>, \<open>QUIT\<close> or \<open>WATCH\<close>. The system stops only by a panic or with the
  mutex held; the model's bound on nested \<open>handleCommand\<close> calls is never reached.
\<close>

theorem system_invariant:
  assumes "wf_values (NewStore data expi)"
    and "reachable e (booted (initial_world data expi fs) t) s"
  shows "wf_world (state s) \<and>
    (mget (clients s) n = Some (Blocked wt queue rest) \<longrightarrow> list_all queue_ok queue) \<and>
    halted s \<in> {None, Some Panic, Some Stuck, Some Leaked}"
proof -
  have "wf_system (booted (initial_world data expi fs) t)"
    using wf_initial [OF assms(1)] by (simp add: good_def booted_def)
  from wf_reachable [OF assms(2) this] show ?thesis by (auto simp: good_def)
qed

end
