(* ===== verification/ServerFacts.thy ===== *)
theory ServerFacts
  imports SystemFacts
begin

text \<open>
  What the loops of the server do with a stream of well-formed commands: a connection, the
  replay of the log and a replica hand exactly these commands to \<open>handleCommand\<close>, in order; and
  on any bytes whatever, each loop comes to an end.
\<close>

section \<open>Commands as words\<close>

definition words :: "string list \<Rightarrow> resp list" where "words ws = map RStr ws"

definition words_fit :: "string list \<Rightarrow> bool" where
  "words_fit ws \<longleftrightarrow> ws \<noteq> [] \<and> int (length ws) \<le> max_int64 \<and>
     list_all (\<lambda>s. int (length s) \<le> max_alloc) ws"

definition stream_of :: "string list list \<Rightarrow> string" where
  "stream_of wss = concat (map (\<lambda>ws. encodeRESPArray (words ws)) wss)"

lemma stream_of_simps [simp]:
  "stream_of [] = []" "stream_of (ws # wss) = encodeRESPArray (words ws) @ stream_of wss"
  by (simp_all add: stream_of_def)

lemma parse_words:
  assumes "words_fit ws"
  shows "ParseRESP (encodeRESPArray (words ws) @ rest) = POk (RArr (words ws)) rest"
proof -
  have "go_sized (RArr (words ws))"
    using assms by (simp add: words_fit_def words_def list_all_length)
  from wire.dec_enc [OF this, of rest] show ?thesis by (simp add: words_def comp_def)
qed

lemma command_of_words: "ws \<noteq> [] \<Longrightarrow> command_of (RArr (words ws)) = Some (words ws)"
  by (cases ws) (simp_all add: command_of_def words_def)

lemma parse_words_more:
  assumes "words_fit ws"
  shows "ws \<noteq> []" "length rest < length (encodeRESPArray (words ws) @ rest)"
  using ParseRESP_shrinks [OF parse_words [OF assms, of rest]] assms by (simp_all add: words_fit_def)

lemma stream_shorter:
  "words_fit ws \<Longrightarrow> length (encodeRESPArray (words ws) @ rest) < Suc f \<Longrightarrow> length rest < f"
  by (frule parse_words_more(2) [of ws rest]) linarith

lemma arg_words [simp]: "i < length ws \<Longrightarrow> arg (words ws) i = ws ! i"
  by (simp add: arg_def words_def asString_def)

lemma length_words [simp]: "length (words ws) = length ws"
  by (simp add: words_def)

lemma words_Cons: "words (x # xs) = RStr x # words xs"
  by (simp add: words_def)

lemma command_name_words [simp]: "command_name (words (x # xs)) = Some (ToUpper x)"
  by (simp add: command_name_def words_def asString_def)

section \<open>The loops on a stream of commands\<close>

abbreviation run_commands :: "env \<Rightarrow> conn \<Rightarrow> string list list \<Rightarrow> world \<Rightarrow> result" where
  "run_commands e c wss w \<equiv> run_queue (handleCommand e c) (map words wss) w"

lemma turn_words:
  "words_fit ws \<Longrightarrow> connection_turn e c (encodeRESPArray (words ws) @ rest) w =
     (case handleCommand e c (words ws) w of
        (w1, Done) \<Rightarrow> (w1, Continue rest) | (w1, sig) \<Rightarrow> (w1, Stop sig rest))"
  using parse_words_more [of ws]
  by (simp add: connection_turn_def parse_words command_of_words)

lemma connection_loop_words:
  "list_all words_fit wss \<Longrightarrow> length (stream_of wss) < fuel \<Longrightarrow>
     run_commands e c wss w = (w', Done) \<Longrightarrow>
     connection_loop fuel e c (stream_of wss) w = (disconnect c w', Hangup)"
proof (induction wss arbitrary: w fuel)
  case Nil
  then show ?case
    by (cases fuel) (simp_all add: connection_turn_def ParseRESP_def finish_def)
next
  case (Cons ws wss)
  obtain f where f: "fuel = Suc f" using Cons.prems(2) by (cases fuel) auto
  obtain w1 where w1: "handleCommand e c (words ws) w = (w1, Done)" "run_commands e c wss w1 = (w', Done)"
    using Cons.prems(3) by (auto split: prod.splits signal.splits)
  have "length (stream_of wss) < f"
    using stream_shorter [of ws "stream_of wss" f] Cons.prems(1,2) by (simp add: f)
  with Cons.IH [OF _ this w1(2)] Cons.prems(1) show ?case
    by (simp add: f turn_words w1(1))
qed

lemma handleConnection_words:
  "list_all words_fit wss \<Longrightarrow> run_commands e c wss w = (w', Done) \<Longrightarrow>
     handleConnection e c (stream_of wss) w = (disconnect c w', Hangup)"
  unfolding handleConnection_def by (rule connection_loop_words) simp_all

text \<open>Bytes behind the commands do not matter to what is replayed before them.\<close>

lemma replay_loop_skip:
  "list_all words_fit wss \<Longrightarrow> run_commands e None wss w = (w1, Done) \<Longrightarrow>
     length (stream_of wss @ rest) < fuel \<Longrightarrow>
     \<exists>f. length rest < Suc f \<and> replay_loop fuel e (stream_of wss @ rest) w = replay_loop (Suc f) e rest w1"
proof (induction wss arbitrary: w fuel)
  case Nil
  then show ?case by (cases fuel) (auto simp: finish_def simp del: replay_loop.simps)
next
  case (Cons ws wss)
  obtain f where f: "fuel = Suc f" using Cons.prems(3) by (cases fuel) auto
  obtain w0 where w0: "handleCommand e None (words ws) w = (w0, Done)" "run_commands e None wss w0 = (w1, Done)"
    using Cons.prems(2) by (auto split: prod.splits signal.splits)
  have "length (stream_of wss @ rest) < f"
    using stream_shorter [of ws "stream_of wss @ rest" f] Cons.prems(1,3) by (simp add: f)
  from Cons.IH [OF _ w0(2) this] Cons.prems(1) parse_words_more(1) [of ws] show ?case
    by (simp add: f parse_words command_of_words w0(1))
qed

lemma replay_bytes_words:
  "list_all words_fit wss \<Longrightarrow> run_commands e None wss w = (w', Done) \<Longrightarrow>
     replay_bytes e (stream_of wss) w = (w', Replayed)"
  using replay_loop_skip [of wss e w w' "[]" "Suc (length (stream_of wss))"]
  by (auto simp: replay_bytes_def ParseRESP_def err_is_EOF_def)

lemma replay_loop_panic:
  assumes "list_all words_fit wss" and "run_commands e None wss w = (w1, Done)" and "words_fit ws"
    and "handleCommand e None (words ws) w1 = (w2, Panic)"
    and "length (stream_of wss @ encodeRESPArray (words ws) @ rest) < fuel"
  shows "replay_loop fuel e (stream_of wss @ encodeRESPArray (words ws) @ rest) w = (w2, Interrupted Panic)"
  using replay_loop_skip [OF assms(1,2,5)] assms(3,4) parse_words_more(1) [of ws]
  by (auto simp: parse_words command_of_words)

section \<open>The loops end\<close>

lemma connection_turn_shrinks:
  "connection_turn e c inp w = (w1, Continue rest) \<Longrightarrow> length rest < length inp"
  by (auto simp: connection_turn_def dest: ParseRESP_shrinks
      split: pres.splits option.splits prod.splits signal.splits)

lemma connection_loop_ends:
  "wf_world w \<Longrightarrow> length inp < fuel \<Longrightarrow>
     snd (connection_loop fuel e c inp w) \<notin> range Continue \<union> range (Stop TooDeep)"
proof (induction fuel arbitrary: inp w)
  case (Suc f)
  obtain w1 t where t: "connection_turn e c inp w = (w1, t)" by (cases "connection_turn e c inp w")
  have w1: "wf_world w1" using wf.fine_turn(1) [OF Suc.prems(1), of e c inp] t by simp
  show ?case
  proof (cases t)
    case (Continue rest)
    then have "length rest < f" using connection_turn_shrinks [of e c inp w w1 rest] t Suc.prems(2) by simp
    with Suc.IH [OF w1] t Continue show ?thesis by simp
  next
    case (Stop sig rest)
    with wf.fine_turn(2) [OF Suc.prems(1), of e c inp sig rest] t show ?thesis by auto
  qed (use t in auto)
qed simp

lemma handled:
  assumes "wf_world w"
  obtains w1 sig where "handleCommand e c arr w = (w1, sig)" "wf_world w1" "sig \<noteq> TooDeep"
  using wf.fine_handleCommand [OF assms, of e c arr]
  by (cases "handleCommand e c arr w") (simp add: fine_def)

lemma replay_loop_ends:
  "wf_world w \<Longrightarrow> length inp < fuel \<Longrightarrow> snd (replay_loop fuel e inp w) \<noteq> Interrupted TooDeep"
proof (induction fuel arbitrary: inp w)
  case (Suc f)
  show ?case
  proof (cases "ParseRESP inp")
    case (POk v rest)
    then have len: "length rest < f" using ParseRESP_shrinks [OF POk] Suc.prems(2) by simp
    show ?thesis
    proof (cases "command_of v")
      case None
      with Suc.IH [OF Suc.prems(1) len] POk show ?thesis by simp
    next
      case (Some arr)
      obtain w1 sig where "handleCommand e None arr w = (w1, sig)" "wf_world w1" "sig \<noteq> TooDeep"
        using handled [OF Suc.prems(1)] .
      with Suc.IH [OF _ len, of w1] POk Some show ?thesis by (cases sig) simp_all
    qed
  qed (use ParseRESP_not_fuel [of inp] in simp_all)
qed simp

lemma replica_loop_ends:
  "wf_world w \<Longrightarrow> length inp < fuel \<Longrightarrow>
     snd (snd (replica_loop fuel e m inp off w)) \<noteq> Interrupted TooDeep"
proof (induction fuel arbitrary: inp off w)
  case (Suc f)
  show ?case
  proof (cases "ParseRESP inp")
    case (POk v rest)
    then have len: "length rest < f" using ParseRESP_shrinks [OF POk] Suc.prems(2) by simp
    show ?thesis
    proof (cases "command_of v")
      case None
      with Suc.IH [OF Suc.prems(1) len] POk show ?thesis by simp
    next
      case (Some arr)
      obtain w1 sig where "handleCommand e None arr w = (w1, sig)" "wf_world w1" "sig \<noteq> TooDeep"
        using handled [OF Suc.prems(1)] .
      with Suc.IH [OF _ len] Suc.prems(1) POk Some show ?thesis
        by (cases "is_GETACK arr"; cases sig) (simp_all add: Let_def keeps)
    qed
  qed (use ParseRESP_not_fuel [of inp] in simp_all)
qed simp

text \<open>
  C30: the loops of the server come to an end on every input: the loop of a connection when the
  client's stream ends, a command waits or the process stops; the replay of a log and the loop
  of a replica likewise. None runs out of the fuel the model gives it.
\<close>

theorem loops_end:
  assumes "wf_world w"
  shows "(\<exists>w' t. handleConnection e c inp w = (w', t) \<and>
      (t = Hangup \<or> (\<exists>sig rest. t = Stop sig rest \<and> sig \<noteq> TooDeep))) \<and>
    snd (replay_bytes e inp w) \<noteq> Interrupted TooDeep \<and>
    snd (snd (replicate_from e m inp w)) \<noteq> Interrupted TooDeep"
proof -
  obtain w' t where "handleConnection e c inp w = (w', t)" by (cases "handleConnection e c inp w")
  with connection_loop_ends [OF assms, of inp "Suc (length inp)" e c] show ?thesis
    using replay_loop_ends [OF assms, of inp] replica_loop_ends [OF assms, of inp]
    by (cases t) (auto simp: handleConnection_def replay_bytes_def replicate_from_def
        simp del: replay_loop.simps replica_loop.simps connection_loop.simps)
qed

text \<open>An environment to try things out in: default settings, no failing system call.\<close>

definition demo_env :: env where
  "demo_env =
     \<lparr>now = 0, cfg = default_config ''/data'', io = (\<lambda>call path. False),
      hw = \<lparr>mSin = (\<lambda>x. 0), mCos = (\<lambda>x. 0), mAtan2 = (\<lambda>x y. 0), mSqrt = (\<lambda>x. 0),
            out_u32 = (\<lambda>x. 0), out_u64 = (\<lambda>x. 0), out_i64 = (\<lambda>x. 0)\<rparr>,
      quoted = (\<lambda>s. s), sha256_hex = (\<lambda>s. s)\<rparr>"

definition empty_world :: world where
  "empty_world = initial_world [] [] []"

lemma wf_empty_world: "wf_world empty_world"
  unfolding empty_world_def by (rule wf_initial) (simp add: wf_values_def NewStore_def)

theorem loops_end_witness:
  "\<exists>w' t. handleConnection demo_env (Some 7) ''*'' empty_world = (w', t) \<and>
     (t = Hangup \<or> (\<exists>sig rest. t = Stop sig rest \<and> sig \<noteq> TooDeep))"
  using loops_end [OF wf_empty_world, of demo_env "Some 7" "''*''"] by blast

end
