(* ===== verification/DispatchFacts.thy ===== *)
theory DispatchFacts
  imports ServerFacts
begin

text \<open>
  What the gates of \<open>handleCommand\<close> guarantee: a client without the password gets errors and
  nothing else, a subscribed client cannot run other commands, and a transaction runs exactly
  the commands that were queued, as if they had been sent one by one.
\<close>

section \<open>Through the gates\<close>

text \<open>A client that no gate holds back, already let in.\<close>

definition free_client :: "env \<Rightarrow> conn \<Rightarrow> world \<Rightarrow> bool" where
  "free_client e c w \<longleftrightarrow> IsAuthenticated c w \<and>
     (c \<noteq> None \<longrightarrow> \<not> IsSubscribed c w \<and> \<not> IsInTx c w)"

lemma let_in_free [simp]: "IsAuthenticated c w \<Longrightarrow> let_in e c w = w"
  by (simp add: let_in_def)

lemma handle_free:
  "free_client e c w \<Longrightarrow> command_name arr = Some cmd \<Longrightarrow>
     handle_with run e c arr w = dispatch run e c cmd arr w"
  by (auto simp: free_client_def handle_with_def Let_def)

lemma handleCommand_with:
  "handleCommand e c arr w = handle_with (run_queue (handle_at 1 e c)) e c arr w"
  by (simp add: handleCommand_def numeral_2_eq_2)

lemma handleCommand_free:
  "free_client e c w \<Longrightarrow> command_name arr = Some cmd \<Longrightarrow>
     handleCommand e c arr w = dispatch (run_queue (handle_at 1 e c)) e c cmd arr w"
  by (simp add: handleCommand_with handle_free)

lemma free_nil [simp]: "free_client e None w"
  by (simp add: free_client_def IsAuthenticated_def)

text \<open>Only \<open>EXEC\<close> looks at the runner, so a command that may be queued needs one level only.\<close>

lemma dispatch_not_exec: "cmd \<noteq> ''EXEC'' \<Longrightarrow> dispatch run e c cmd arr w = dispatch run' e c cmd arr w"
  using handlers_not_exec [of cmd run e c run'] by (simp add: dispatch_def)

lemma handle_1_queue_ok: "queue_ok arr \<Longrightarrow> handle_at 1 e c arr w = handleCommand e c arr w"
proof -
  assume "queue_ok arr"
  then have "command_name arr \<noteq> Some ''EXEC''" by (auto simp: queue_ok_def tx_commands_def)
  then have "handle_with run e c arr w = handle_with run' e c arr w" for run run'
    using dispatch_not_exec [of _ run e c arr _ run']
    by (cases "command_name arr") (auto simp: handle_with_def Let_def)
  then show ?thesis by (simp add: handleCommand_with)
qed

lemma run_queue_cong:
  "list_all (\<lambda>arr. \<forall>w. h arr w = h' arr w) queue \<Longrightarrow> run_queue h queue w = run_queue h' queue w"
  by (induction queue arbitrary: w) (auto split: prod.split signal.split)

lemma run_queue_append:
  "run_queue h (as @ bs) w =
     (case run_queue h as w of
        (w1, Done) \<Rightarrow> run_queue h bs w1
      | (w1, Waiting wt q) \<Rightarrow> (w1, Waiting wt (q @ bs))
      | (w1, sig) \<Rightarrow> (w1, sig))"
  by (induction as arbitrary: w) (auto simp: finish_def split: prod.split signal.split)

section \<open>Passwords\<close>

definition given_password :: "resp list \<Rightarrow> string" where
  "given_password arr = (if length arr = 3 then arg arr 2 else arg arr 1)"

definition right_password :: "env \<Rightarrow> world \<Rightarrow> string \<Rightarrow> bool" where
  "right_password e w p \<longleftrightarrow>
     (requirepass (cfg e) \<noteq> [] \<and> p = requirepass (cfg e)) \<or> p \<in> set (defaultUserPasswords w)"

definition logs_in :: "env \<Rightarrow> world \<Rightarrow> resp list \<Rightarrow> bool" where
  "logs_in e w arr \<longleftrightarrow> command_name arr = Some ''AUTH'' \<and> 2 \<le> length arr \<and>
     right_password e w (given_password arr)"

text \<open>What has been sent to the client since, and nothing else has happened.\<close>

definition only_replies :: "conn \<Rightarrow> string list \<Rightarrow> world \<Rightarrow> world" where
  "only_replies c out w = w\<lparr>sent := sent w @ map (Pair c) out\<rparr>"

lemma only_replies_simps [simp]:
  "only_replies c [] w = w" "only_replies c out (only_replies c out' w) = only_replies c (out' @ out) w"
  "authRequired e (only_replies c out w) = authRequired e w"
  "IsAuthenticated c' (only_replies c out w) = IsAuthenticated c' w"
  "IsSubscribed c' (only_replies c out w) = IsSubscribed c' w"
  "IsInTx c' (only_replies c out w) = IsInTx c' w"
  "logs_in e (only_replies c out w) arr = logs_in e w arr"
  by (simp_all add: only_replies_def authRequired_def IsAuthenticated_def IsSubscribed_def IsInTx_def
      logs_in_def right_password_def)

lemma reply_only: "reply (Some n) b w = only_replies (Some n) [b] w"
  by (simp add: reply_def only_replies_def)

lemma writeErr_only: "writeErr (Some n) m w = only_replies (Some n) [writeErr_bytes m] w"
  by (simp add: writeErr_def reply_only)

definition error_reply :: "string \<Rightarrow> bool" where "error_reply b \<longleftrightarrow> prefix ''-'' b"

lemma writeErr_bytes_error [simp]: "error_reply (writeErr_bytes m)"
  by (auto simp: error_reply_def writeErr_bytes_def)

lemma AUTH_cases:
  assumes "authRequired e w"
  shows "2 \<le> length arr \<Longrightarrow> right_password e w (given_password arr) \<Longrightarrow>
      handleAUTH e (Some n) arr w = finish (writeOK (Some n) (Authenticate (Some n) w))"
    and "\<not> (2 \<le> length arr \<and> right_password e w (given_password arr)) \<Longrightarrow>
      \<exists>m. handleAUTH e (Some n) arr w = finish (writeErr (Some n) m w)"
  using assms
  by (auto simp: handleAUTH_def Let_def right_password_def given_password_def authRequired_def)

text \<open>One command of a client outside: an error reply at most.\<close>

lemma outside_step:
  assumes "authRequired e w" and "\<not> IsAuthenticated (Some n) w"
    and "\<not> IsSubscribed (Some n) w" and "\<not> IsInTx (Some n) w" and "\<not> logs_in e w arr"
  shows "\<exists>out. handleCommand e (Some n) arr w = finish (only_replies (Some n) out w) \<and>
    list_all error_reply out"
proof (cases "command_name arr")
  case None
  then show ?thesis by (auto simp: handleCommand_with handle_with_def intro: exI [of _ "[]"])
next
  case (Some cmd)
  have l: "let_in e (Some n) w = w" using assms(1) by (simp add: let_in_def)
  show ?thesis
  proof (cases "cmd = ''AUTH''")
    case True
    have "\<not> (2 \<le> length arr \<and> right_password e w (given_password arr))"
      using assms(5) Some True by (simp add: logs_in_def)
    from AUTH_cases(2) [OF assms(1) this, of n] obtain m
      where "handleAUTH e (Some n) arr w = finish (writeErr (Some n) m w)" by blast
    then show ?thesis
      using assms Some True l
      by (auto simp: handleCommand_with handle_with_def Let_def dispatch_def handlers_def writeErr_only
          intro!: exI [of _ "[writeErr_bytes m]"])
  next
    case False
    then show ?thesis
      using assms Some l
      by (auto simp: handleCommand_with handle_with_def Let_def writeErr_only
          intro!: exI [of _ "[writeErr_bytes ''NOAUTH Authentication required.'']"])
  qed
qed

section \<open>Transactions\<close>

definition queued_reply :: string where "queued_reply = ''+QUEUED'' @ crlf"

text \<open>A client inside a transaction: the commands are appended to its queue, one by one.\<close>

lemma queue_one:
  assumes "IsAuthenticated (Some n) w" and "\<not> IsSubscribed (Some n) w"
    and "mget (transactions w) (Some n) = Some q" and "queue_ok arr"
  shows "handleCommand e (Some n) arr w =
    finish (only_replies (Some n) [queued_reply] (w\<lparr>transactions := mput (Some n) (q @ [arr]) (transactions w)\<rparr>))"
  using assms
  by (auto simp: handleCommand_with handle_with_def Let_def queue_ok_def IsInTx_def QueueCommand_def
      conn_write_def finish_def only_replies_def queued_reply_def split: option.splits)

lemma update_twice: "mput k v (mput k v' m) = mput k v m"
  by (induction m) auto

lemma queue_many:
  assumes "IsAuthenticated (Some n) w" and "\<not> IsSubscribed (Some n) w"
    and "mget (transactions w) (Some n) = Some q" and "list_all queue_ok arrs"
  shows "\<exists>ts. run_queue (handleCommand e (Some n)) arrs w =
      finish (only_replies (Some n) (replicate (length arrs) queued_reply) (w\<lparr>transactions := ts\<rparr>)) \<and>
    mget ts (Some n) = Some (q @ arrs) \<and> mdel (Some n) ts = mdel (Some n) (transactions w)"
  using assms
proof (induction arrs arbitrary: w q)
  case Nil
  have "run_queue (handleCommand e (Some n)) [] w =
      finish (only_replies (Some n) (replicate (length []) queued_reply) (w\<lparr>transactions := transactions w\<rparr>))"
    by simp
  with Nil show ?case by (intro exI [of _ "transactions w"]) simp
next
  case (Cons arr arrs)
  let ?ts = "mput (Some n) (q @ [arr]) (transactions w)"
  let ?w1 = "only_replies (Some n) [queued_reply] (w\<lparr>transactions := ?ts\<rparr>)"
  have one: "handleCommand e (Some n) arr w = (?w1, Done)"
    using queue_one [OF Cons.prems(1-3), of arr e] Cons.prems(4) by (simp add: finish_def)
  have "IsAuthenticated (Some n) ?w1" "\<not> IsSubscribed (Some n) ?w1" "list_all queue_ok arrs"
      "mget (transactions ?w1) (Some n) = Some (q @ [arr])"
    using Cons.prems by (simp_all add: only_replies_def IsAuthenticated_def IsSubscribed_def)
  from Cons.IH [OF this(1,2,4,3)] obtain ts where
    "run_queue (handleCommand e (Some n)) arrs ?w1 =
       finish (only_replies (Some n) (replicate (length arrs) queued_reply) (?w1\<lparr>transactions := ts\<rparr>))"
    "mget ts (Some n) = Some (q @ arr # arrs)" "mdel (Some n) ts = mdel (Some n) ?ts"
    by (auto simp: only_replies_def)
  with one show ?case
    by (intro exI [of _ ts]) (simp add: finish_def only_replies_def delete_update_same)
qed

lemma MULTI_free:
  "free_client e (Some n) w \<Longrightarrow> handleCommand e (Some n) [RStr ''MULTI''] w =
     finish (only_replies (Some n) [writeOK_bytes] (w\<lparr>transactions := mput (Some n) [] (transactions w)\<rparr>))"
  by (simp add: handleCommand_free [where cmd = "''MULTI''"] command_name_def asString_def go_eval
      dispatch_def handlers_def handleMULTI_def StartTx_def remote_addr_def and_then_def writeOK_def
      reply_only free_client_def IsInTx_def)

definition exec_start :: "nat \<Rightarrow> resp list list \<Rightarrow> world \<Rightarrow> world" where
  "exec_start n arrs w =
     only_replies (Some n) [array_header (length arrs)]
       (Unwatch (Some n) (w\<lparr>transactions := mdel (Some n) (transactions w)\<rparr>))"

lemma EXEC_in_tx:
  assumes "IsAuthenticated (Some n) w" and "\<not> IsSubscribed (Some n) w"
    and "mget (transactions w) (Some n) = Some arrs" and "arrs \<noteq> []" and "list_all queue_ok arrs"
  shows "handleCommand e (Some n) [RStr ''EXEC''] w =
    (if IsDirty (Some n) w
     then finish (only_replies (Some n) [''*-1'' @ crlf]
            (Unwatch (Some n) (w\<lparr>transactions := mdel (Some n) (transactions w)\<rparr>)))
     else run_queue (handleCommand e (Some n)) arrs (exec_start n arrs w))"
proof -
  have "run_queue (handle_at 1 e (Some n)) arrs w' = run_queue (handleCommand e (Some n)) arrs w'" for w'
    using assms(5) handle_1_queue_ok [of _ e "Some n"]
    by (intro run_queue_cong) (simp add: list_all_iff del: handle_at.simps One_nat_def)
  moreover have "IsInTx (Some n) w" using assms(3) by (simp add: IsInTx_def)
  ultimately show ?thesis
    using assms(1-4)
    by (simp add: handleCommand_with handle_with_def Let_def command_name_def asString_def go_eval
        tx_commands_def dispatch_def handlers_def handleEXEC_def GetAndClearTx_def IsDirty_def
        remote_addr_def and_then_def conn_write_def finish_def exec_start_def only_replies_def)
qed

section \<open>Properties\<close>

text \<open>
  C9: with a password set, a client that has not given it can do nothing: whatever commands it
  sends, as long as none of them is an \<open>AUTH\<close> with a right password, each is answered by at
  most an error and nothing else in the server changes; the first \<open>AUTH\<close> with a right password
  lets it in and is answered by \<open>+OK\<close>.
\<close>

theorem outsiders_cannot_act:
  assumes "authRequired e w" and "\<not> IsAuthenticated (Some n) w"
    and "\<not> IsSubscribed (Some n) w" and "\<not> IsInTx (Some n) w"
    and "list_all (\<lambda>arr. \<not> logs_in e w arr) arrs"
  shows "\<exists>out. run_queue (handleCommand e (Some n)) arrs w = finish (only_replies (Some n) out w) \<and>
    list_all error_reply out \<and>
    (logs_in e w login \<longrightarrow>
      run_queue (handleCommand e (Some n)) (arrs @ [login]) w =
        finish (only_replies (Some n) [writeOK_bytes] (Authenticate (Some n) (only_replies (Some n) out w))))"
  using assms
proof (induction arrs arbitrary: w)
  case Nil
  have "handleCommand e (Some n) login w =
      finish (only_replies (Some n) [writeOK_bytes] (Authenticate (Some n) w))" if "logs_in e w login"
    using that Nil AUTH_cases(1) [OF Nil(1), of login n]
    by (auto simp: handleCommand_with handle_with_def let_in_def Let_def dispatch_def handlers_def
        logs_in_def writeOK_def reply_only)
  then show ?case by (auto simp: finish_def intro!: exI [of _ "[]"])
next
  case (Cons arr arrs)
  from outside_step [OF Cons.prems(1-4), of arr] Cons.prems(5) obtain out1 where
    1: "handleCommand e (Some n) arr w = finish (only_replies (Some n) out1 w)" "list_all error_reply out1"
    by auto
  have "list_all (\<lambda>arr. \<not> logs_in e (only_replies (Some n) out1 w) arr) arrs"
    using Cons.prems(5) by simp
  from Cons.IH [OF _ _ _ _ this] Cons.prems(1-4) obtain out2 where
    "run_queue (handleCommand e (Some n)) arrs (only_replies (Some n) out1 w) =
       finish (only_replies (Some n) (out1 @ out2) w)" "list_all error_reply out2"
    "logs_in e w login \<longrightarrow> run_queue (handleCommand e (Some n)) (arrs @ [login]) (only_replies (Some n) out1 w) =
        finish (only_replies (Some n) [writeOK_bytes] (Authenticate (Some n) (only_replies (Some n) (out1 @ out2) w)))"
    by auto
  with 1 show ?case by (auto simp: finish_def intro!: exI [of _ "out1 @ out2"])
qed


text \<open>
  C6: a transaction runs the commands that were queued, in their order, each exactly as if the
  client had sent it then, without the transaction: a session \<open>MULTI\<close>, commands, \<open>EXEC\<close> is
  answered by \<open>+OK\<close>, \<open>+QUEUED\<close> for every command and the length of the reply, and from there
  behaves as the commands sent one by one by a client that watches nothing. If the client was
  marked dirty the commands are dropped and the answer is the null array.
\<close>

theorem transaction_session:
  assumes "free_client e (Some n) w" and "list_all queue_ok arrs" and "arrs \<noteq> []"
    and "acks = writeOK_bytes # replicate (length arrs) queued_reply"
  shows "run_queue (handleCommand e (Some n)) ([RStr ''MULTI''] # arrs @ [[RStr ''EXEC'']]) w =
    (if IsDirty (Some n) w
     then finish (Unwatch (Some n) (only_replies (Some n) (acks @ [''*-1'' @ crlf]) w))
     else run_queue (handleCommand e (Some n)) arrs
            (Unwatch (Some n) (only_replies (Some n) (acks @ [array_header (length arrs)]) w)))"
proof -
  let ?w1 = "only_replies (Some n) [writeOK_bytes] (w\<lparr>transactions := mput (Some n) [] (transactions w)\<rparr>)"
  have none: "mget (transactions w) (Some n) = None"
    using assms(1) by (simp add: free_client_def IsInTx_def)
  have free: "IsAuthenticated (Some n) ?w1" "\<not> IsSubscribed (Some n) ?w1"
      "mget (transactions ?w1) (Some n) = Some []"
    using assms(1) by (simp_all add: free_client_def only_replies_def IsAuthenticated_def IsSubscribed_def)
  from queue_many [OF free assms(2)] obtain ts where
    q: "run_queue (handleCommand e (Some n)) arrs ?w1 = finish
          (only_replies (Some n) (replicate (length arrs) queued_reply) (?w1\<lparr>transactions := ts\<rparr>))"
    and ts: "mget ts (Some n) = Some arrs" "mdel (Some n) ts = mdel (Some n) (transactions ?w1)"
    by auto
  have id: "mdel (Some n) ts = transactions w"
    using ts(2) none by (simp add: only_replies_def delete_update_same delete_idem map_of_eq_None_iff)
  let ?w2 = "only_replies (Some n) (replicate (length arrs) queued_reply) (?w1\<lparr>transactions := ts\<rparr>)"
  have w2: "IsAuthenticated (Some n) ?w2" "\<not> IsSubscribed (Some n) ?w2"
      "mget (transactions ?w2) (Some n) = Some arrs"
    using assms(1) ts(1)
    by (simp_all add: free_client_def only_replies_def IsAuthenticated_def IsSubscribed_def)
  have dirty: "IsDirty (Some n) ?w2 = IsDirty (Some n) w" by (simp add: IsDirty_def only_replies_def)
  note exec = EXEC_in_tx [OF w2 assms(3,2), of e]
  show ?thesis
    unfolding append_Cons append_Nil run_queue.simps MULTI_free [OF assms(1)] finish_def prod.case signal.case
      run_queue_append q [unfolded finish_def] exec dirty
    by (simp add: assms(4) exec_start_def only_replies_def id finish_def Unwatch_def) (simp split: prod.split signal.split)
qed


theorem outsiders_cannot_act_witness:
  "\<exists>out. run_queue (handleCommand demo_env (Some 7)) [words [''PING''], words [''AUTH'', ''x'']]
      (empty_world\<lparr>defaultUserPasswords := [''pw'']\<rparr>) =
      finish (only_replies (Some 7) out (empty_world\<lparr>defaultUserPasswords := [''pw'']\<rparr>)) \<and>
    list_all error_reply out"
proof -
  let ?w = "empty_world\<lparr>defaultUserPasswords := [''pw'']\<rparr>"
  have w: "authRequired demo_env ?w" "\<not> IsAuthenticated (Some 7) ?w" "\<not> IsSubscribed (Some 7) ?w"
      "\<not> IsInTx (Some 7) ?w"
    by (simp_all add: authRequired_def IsAuthenticated_def IsSubscribed_def IsInTx_def empty_world_def
        initial_world_def NewStore_def store.defs mget_bool_def)
  have "list_all (\<lambda>arr. \<not> logs_in demo_env ?w arr) [words [''PING''], words [''AUTH'', ''x'']]"
    by (simp add: logs_in_def given_password_def right_password_def demo_env_def default_config_def go_eval)
  from outsiders_cannot_act [OF w this, of "words [''PING'']"] show ?thesis by blast
qed

theorem transaction_session_witness:
  "run_queue (handleCommand demo_env (Some 7)) [words [''MULTI''], words [''PING''], words [''EXEC'']]
      (Authenticate (Some 7) empty_world) =
    run_queue (handleCommand demo_env (Some 7)) [words [''PING'']]
      (Unwatch (Some 7) (only_replies (Some 7) [writeOK_bytes, queued_reply, array_header 1]
        (Authenticate (Some 7) empty_world)))"
proof -
  let ?w = "Authenticate (Some 7) empty_world"
  have 1: "free_client demo_env (Some 7) ?w" "\<not> IsDirty (Some 7) ?w"
    by (simp_all add: free_client_def IsAuthenticated_def IsSubscribed_def IsInTx_def IsDirty_def
        empty_world_def initial_world_def NewStore_def store.defs mget_bool_def Authenticate_def)
  have 2: "list_all queue_ok [words [''PING'']]"
    by (simp add: queue_ok_def tx_commands_def go_eval)
  from transaction_session [OF 1(1) 2 _ refl] 1(2) show ?thesis by (simp add: words_def)
qed

lemma MULTI_empty_world:
  "handleCommand e (Some 7) (words [''MULTI'']) empty_world =
     (if authRequired e empty_world
      then finish (writeErr (Some 7) ''NOAUTH Authentication required.'' empty_world)
      else finish (only_replies (Some 7) [writeOK_bytes]
        ((Authenticate (Some 7) empty_world)\<lparr>transactions := [(Some 7, [])]\<rparr>)))"
  by (simp add: handleCommand_with handle_with_def Let_def let_in_def IsAuthenticated_def IsSubscribed_def
      IsInTx_def empty_world_def initial_world_def NewStore_def store.defs mget_bool_def Authenticate_def go_eval
      dispatch_def handlers_def handleMULTI_def StartTx_def remote_addr_def and_then_def writeOK_def
      reply_only)

theorem system_invariant_witness:
  "\<exists>s. run_events demo_env [Accept 7 (stream_of [[''MULTI'']]), Serve 7, Tick] (booted empty_world 0) = Some s \<and>
     IsInTx (Some 7) (state s) \<and> wf_world (state s) \<and> halted s \<in> {None, Some Panic, Some Stuck, Some Leaked}"
proof -
  let ?s0 = "booted (initial_world [] [] []) 0"
  have fit: "words_fit [''MULTI'']" by (simp add: words_fit_def max_int64_def max_alloc_def)
  have no: "\<not> authRequired (at_time demo_env s) empty_world" for s
    by (simp add: at_time_def authRequired_def demo_env_def default_config_def empty_world_def
        initial_world_def store.defs)
  have "\<exists>s. run_events demo_env [Accept 7 (stream_of [[''MULTI'']]), Serve 7, Tick] ?s0 = Some s \<and>
      IsInTx (Some 7) (state s)"
    using turn_words [OF fit, of _ _ "[]"]
    by (simp add: step_def Let_def booted_def serve_def settle_def MULTI_empty_world no finish_def
        IsInTx_def only_replies_def flip: empty_world_def)
  then obtain s where s: "run_events demo_env [Accept 7 (stream_of [[''MULTI'']]), Serve 7, Tick] ?s0 = Some s"
    "IsInTx (Some 7) (state s)" by blast
  then have "reachable demo_env ?s0 s" unfolding reachable_run by blast
  from system_invariant [OF _ this] s show ?thesis
    by (auto simp: wf_values_def NewStore_def simp flip: empty_world_def)
qed

end
