(* ===== verification/CommandFacts.thy ===== *)
theory CommandFacts
  imports DispatchFacts
begin

text \<open>
  One command of a client and the answer to it, as the client sees the server: what changes the
  keyspace and what comes back on the connection. The contexts under which the commands of the
  later theories are looked at are set up here.
\<close>

definition replies_since :: "conn \<Rightarrow> world \<Rightarrow> world \<Rightarrow> string list" where
  "replies_since c w w' = map snd (filter (\<lambda>m. fst m = c) (drop (length (sent w)) (sent w')))"

definition exchange :: "env \<Rightarrow> conn \<Rightarrow> string list \<Rightarrow> world \<Rightarrow> world \<times> signal \<times> string list" where
  "exchange e c ws w =
     (case handleCommand e c (words ws) w of (w', sig) \<Rightarrow> (w', sig, replies_since c w w'))"

text \<open>
  A connected client that no gate holds back, on a server without append-only file; it is not
  itself a replica.
\<close>

definition client_ready :: "env \<Rightarrow> nat \<Rightarrow> world \<Rightarrow> bool" where
  "client_ready e n w \<longleftrightarrow> free_client e (Some n) w \<and> Some n \<notin> set (replicas w) \<and>
     appendonly (cfg e) \<noteq> ''yes''"

definition same_access :: "world \<Rightarrow> world \<Rightarrow> bool" where
  "same_access w w' \<longleftrightarrow> authenticatedClients w' = authenticatedClients w \<and>
     clientSubscriptions w' = clientSubscriptions w \<and> transactions w' = transactions w \<and>
     replicas w' = replicas w"

lemma client_ready_same: "client_ready e n w \<Longrightarrow> same_access w w' \<Longrightarrow> client_ready e n w'"
  by (simp add: client_ready_def same_access_def free_client_def IsAuthenticated_def IsSubscribed_def
      IsInTx_def)

lemma same_access_store: "same_rest w w' \<Longrightarrow> same_access w w'"
  by (cases w; cases w') (simp add: same_access_def same_rest_def)

lemma same_access_trans: "same_access w w1 \<Longrightarrow> same_access w1 w2 \<Longrightarrow> same_access w w2"
  by (simp add: same_access_def)

lemma same_access_only [simp]:
  "same_access w (only_replies c out w') = same_access w w'"
  "same_access w (propagate arr w') = same_access w w'" "same_access w w"
  by (simp_all add: same_access_def only_replies_def propagate_def Let_def)

text \<open>Without a log a write is propagated and answered.\<close>

lemma persist_no_log:
  "appendonly (cfg e) \<noteq> ''yes'' \<Longrightarrow> persist_then e c arr k w = k (propagate arr w)"
  by (simp add: persist_then_def persistWriteCommand_def Let_def)

lemma propagate_frame [simp]:
  "cache (propagate arr w) = cache w" "expiry (propagate arr w) = expiry w"
  "waiters (propagate arr w) = waiters w"
  by (simp_all add: propagate_def Let_def)

lemma only_replies_frame [simp]:
  "cache (only_replies c out w) = cache w" "expiry (only_replies c out w) = expiry w"
  "waiters (only_replies c out w) = waiters w"
  by (simp_all add: only_replies_def)

lemma client_ready_outer [simp]:
  "client_ready e n (only_replies c out w) = client_ready e n w"
  "client_ready e n (propagate arr w) = client_ready e n w"
  by (simp_all add: client_ready_def free_client_def IsAuthenticated_def IsSubscribed_def IsInTx_def
      only_replies_def propagate_def Let_def)

text \<open>What a client is answered when the store changed to \<open>w1\<close> and nothing was sent on the way.\<close>

lemma replies_only:
  "store.more w1 = store.more w \<Longrightarrow> replies_since c w (only_replies c out w1) = out"
  by (cases w; cases w1) (simp add: replies_since_def only_replies_def comp_def)

lemma replies_propagated:
  "store.more w1 = store.more w \<Longrightarrow> c \<notin> set (replicas w) \<Longrightarrow>
     replies_since c w (only_replies c out (propagate arr w1)) = out"
  by (cases w; cases w1)
     (auto simp: replies_since_def only_replies_def propagate_def Let_def comp_def filter_empty_conv)

lemma replies_to_client:
  "writeOK (Some n) w = only_replies (Some n) [writeOK_bytes] w"
  "writeErr (Some n) m w = only_replies (Some n) [writeErr_bytes m] w"
  "writeNullBulk (Some n) w = only_replies (Some n) [writeNullBulk_bytes] w"
  "writeInteger (Some n) i w = only_replies (Some n) [writeInteger_bytes i] w"
  "writeString (Some n) s w = only_replies (Some n) [writeString_bytes s] w"
  "writeBulkString (Some n) s w = only_replies (Some n) [writeBulkString_bytes s] w"
  "writeArrayResponse (Some n) ss w = only_replies (Some n) [writeArrayResponse_bytes ss] w"
  by (simp_all add: writeOK_def writeErr_def writeNullBulk_def writeInteger_def writeString_def
      writeBulkString_def writeArrayResponse_def reply_only)

lemma conn_write_client: "conn_write (Some n) b w = finish (only_replies (Some n) [b] w)"
  by (simp add: conn_write_def finish_def only_replies_def)

lemma Get_no_expiry: "mget (expiry s) k = None \<Longrightarrow> Get t k s = (s, mget (cache s) k)"
  by (simp add: Get_def split: option.split)

lemma exchange_ready:
  assumes "client_ready e n w" and "ToUpper x = cmd"
  shows "exchange e (Some n) (x # xs) w =
    (case dispatch (run_queue (handle_at 1 e (Some n))) e (Some n) cmd (words (x # xs)) w of
       (w', sig) \<Rightarrow> (w', sig, replies_since (Some n) w w'))"
  using assms by (simp add: exchange_def client_ready_def handleCommand_free)

lemma all_strings_words [simp]: "all_strings (words ss) = Some ss"
  by (induction ss) (simp_all add: words_def asString_def)

lemma drop_words [simp]: "drop n (words ss) = words (drop n ss)"
  by (simp add: words_def drop_map)


section \<open>A client to try things out with\<close>

definition client_world :: world where
  "client_world = Authenticate (Some 7) empty_world"

lemma client_world_fields:
  "cache client_world = []" "expiry client_world = []" "waiters client_world = []"
  "transactions client_world = []" "clientSubscriptions client_world = []"
  "watchedKeys client_world = []" "dirtyClients client_world = []"
  "authenticatedClients client_world = [(Some 7, True)]" "replicas client_world = []"
  "sent client_world = []" "defaultUserPasswords client_world = []"
  by (simp_all add: client_world_def empty_world_def initial_world_def NewStore_def Authenticate_def
      store.defs)

lemma free_client_world: "free_client e (Some 7) client_world"
  by (simp add: free_client_def IsAuthenticated_def IsSubscribed_def IsInTx_def client_world_fields
      mget_bool_def)

lemma client_ready_demo: "client_ready demo_env 7 client_world"
  by (simp add: client_ready_def free_client_world client_world_fields demo_env_def default_config_def)

end
