(* ===== verification/ReplayFacts.thy ===== *)
theory ReplayFacts
  imports CommandFacts
begin

text \<open>
  The log and the replicas. A write that succeeds is appended to the log and sent to the
  replicas, a command that fails or changes nothing is not; both are read back by running the
  commands for a nil connection. The locale \<open>journal\<close> is the contract under which the bytes
  written reproduce the data; the append-only file and a replica's stream are interpretations.
\<close>

section \<open>Journals\<close>

locale journal =
  fixes inv :: "'s \<Rightarrow> bool"
    and view :: "'s \<Rightarrow> 'v"
    and bytes :: "'s \<Rightarrow> string"
    and exec :: "'op \<Rightarrow> 's \<Rightarrow> 's"
    and redo :: "'op \<Rightarrow> 'v \<Rightarrow> 'v"
    and enc :: "'op \<Rightarrow> string"
    and ok :: "'op \<Rightarrow> bool"
  assumes inv_exec: "inv s \<Longrightarrow> ok op \<Longrightarrow> inv (exec op s)"
    and exec_logged: "inv s \<Longrightarrow> ok op \<Longrightarrow>
      (bytes (exec op s) = bytes s \<and> view (exec op s) = view s) \<or>
      (bytes (exec op s) = bytes s @ enc op \<and> view (exec op s) = redo op (view s))"
begin

text \<open>What has been written are the encodings of some of the commands, which lead to the view.\<close>

lemma recover:
  "inv s \<Longrightarrow> list_all ok ops \<Longrightarrow>
     \<exists>log. subseq log ops \<and> inv (fold exec ops s) \<and>
       bytes (fold exec ops s) = bytes s @ concat (map enc log) \<and>
       view (fold exec ops s) = fold redo log (view s)"
proof (induction ops arbitrary: s)
  case Nil
  then show ?case by (intro exI [of _ "[]"]) simp
next
  case (Cons op ops)
  then have i: "inv (exec op s)" and ok: "list_all ok ops" by (simp_all add: inv_exec)
  from Cons.IH [OF this] obtain log where log: "subseq log ops" "inv (fold exec ops (exec op s))"
    "bytes (fold exec ops (exec op s)) = bytes (exec op s) @ concat (map enc log)"
    "view (fold exec ops (exec op s)) = fold redo log (view (exec op s))" by blast
  from exec_logged [of s op] Cons.prems consider
      (quiet) "bytes (exec op s) = bytes s" "view (exec op s) = view s"
    | (logged) "bytes (exec op s) = bytes s @ enc op" "view (exec op s) = redo op (view s)"
    by auto
  then show ?case
  proof cases
    case quiet
    with log show ?thesis by (intro exI [of _ log]) auto
  next
    case logged
    with log show ?thesis by (intro exI [of _ "op # log"]) auto
  qed
qed

end

section \<open>Commands that change the data\<close>

text \<open>
  The commands whose effect can be read back: without a time to live, as replaying would start
  it anew, and without pushes, which panic for a nil connection.
\<close>

datatype data_cmd =
    Dset string string
  | Dincr string
  | Dzadd string "(string \<times> string) list"
  | Dlpop string
  | Drpop string

fun pair_words :: "(string \<times> string) list \<Rightarrow> string list" where
  "pair_words [] = []"
| "pair_words ((score, member) # ps) = score # member # pair_words ps"

fun data_words :: "data_cmd \<Rightarrow> string list" where
  "data_words (Dset k v) = [''SET'', k, v]"
| "data_words (Dincr k) = [''INCR'', k]"
| "data_words (Dzadd k ps) = ''ZADD'' # k # pair_words ps"
| "data_words (Dlpop k) = [''LPOP'', k]"
| "data_words (Drpop k) = [''RPOP'', k]"

fun data_ok :: "data_cmd \<Rightarrow> bool" where
  "data_ok (Dzadd k ps) = (ps \<noteq> [] \<and> list_all (\<lambda>(score, member). ParseFloat score \<noteq> None) ps)"
| "data_ok _ = True"

text \<open>The effect on the store, if the command is to be logged, and its answer.\<close>

fun effect :: "data_cmd \<Rightarrow> world \<Rightarrow> world option" where
  "effect (Dset k v) w = Some (Set k (VStr v) w)"
| "effect (Dincr k) w = (case Incr k w of (w1, Inl err) \<Rightarrow> None | (w1, Inr val) \<Rightarrow> Some w1)"
| "effect (Dzadd k ps) w = Some (fst (zadd_loop k (words (pair_words ps)) 0 w))"
| "effect (Dlpop k) w = (if list_at w k = [] then None else Some (Set k (VList (tl (list_at w k))) w))"
| "effect (Drpop k) w =
     (if list_at w k = [] then None else Some (Set k (VList (butlast (list_at w k))) w))"

fun pop_answer :: "string \<Rightarrow> world \<Rightarrow> string \<Rightarrow> (string list \<Rightarrow> string) \<Rightarrow> string" where
  "pop_answer k w name pick =
     (if list_at w k \<noteq> [] then writeBulkString_bytes (pick (list_at w k))
      else if mget (cache w) k \<in> {None, Some (VList [])} then writeNullBulk_bytes
      else writeErr_bytes (name @ '' key is not a list''))"

fun data_answer :: "data_cmd \<Rightarrow> world \<Rightarrow> string" where
  "data_answer (Dset k v) w = writeOK_bytes"
| "data_answer (Dincr k) w =
     (case Incr k w of
        (w1, Inl err) \<Rightarrow> writeErr_bytes ''value is not an integer or out of range''
      | (w1, Inr val) \<Rightarrow> writeInteger_bytes val)"
| "data_answer (Dzadd k ps) w =
     writeInteger_bytes (the (snd (zadd_loop k (words (pair_words ps)) 0 w)))"
| "data_answer (Dlpop k) w = pop_answer k w ''LPOP'' hd"
| "data_answer (Drpop k) w = pop_answer k w ''RPOP'' last"

lemma zadd_loop_total:
  "list_all (\<lambda>(score, member). ParseFloat score \<noteq> None) ps \<Longrightarrow>
     snd (zadd_loop k (words (pair_words ps)) added w) \<noteq> None"
  by (induction ps arbitrary: added w) (auto simp: words_def asStringOrEmpty_def split: prod.split)

lemma length_pair_words [simp]: "length (pair_words ps) = 2 * length ps"
  by (induction ps rule: pair_words.induct) simp_all

text \<open>What \<open>handleCommand\<close> does with each of them, for a client and for the nil connection alike.\<close>

lemma data_handled:
  assumes f: "free_client e c w" and x: "expiry w = []" and ok: "data_ok op"
  shows "handleCommand e c (words (data_words op)) w =
    (case effect op w of
       None \<Rightarrow> finish (reply c (data_answer op w) w)
     | Some w1 \<Rightarrow> persist_then e c (words (data_words op)) (\<lambda>w'. finish (reply c (data_answer op w) w')) w1)"
proof -
  have g: "Get t k w = (w, mget (cache w) k)" for t k using x by (simp add: Get_no_expiry)
  have d: "handleCommand e c (words (name # xs)) w =
      dispatch (run_queue (handle_at 1 e c)) e c name (words (name # xs)) w" if "ToUpper name = name" for name xs
    using handleCommand_free [OF f] that by simp
  show ?thesis
  proof (cases op)
    case (Dset k v)
    then show ?thesis
      by (simp add: d go_eval dispatch_def handlers_def handleSET_def parseTTL_def writeOK_def Let_def)
  next
    case (Dincr k)
    have "fst (Incr k w) = w" if "snd (Incr k w) = Inl e'" for e'
      using that by (auto simp: Incr_def Let_def split: option.splits cached.splits prod.splits)
    then show ?thesis
      using Dincr
      by (auto simp: d go_eval dispatch_def handlers_def handleINCR_def writeErr_def writeInteger_def
          split: prod.splits sum.splits)
  next
    case (Dzadd k ps)
    have "2 \<le> length (pair_words ps)" using ok Dzadd by (cases ps) auto
    moreover have "snd (zadd_loop k (words (pair_words ps)) 0 w) \<noteq> None"
      using ok Dzadd zadd_loop_total by simp
    ultimately show ?thesis
      using Dzadd
      by (auto simp: d go_eval dispatch_def handlers_def handleZADD_def writeInteger_def
          split: prod.splits option.splits)
  next
    case (Dlpop k)
    show ?thesis
      using Dlpop
      by (auto simp: d go_eval dispatch_def handlers_def handleLPOP_def lpop_count_def g list_at_def
          writeBulkString_def writeNullBulk_def writeErr_def Let_def neq_Nil_conv
          split: option.splits cached.splits list.splits)
  next
    case (Drpop k)
    then show ?thesis
      by (auto simp: d go_eval dispatch_def handlers_def handleRPOP_def g list_at_def Let_def
          writeBulkString_def writeNullBulk_def writeErr_def split: option.splits cached.splits)
  qed
qed


text \<open>The effect depends on the cache only, and touches nothing but the store's data.\<close>

lemma Incr_cache:
  "cache s = cache s' \<Longrightarrow> cache (fst (Incr k s)) = cache (fst (Incr k s')) \<and> snd (Incr k s) = snd (Incr k s')"
  by (auto simp: Incr_def Let_def split: option.split cached.split prod.split)

lemma ZAdd_cache:
  "cache s = cache s' \<Longrightarrow> cache (fst (ZAdd k sc m s)) = cache (fst (ZAdd k sc m s'))"
  by (auto simp: ZAdd_def Let_def split: option.split cached.split)

lemma zadd_loop_cache:
  "cache w = cache w' \<Longrightarrow>
     cache (fst (zadd_loop k args added w)) = cache (fst (zadd_loop k args added' w'))"
proof (induction k args added w arbitrary: added' w' rule: zadd_loop.induct)
  case (1 key scoreArg memberArg rest added w)
  show ?case
  proof (cases "ParseFloat (asStringOrEmpty scoreArg)")
    case (Some sc)
    obtain w1 n w1' n' where z: "ZAdd key sc (asStringOrEmpty memberArg) w = (w1, n)"
        "ZAdd key sc (asStringOrEmpty memberArg) w' = (w1', n')"
      by (cases "ZAdd key sc (asStringOrEmpty memberArg) w"; cases "ZAdd key sc (asStringOrEmpty memberArg) w'")
    with ZAdd_cache [OF "1.prems", of key sc "asStringOrEmpty memberArg"] have "cache w1 = cache w1'" by simp
    with "1.IH" [OF Some z(1) [symmetric], of w1' "added' + n'"] Some z show ?thesis by simp
  qed (use "1.prems" in simp)
qed simp_all

lemma effect_cache:
  "cache w = cache w' \<Longrightarrow> map_option cache (effect op w) = map_option cache (effect op w')"
  using Incr_cache [of w w'] zadd_loop_cache [of w w']
  by (cases op) (auto simp: list_at_def split: prod.split sum.split, (metis fst_conv snd_conv sum.distinct(1))+)

lemma same_rest_refl [simp]: "same_rest w w" by (simp add: same_rest_def)

lemma same_rest_trans: "same_rest w w1 \<Longrightarrow> same_rest w1 w2 \<Longrightarrow> same_rest w w2"
  by (simp add: same_rest_def)

lemma ZAdd_rest: "same_rest w (fst (ZAdd k sc m w))" "expiry (fst (ZAdd k sc m w)) = expiry w"
  using exec_op_rest [of w "OpZAdd k sc m"] by (auto simp: ZAdd_def Let_def split: option.split cached.split)

lemma zadd_loop_rest:
  "same_rest w (fst (zadd_loop k args added w)) \<and> expiry (fst (zadd_loop k args added w)) = expiry w"
proof (induction k args added w rule: zadd_loop.induct)
  case (1 key scoreArg memberArg rest added w)
  show ?case
  proof (cases "ParseFloat (asStringOrEmpty scoreArg)")
    case (Some sc)
    obtain w1 n where z: "ZAdd key sc (asStringOrEmpty memberArg) w = (w1, n)"
      by (cases "ZAdd key sc (asStringOrEmpty memberArg) w")
    with "1.IH" [OF Some z [symmetric]] Some z ZAdd_rest [where w = w and k = key and sc = sc and m = "asStringOrEmpty memberArg"]
    show ?thesis by (auto intro: same_rest_trans)
  qed simp
qed simp_all

lemma effect_rest:
  "effect op w = Some w1 \<Longrightarrow> same_rest w w1 \<and> (expiry w = [] \<longrightarrow> expiry w1 = [])"
proof -
  assume e: "effect op w = Some w1"
  show ?thesis
  proof (cases op)
    case (Dincr k)
    have "same_rest w (fst (Incr k w))" using exec_op_rest [of w "OpIncr k"] by simp
    moreover have "expiry (fst (Incr k w)) = expiry w"
      by (auto simp: Incr_def Let_def split: option.split cached.split prod.split)
    ultimately show ?thesis using e Dincr by (auto split: prod.splits sum.splits)
  next
    case (Dzadd k ps)
    with e zadd_loop_rest [of w k "words (pair_words ps)" 0] show ?thesis by auto
  qed (use e exec_op_rest [of w "OpSet k v" for k v] in \<open>auto split: if_splits\<close>)
qed


section \<open>What a logged command leaves behind\<close>

lemma files_propagate [simp]: "files (propagate arr w) = files w"
  by (simp add: propagate_def Let_def)

text \<open>There is no log, or it can be appended to.\<close>

definition log_works :: "env \<Rightarrow> world \<Rightarrow> bool" where
  "log_works e w \<longleftrightarrow> appendonly (cfg e) \<noteq> ''yes'' \<or> (\<exists>p. aof_usable (io e) (cfg e) p (files w))"

definition logged_files :: "env \<Rightarrow> resp list \<Rightarrow> files \<Rightarrow> files" where
  "logged_files e arr fs =
     (if appendonly (cfg e) \<noteq> ''yes'' then fs else fst (appendRESPCommandToAOF (io e) (cfg e) arr fs))"

lemma persist_works:
  "log_works e w \<Longrightarrow> persist_then e (Some n) arr k w =
     k ((propagate arr w)\<lparr>files := logged_files e arr (files w)\<rparr>)"
proof (cases "appendonly (cfg e) = ''yes''")
  case True
  assume "log_works e w"
  with True obtain p where u: "aof_usable (io e) (cfg e) p (files w)" by (auto simp: log_works_def)
  obtain fs where "appendRESPCommandToAOF (io e) (cfg e) arr (files w) = (fs, None)"
    using append_ok(1) [OF u, of arr]
    by (cases "appendRESPCommandToAOF (io e) (cfg e) arr (files w)") simp
  with True show ?thesis
    by (simp add: persist_then_def persistWriteCommand_def logged_files_def Let_def)
qed (simp add: persist_no_log logged_files_def propagate_def Let_def)

lemma persist_nil: "persist_then e None arr k w = k (propagate arr w)"
  by (simp add: persist_then_def persistWriteCommand_def Let_def)

text \<open>A data command of a client on a server whose log works.\<close>

definition data_ready :: "env \<Rightarrow> nat \<Rightarrow> world \<Rightarrow> bool" where
  "data_ready e n w \<longleftrightarrow> free_client e (Some n) w \<and> expiry w = [] \<and> log_works e w"

definition exec_data :: "env \<Rightarrow> nat \<Rightarrow> data_cmd \<Rightarrow> world \<Rightarrow> world" where
  "exec_data e n op w = fst (handleCommand e (Some n) (words (data_words op)) w)"

lemma log_works_files: "files w' = files w \<Longrightarrow> log_works e w' = log_works e w"
  by (simp add: log_works_def)

lemma log_works_logged:
  "log_works e w \<Longrightarrow> files w' = logged_files e arr (files w) \<Longrightarrow> log_works e w'"
  using aof.usable_append [of "io e" "cfg e" _ "files w" arr]
  by (auto simp: log_works_def logged_files_def)

lemma more_files: "store.more w1 = store.more w \<Longrightarrow> files w1 = files w \<and> replicas w1 = replicas w \<and>
    sent w1 = sent w \<and> masterOffset w1 = masterOffset w"
  by (cases w; cases w1) simp

lemma free_client_rest: "same_rest w w1 \<Longrightarrow> free_client e c w1 = free_client e c w"
  by (simp add: free_client_def same_rest_def IsAuthenticated_def IsSubscribed_def IsInTx_def)

lemma free_client_outer [simp]:
  "free_client e c (w\<lparr>files := fs\<rparr>) = free_client e c w"
  "free_client e c (propagate arr w) = free_client e c w"
  "free_client e c (only_replies c' out w) = free_client e c w"
  by (simp_all add: free_client_def IsAuthenticated_def IsSubscribed_def IsInTx_def propagate_def
      only_replies_def Let_def)

lemma expiry_outer [simp]:
  "expiry (w\<lparr>files := fs\<rparr>) = expiry w" "cache (w\<lparr>files := fs\<rparr>) = cache w" for w :: world
  by simp_all

text \<open>Either nothing but the answer, or the effect, propagated and logged, and the answer.\<close>

lemma exec_data_cases:
  assumes r: "data_ready e n w" and ok: "data_ok op"
  shows "handleCommand e (Some n) (words (data_words op)) w = (exec_data e n op w, Done)"
    and "effect op w = None \<Longrightarrow> exec_data e n op w = only_replies (Some n) [data_answer op w] w"
    and "effect op w = Some w1 \<Longrightarrow> exec_data e n op w =
      only_replies (Some n) [data_answer op w] ((propagate (words (data_words op)) w1)
        \<lparr>files := logged_files e (words (data_words op)) (files w)\<rparr>)"
    and "data_ready e n (exec_data e n op w)"
proof -
  have f: "free_client e (Some n) w" "expiry w = []" "log_works e w"
    using r by (simp_all add: data_ready_def)
  note h = data_handled [OF f(1,2) ok]
  have quiet: "handleCommand e (Some n) (words (data_words op)) w =
      (only_replies (Some n) [data_answer op w] w, Done)" if "effect op w = None"
    using that by (simp add: h reply_only finish_def)
  have loud: "handleCommand e (Some n) (words (data_words op)) w =
      (only_replies (Some n) [data_answer op w] ((propagate (words (data_words op)) w1)
        \<lparr>files := logged_files e (words (data_words op)) (files w)\<rparr>), Done)"
    if "effect op w = Some w1" for w1
  proof -
    have eq: "files w1 = files w"
      using effect_rest [OF that] more_files [of w1 w] by (simp add: same_rest_def)
    from f(3) have "log_works e w1" unfolding log_works_files [OF eq] .
    with eq show ?thesis using that by (simp add: h persist_works reply_only finish_def)
  qed
  show "handleCommand e (Some n) (words (data_words op)) w = (exec_data e n op w, Done)"
    by (cases "effect op w") (simp_all add: exec_data_def quiet loud)
  show "effect op w = None \<Longrightarrow> exec_data e n op w = only_replies (Some n) [data_answer op w] w"
    by (simp add: exec_data_def quiet)
  show loud': "exec_data e n op w =
      only_replies (Some n) [data_answer op w] ((propagate (words (data_words op)) w1)
        \<lparr>files := logged_files e (words (data_words op)) (files w)\<rparr>)" if "effect op w = Some w1" for w1
    using that by (simp add: exec_data_def loud)
  show "data_ready e n (exec_data e n op w)"
  proof (cases "effect op w")
    case None
    then show ?thesis
      using f log_works_files [of "only_replies (Some n) [data_answer op w] w" w e]
      by (simp add: exec_data_def quiet data_ready_def) (simp add: only_replies_def)
  next
    case (Some w1)
    have "log_works e (exec_data e n op w)"
      by (rule log_works_logged [OF f(3)]) (simp add: loud' [OF Some] only_replies_def)
    then show ?thesis
      using effect_rest [OF Some] f(1,2) free_client_rest [of w w1 e "Some n"]
      by (simp add: data_ready_def loud' [OF Some])
  qed
qed

definition redo :: "data_cmd \<Rightarrow> (string, cached) gomap \<Rightarrow> (string, cached) gomap" where
  "redo op data = (case effect op (initial_world data [] []) of None \<Rightarrow> data | Some w1 \<Rightarrow> cache w1)"

lemma redo_effect: "effect op w = Some w1 \<Longrightarrow> redo op (cache w) = cache w1"
proof -
  assume e: "effect op w = Some w1"
  have "cache (initial_world (cache w) [] []) = cache w"
    by (simp add: initial_world_def NewStore_def store.defs)
  from effect_cache [OF this, of op] e
  have "map_option cache (effect op (initial_world (cache w) [] [])) = Some (cache w1)"
    by (simp only: option.map)
  then show ?thesis by (cases "effect op (initial_world (cache w) [] [])") (simp_all add: redo_def)
qed


section \<open>The append-only file as a journal\<close>

definition data_bytes :: "data_cmd \<Rightarrow> string" where
  "data_bytes op = encodeRESPArray (words (data_words op))"

definition aof_ready :: "env \<Rightarrow> nat \<Rightarrow> string \<Rightarrow> world \<Rightarrow> bool" where
  "aof_ready e n p w \<longleftrightarrow> data_ready e n w \<and> appendonly (cfg e) = ''yes'' \<and>
     aof_usable (io e) (cfg e) p (files w)"

lemma files_only [simp]: "files (only_replies c out w) = files w"
  by (simp add: only_replies_def)

lemma exec_data_files:
  assumes "data_ready e n w" and "data_ok op"
  shows "files (exec_data e n op w) =
      (if effect op w = None then files w
       else logged_files e (words (data_words op)) (files w))"
    and "cache (exec_data e n op w) = (if effect op w = None then cache w else redo op (cache w))"
  using exec_data_cases(2,3) [OF assms]
  by (cases "effect op w"; simp add: redo_effect)+

interpretation aof_journal: journal "aof_ready e n p" cache "\<lambda>w. content_at p (files w)"
    "exec_data e n" redo data_bytes data_ok for e n p
proof unfold_locales
  fix w op
  assume r: "aof_ready e n p w" and ok: "data_ok op"
  then have d: "data_ready e n w" and y: "appendonly (cfg e) = ''yes''"
    and u: "aof_usable (io e) (cfg e) p (files w)" by (simp_all add: aof_ready_def)
  note fs = exec_data_files [OF d ok]
  show "aof_ready e n p (exec_data e n op w)"
    using exec_data_cases(4) [OF d ok] y u aof.usable_append [OF u]
    by (simp add: aof_ready_def fs logged_files_def)
  show "content_at p (files (exec_data e n op w)) = content_at p (files w) \<and>
      cache (exec_data e n op w) = cache w \<or>
      content_at p (files (exec_data e n op w)) = content_at p (files w) @ data_bytes op \<and>
      cache (exec_data e n op w) = redo op (cache w)"
    using aof.content_append [OF u, of "words (data_words op)"]
    by (simp add: fs y logged_files_def data_bytes_def)
qed

section \<open>A replica's stream as a journal\<close>

definition stream_to :: "conn \<Rightarrow> world \<Rightarrow> string" where
  "stream_to r w = concat (map snd (filter (\<lambda>m. fst m = r) (sent w)))"

text \<open>The offset counts the bytes of the stream, from some number \<open>off0\<close> on.\<close>

definition replica_ready :: "env \<Rightarrow> nat \<Rightarrow> conn \<Rightarrow> int \<Rightarrow> world \<Rightarrow> bool" where
  "replica_ready e n r off0 w \<longleftrightarrow> data_ready e n w \<and> filter (\<lambda>c. c = r) (replicas w) = [r] \<and>
     r \<noteq> Some n \<and> masterOffset w = wrap64 (off0 + int (length (stream_to r w)))"

lemma wrap64_add: "wrap64 (wrap64 a + b) = wrap64 (a + b)"
proof -
  have "wrap64 a + b + 2 ^ 63 = (a + 2 ^ 63) mod 2 ^ 64 + b" by (simp add: wrap64_def)
  then have "(wrap64 a + b + 2 ^ 63) mod 2 ^ 64 = (a + 2 ^ 63 + b) mod 2 ^ 64"
    by (simp only: mod_add_left_eq)
  then have "wrap64 (wrap64 a + b) = (a + 2 ^ 63 + b) mod 2 ^ 64 - 2 ^ 63"
    by (simp only: wrap64_def [of "wrap64 a + b"])
  then show ?thesis by (simp add: wrap64_def [of "a + b"] ac_simps)
qed

lemma stream_propagate:
  "filter (\<lambda>c. c = r) (replicas w) = [r] \<Longrightarrow>
     stream_to r (propagate arr w) = stream_to r w @ encodeRESPArray arr"
proof -
  assume one: "filter (\<lambda>c. c = r) (replicas w) = [r]"
  have "filter (\<lambda>m. fst m = r) (map (\<lambda>c. (c, x)) cs) = map (\<lambda>c. (c, x)) (filter (\<lambda>c. c = r) cs)"
    for x :: string and cs by (induction cs) auto
  with one show ?thesis by (simp add: stream_to_def propagate_def Let_def)
qed

lemma stream_outer [simp]:
  "stream_to r (w\<lparr>files := fs\<rparr>) = stream_to r w"
  "r \<noteq> c \<Longrightarrow> stream_to r (only_replies c out w) = stream_to r w"
  by (auto simp: stream_to_def only_replies_def filter_empty_conv)

lemma replicas_outer [simp]:
  "replicas (w\<lparr>files := fs\<rparr>) = replicas w" "replicas (only_replies c out w) = replicas w"
  "replicas (propagate arr w) = replicas w"
  by (simp_all add: only_replies_def propagate_def Let_def)

lemma effect_outside:
  assumes "effect op w = Some w1"
  shows "stream_to r w1 = stream_to r w" "replicas w1 = replicas w" "masterOffset w1 = masterOffset w"
  using effect_rest [OF assms] more_files [of w1 w] by (simp_all add: same_rest_def stream_to_def)

lemma offset_outer [simp]:
  "masterOffset (w\<lparr>files := fs\<rparr>) = masterOffset w"
  "masterOffset (only_replies c out w) = masterOffset w"
  "masterOffset (propagate arr w) = wrap64 (masterOffset w + int (length (encodeRESPArray arr)))"
  by (simp_all add: only_replies_def propagate_def Let_def)

interpretation replica_journal: journal "replica_ready e n r off0" cache "stream_to r"
    "exec_data e n" redo data_bytes data_ok for e n r off0
proof unfold_locales
  fix w op
  assume rr: "replica_ready e n r off0 w" and ok: "data_ok op"
  then have d: "data_ready e n w" and one: "filter (\<lambda>c. c = r) (replicas w) = [r]" "r \<noteq> Some n"
    and off: "masterOffset w = wrap64 (off0 + int (length (stream_to r w)))"
    by (simp_all add: replica_ready_def)
  note cs = exec_data_cases(2,3) [OF d ok]
  have grows: "stream_to r (propagate (words (data_words op)) w1) = stream_to r w @ data_bytes op"
    if "effect op w = Some w1" for w1
    using one effect_outside [OF that] by (simp add: stream_propagate data_bytes_def)
  show "replica_ready e n r off0 (exec_data e n op w)"
  proof (cases "effect op w")
    case None
    with exec_data_cases(4) [OF d ok] one off show ?thesis by (simp add: replica_ready_def cs)
  next
    case (Some w1)
    have "masterOffset (exec_data e n op w) = wrap64 (off0 + int (length (stream_to r (exec_data e n op w))))"
      using one effect_outside(3) [OF Some] grows [OF Some]
      by (simp add: cs(2) [OF Some] off) (simp add: data_bytes_def wrap64_add add.assoc)
    with exec_data_cases(4) [OF d ok] one effect_outside(2) [OF Some] show ?thesis
      by (simp add: replica_ready_def cs(2) [OF Some])
  qed
  show "stream_to r (exec_data e n op w) = stream_to r w \<and> cache (exec_data e n op w) = cache w \<or>
      stream_to r (exec_data e n op w) = stream_to r w @ data_bytes op \<and>
      cache (exec_data e n op w) = redo op (cache w)"
    using one grows by (cases "effect op w") (simp_all add: cs redo_effect)
qed

section \<open>Reading back\<close>

lemma nil_run:
  "expiry w = [] \<Longrightarrow> list_all data_ok log \<Longrightarrow>
     \<exists>v. run_commands e None (map data_words log) w = (v, Done) \<and>
       cache v = fold redo log (cache w) \<and> expiry v = []"
proof (induction log arbitrary: w)
  case (Cons op log)
  have h: "handleCommand e None (words (data_words op)) w =
      (case effect op w of None \<Rightarrow> (w, Done) | Some w1 \<Rightarrow> (propagate (words (data_words op)) w1, Done))"
    using data_handled [OF free_nil Cons.prems(1)] Cons.prems(2)
    by (simp add: persist_nil reply_def finish_def split: option.split)
  show ?case
  proof (cases "effect op w")
    case None
    then have "redo op (cache w) = cache w"
    proof -
      have "cache (initial_world (cache w) [] []) = cache w"
        by (simp add: initial_world_def NewStore_def store.defs)
      from effect_cache [OF this, of op] None show ?thesis by (simp add: redo_def split: option.split)
    qed
    with Cons.IH [OF Cons.prems(1)] Cons.prems(2) h None show ?thesis by simp
  next
    case (Some w1)
    let ?w2 = "propagate (words (data_words op)) w1"
    have "expiry ?w2 = []" "cache ?w2 = redo op (cache w)"
      using effect_rest [OF Some] Cons.prems(1) redo_effect [OF Some] by simp_all
    with Cons.IH [of ?w2] Cons.prems(2) h Some show ?thesis by simp
  qed
qed (simp add: finish_def)

lemma client_run:
  assumes "data_ready e n w" and "list_all data_ok ops"
  shows "run_commands e (Some n) (map data_words ops) w = (fold (exec_data e n) ops w, Done)"
  using assms
proof (induction ops arbitrary: w)
  case (Cons op ops)
  then show ?case using exec_data_cases(1,4) [of e n w op] by simp
qed (simp add: finish_def)

lemma data_bytes_stream: "concat (map data_bytes log) = stream_of (map data_words log)"
  unfolding stream_of_def data_bytes_def list.map_comp comp_def by (rule refl)

lemma subseq_all: "subseq xs ys \<Longrightarrow> list_all P ys \<Longrightarrow> list_all P xs"
  by (induction rule: list_emb.induct) auto


lemma replica_loop_words:
  "list_all words_fit wss \<Longrightarrow> list_all (\<lambda>ws. \<not> is_GETACK (words ws)) wss \<Longrightarrow>
     length (stream_of wss) < fuel \<Longrightarrow> run_commands e None wss w = (w', Done) \<Longrightarrow>
     replica_loop fuel e m (stream_of wss) (wrap64 off) w =
       (w', wrap64 (off + int (length (stream_of wss))), Replayed)"
proof (induction wss arbitrary: w fuel off)
  case Nil
  then show ?case by (cases fuel) (simp_all add: ParseRESP_def finish_def)
next
  case (Cons ws wss)
  obtain f where f: "fuel = Suc f" using Cons.prems(3) by (cases fuel) auto
  obtain w1 where w1: "handleCommand e None (words ws) w = (w1, Done)" "run_commands e None wss w1 = (w', Done)"
    using Cons.prems(4) by (auto split: prod.splits signal.splits)
  have "length (stream_of wss) < f"
    using stream_shorter [of ws "stream_of wss" f] Cons.prems(1,3) by (simp add: f)
  with Cons.IH [OF _ _ this w1(2), of "off + int (length (encodeRESPArray (words ws)))"]
    Cons.prems(1,2) parse_words_more(1) [of ws] show ?case
    by (simp add: f parse_words command_of_words w1(1) wrap64_add ac_simps)
qed

lemma data_not_GETACK: "\<not> is_GETACK (words (data_words op))"
  by (cases op) (simp_all add: is_GETACK_def words_def asStringOrEmpty_def go_eval)

section \<open>Starting from a log\<close>

lemma usable_manifest:
  assumes "aof_usable fails config p fs"
  shows "appendfilename config \<noteq> []" "mget fs (manifest_path config) \<noteq> None"
    "readAOFFilePathFromManifest fails config fs = Inr p" "p \<noteq> manifest_path config"
  using assms
  by (auto simp: aof_usable_def readAOFFilePathFromManifest_def Let_def split: if_splits option.splits)

lemma main_start_log:
  assumes u: "aof_usable (io e) (cfg e) p fs" and io: "io e = (\<lambda>call path. False)"
    and cfg: "dbfilename (cfg e) = []" "appendonly (cfg e) = ''yes''"
  shows "main_start e fs = replay_bytes e (content_at p fs)
    (initial_world [] [] (if mget fs p = None then mput p [] fs else fs))"
proof -
  let ?fs = "if mget fs p = None then mput p [] fs else fs"
  note m = usable_manifest [OF u]
  have "readAOFFilePathFromManifest (io e) (cfg e) ?fs = readAOFFilePathFromManifest (io e) (cfg e) fs"
    using m(4) by (intro readAOF_cong) simp
  then have r: "readAOFFilePathFromManifest (io e) (cfg e) ?fs = Inr p" using m(3) by simp
  have fst: "files (initial_world d x ?fs) = ?fs" for d x by (simp add: initial_world_def store.defs)
  have c: "mget ?fs p = Some (content_at p fs)"
    by (cases "mget fs p") (simp_all add: content_at_def)
  have "ensureAOFState (io e) (cfg e) fs = (?fs, Inr (p, manifest_path (cfg e)))"
    using m io by (simp add: ensureAOFState_def ensureAOFDirectory_def open_append_def Let_def)
  moreover have "replayAOFCommands e (initial_world [] [] ?fs) =
      replay_bytes e (content_at p fs) (initial_world [] [] ?fs)"
    unfolding replayAOFCommands_def fst io r [unfolded io] if_False sum.case
    by (subst c) (simp add: cfg(2))
  ultimately show ?thesis by (simp add: main_start_def start_data_def cfg)
qed

end
