(* ===== verification/HandshakeFacts.thy ===== *)
theory HandshakeFacts
  imports ReplayFacts
begin

text \<open>
  The two sides of the replication handshake, \<open>handleCommand\<close> on the master and
  \<open>performReplicaHandshake\<close> with the reading of the snapshot on the replica, fit together.
\<close>

definition handshake_words :: "string \<Rightarrow> string list list" where
  "handshake_words rport =
     [[''PING''], [''REPLCONF'', ''listening-port'', rport], [''REPLCONF'', ''capa'', ''psync2''],
      [''PSYNC'', ''?'', ''-1'']]"

lemma command_bytes_words: "command_bytes ws = encodeRESPArray (words ws)"
  by (simp add: command_bytes_def encodeRESPArray_def words_def comp_def)

lemma handshake_stream: "concat (handshake_messages rport) = stream_of (handshake_words rport)"
  by (simp add: handshake_messages_def handshake_words_def command_bytes_words)

definition psync_replies :: "ServerConfig \<Rightarrow> string list" where
  "psync_replies config =
     [''+FULLRESYNC '' @ masterReplID config @ '' 0'' @ crlf, ''$'' @ Itoa (int (length emptyRDB)) @ crlf, emptyRDB]"

definition handshake_replies :: "ServerConfig \<Rightarrow> string list" where
  "handshake_replies config =
     [writeString_bytes ''PONG'', writeOK_bytes, writeOK_bytes] @ psync_replies config"

section \<open>The master's side\<close>

lemma PING_free:
  "free_client e (Some n) w \<Longrightarrow>
     handleCommand e (Some n) (words [''PING'']) w = finish (only_replies (Some n) [writeString_bytes ''PONG''] w)"
  by (simp add: handleCommand_free [where cmd = "''PING''"] go_eval dispatch_def handlers_def handlePING_def
      replies_to_client free_client_def)

lemma REPLCONF_free:
  "free_client e (Some n) w \<Longrightarrow> ToUpper x \<noteq> ''ACK'' \<Longrightarrow>
     handleCommand e (Some n) (words [''REPLCONF'', x, y]) w = finish (only_replies (Some n) [writeOK_bytes] w)"
  by (simp add: handleCommand_free [where cmd = "''REPLCONF''"] go_eval dispatch_def handlers_def
      handleREPLCONF_def replies_to_client)

lemma PSYNC_free:
  "free_client e (Some n) w \<Longrightarrow>
     handleCommand e (Some n) (words [''PSYNC'', x, y]) w =
       finish (addReplica (Some n) (only_replies (Some n) (psync_replies (cfg e)) w))"
  by (simp add: handleCommand_free [where cmd = "''PSYNC''"] go_eval dispatch_def handlers_def
      handlePSYNC_def conn_write_client psync_replies_def and_then_def finish_def)

lemma handshake_master:
  assumes "free_client e (Some n) w"
  shows "run_commands e (Some n) (handshake_words rport) w =
    finish (addReplica (Some n) (only_replies (Some n)
      ([writeString_bytes ''PONG'', writeOK_bytes, writeOK_bytes] @ psync_replies (cfg e)) w))"
  using assms
  by (simp add: handshake_words_def PING_free REPLCONF_free PSYNC_free finish_def go_eval)

section \<open>The replica's side\<close>

lemma simple_line: "CR \<notin> set v \<Longrightarrow> LF \<notin> set v \<Longrightarrow> ParseRESP (''+'' @ v @ crlf @ rest) = POk (RStr v) rest"
  by (rule ParseRESP_simple)

lemma handshake_replica:
  assumes "host \<noteq> []" and "mport \<noteq> []" and "rport \<noteq> []"
  shows "performReplicaHandshake host mport rport
      (concat [writeString_bytes ''PONG'', writeOK_bytes, writeOK_bytes] @ rest) =
    (handshake_messages rport, Some rest)"
  using assms simple_line [of "''PONG''"] simple_line [of "''OK''"]
  by (simp add: performReplicaHandshake_def handshake_messages_def writeString_bytes_def writeOK_bytes_def
      CR_def LF_def)

lemma skip_empty:
  assumes "CR \<notin> set (masterReplID config)" and "LF \<notin> set (masterReplID config)"
  shows "skip_snapshot (concat (psync_replies config) @ rest) = POk emptyRDB rest"
proof -
  have l: "length emptyRDB = 18" by (simp add: emptyRDB_def)
  have 1: "ParseRESP (''+'' @ (''FULLRESYNC '' @ masterReplID config @ '' 0'') @ crlf @ s) =
      POk (RStr (''FULLRESYNC '' @ masterReplID config @ '' 0'')) s" for s
    using assms by (intro simple_line) (auto simp: CR_def LF_def)
  have 2: "ReadString LF (''$'' @ Itoa 18 @ crlf @ s) = Some (''$'' @ Itoa 18 @ crlf, s)" for s
    using ReadString_line [of "''$'' @ Itoa 18" s] by (simp add: go_eval LF_def)
  have 3: "Atoi (TrimSpace (Itoa 18 @ crlf)) = (18, None)"
    by (simp add: ParseInt_Itoa in_int64_def min_int64_def max_int64_def)
  show ?thesis using 1 2 3 l by (simp add: psync_replies_def skip_snapshot_def max_alloc_def)
qed


section \<open>Properties\<close>

text \<open>
  C24: the handshake. Sent over a connection that no gate holds back, the messages of the
  replica are the commands \<open>PING\<close>, \<open>REPLCONF\<close> twice and \<open>PSYNC\<close>; the master answers all of them,
  registers the connection as a replica and changes nothing else. The replica accepts these
  answers, skips the snapshot and goes on reading exactly where the master's next write starts.
  The answers, snapshot included, do not depend on the master's data: the snapshot is always
  the empty one.
\<close>

theorem handshake_registers_replica:
  assumes "free_client e (Some n) w" and "host \<noteq> []" and "mport \<noteq> []" and "rport \<noteq> []"
    and "CR \<notin> set (masterReplID (cfg e))" and "LF \<notin> set (masterReplID (cfg e))"
  shows "concat (handshake_messages rport) = stream_of (handshake_words rport) \<and>
    (\<exists>rest. run_commands e (Some n) (handshake_words rport) w =
        finish (addReplica (Some n) (only_replies (Some n) (handshake_replies (cfg e)) w)) \<and>
      performReplicaHandshake host mport rport (concat (handshake_replies (cfg e)) @ later) =
        (handshake_messages rport, Some rest) \<and>
      skip_snapshot rest = POk emptyRDB later)"
  using handshake_stream [of rport] handshake_master [OF assms(1), of rport]
    handshake_replica [OF assms(2-4), of "concat (psync_replies (cfg e)) @ later"]
    skip_empty [OF assms(5,6), of later]
  by (simp add: handshake_replies_def)

theorem handshake_registers_replica_witness:
  "\<exists>rest. run_commands demo_env (Some 7) (handshake_words ''6380'') client_world =
       finish (addReplica (Some 7) (only_replies (Some 7) (handshake_replies (cfg demo_env)) client_world)) \<and>
     skip_snapshot rest = POk emptyRDB (stream_of [[''SET'', ''a'', ''1'']])"
  using handshake_registers_replica [OF free_client_world, of "''localhost''" "''6379''" "''6380''" demo_env
      "stream_of [[''SET'', ''a'', ''1'']]"]
  by (auto simp: demo_env_def default_config_def CR_def LF_def simp del: stream_of_simps)

end
