(* ===== verification/RecoveryFacts.thy ===== *)
theory RecoveryFacts
  imports ReplayFacts
begin

text \<open>
  The journals of \<open>ReplayFacts\<close> read back: a server that is started again on the files an earlier
  one left, and a replica that reads what its master has written to it.
\<close>

section \<open>Reading a whole log\<close>

lemma words_fit_subseq:
  "subseq log ops \<Longrightarrow> list_all (\<lambda>op. data_ok op \<and> words_fit (data_words op)) ops \<Longrightarrow>
     list_all data_ok log \<and> list_all words_fit (map data_words log)"
  by (frule (1) subseq_all) (simp add: list_all_iff)

lemma log_restart:
  assumes "aof_ready e n p w" and "io e = (\<lambda>call path. False)" and "dbfilename (cfg e) = []"
    and "cache w = []" and "content_at p (files w) = []"
    and "list_all (\<lambda>op. data_ok op \<and> words_fit (data_words op)) ops"
  shows "\<exists>w' v. run_commands e (Some n) (map data_words ops) w = (w', Done) \<and>
    main_start e (files w') = (v, Replayed) \<and> cache v = cache w' \<and> expiry v = []"
proof -
  let ?w' = "fold (exec_data e n) ops w"
  have ok: "list_all data_ok ops" using assms(6) by (simp add: list_all_iff)
  obtain log where log: "subseq log ops" "aof_ready e n p ?w'"
      "content_at p (files ?w') = concat (map data_bytes log)" "cache ?w' = fold redo log []"
    using aof_journal.recover [OF assms(1) ok] assms(4,5) by auto
  have run: "run_commands e (Some n) (map data_words ops) w = (?w', Done)"
    using assms(1) ok by (intro client_run) (simp_all add: aof_ready_def)
  let ?w0 = "initial_world [] [] (if mget (files ?w') p = None then mput p [] (files ?w') else files ?w')"
  have 0: "expiry ?w0 = []" "cache ?w0 = []" by (simp_all add: initial_world_def NewStore_def store.defs)
  have fit: "list_all data_ok log" "list_all words_fit (map data_words log)"
    using words_fit_subseq [OF log(1) assms(6)] by simp_all
  from nil_run [OF 0(1) fit(1), of e] obtain v where
    v: "run_commands e None (map data_words log) ?w0 = (v, Done)" "cache v = fold redo log []" "expiry v = []"
    unfolding 0(2) by blast
  have "main_start e (files ?w') = replay_bytes e (stream_of (map data_words log)) ?w0"
    using log(2) by (subst main_start_log [OF _ assms(2,3)])
      (auto simp: aof_ready_def log(3) data_bytes_stream)
  with replay_bytes_words [OF fit(2) v(1)] have "main_start e (files ?w') = (v, Replayed)" by simp
  with run v(2,3) log(2,4) show ?thesis by (intro exI [of _ ?w'] exI [of _ v]) simp
qed


text \<open>The first command of a client lets it in.\<close>

lemma let_in_twice [simp]: "let_in e c (let_in e c w) = let_in e c w"
  by (cases c) (simp_all add: let_in_def IsAuthenticated_def Authenticate_def authRequired_def mget_bool_def)

lemma handleCommand_let_in:
  "command_name arr \<noteq> None \<Longrightarrow> handleCommand e c arr (let_in e c w) = handleCommand e c arr w"
  by (auto simp: handleCommand_with handle_with_def)

lemma run_let_in:
  "wss \<noteq> [] \<Longrightarrow> list_all words_fit wss \<Longrightarrow>
     run_commands e c wss (let_in e c w) = run_commands e c wss w"
proof (cases wss)
  case (Cons ws wss')
  then show "list_all words_fit wss \<Longrightarrow> ?thesis"
    by (cases ws) (simp_all add: words_fit_def handleCommand_let_in)
qed simp

lemma disconnect_frame [simp]:
  "cache (disconnect c w) = cache w" "files (disconnect c w) = files w"
  by (simp_all add: disconnect_def RemoveSubscriber_def ClearTx_def Unwatch_def RemoveAuth_def
      removeReplica_def Let_def)

text \<open>A first start: both files are made, the log holds what it held, and that is replayed.\<close>

lemma first_start:
  assumes pc: "plain_config (cfg e) es" and io: "io e = (\<lambda>call path. False)"
    and cfg: "dbfilename (cfg e) = []" "appendonly (cfg e) = ''yes''"
    and fresh: "mget fs (manifest_path (cfg e)) = None"
    and p: "p = abs_path (es @ [appenddirname (cfg e), aof_name (cfg e)])"
    and new: "mget fs p = None"
  shows "main_start e fs = (initial_world [] [] (fresh_files (cfg e) p fs), Replayed) \<and>
    aof_usable (io e) (cfg e) p (fresh_files (cfg e) p fs) \<and>
    content_at p (fresh_files (cfg e) p fs) = []"
proof -
  let ?fs = "fresh_files (cfg e) p fs"
  note g = mget_fresh_files [of "cfg e" p fs] and differ = paths_differ [OF pc, folded p]
  have r: "readAOFFilePathFromManifest (io e) (cfg e) ?fs = Inr p"
    by (rule read_manifest [OF pc io p]) (simp add: g)
  have c: "mget ?fs p = Some []" using differ new by (simp add: g content_at_def)
  have fst: "files (initial_world d x ?fs) = ?fs" for d x by (simp add: initial_world_def store.defs)
  have "replayAOFCommands e (initial_world [] [] ?fs) = (initial_world [] [] ?fs, Replayed)"
    unfolding replayAOFCommands_def fst r sum.case
    by (subst c) (simp add: cfg(2) io replay_bytes_def ParseRESP_def err_is_EOF_def)
  with fresh_state [OF pc io fresh p] have "main_start e fs = (initial_world [] [] ?fs, Replayed)"
    by (simp add: main_start_def start_data_def cfg)
  then show ?thesis using r c differ io by (simp add: aof_usable_def content_at_def)
qed

lemma let_in_start:
  assumes "requirepass (cfg e) = []"
  shows "let_in e (Some n) (initial_world d x fs) = Authenticate (Some n) (initial_world d x fs)"
  using assms by (simp add: let_in_def authRequired_def IsAuthenticated_def initial_world_def
      NewStore_def store.defs mget_bool_def)

text \<open>A client of a server that has just been started for the first time.\<close>

lemma first_client:
  assumes "plain_config (cfg e) es" and "io e = (\<lambda>call path. False)" and "dbfilename (cfg e) = []"
    and "appendonly (cfg e) = ''yes''" and "requirepass (cfg e) = []"
    and "mget fs (manifest_path (cfg e)) = None"
    and "mget fs (abs_path (es @ [appenddirname (cfg e), aof_name (cfg e)])) = None"
  obtains w0 p where "main_start e fs = (w0, Replayed)" "aof_ready e n p (let_in e (Some n) w0)"
    "cache (let_in e (Some n) w0) = []" "waiters (let_in e (Some n) w0) = []"
    "content_at p (files (let_in e (Some n) w0)) = []"
proof -
  let ?p = "abs_path (es @ [appenddirname (cfg e), aof_name (cfg e)])"
  let ?start = "initial_world [] [] (fresh_files (cfg e) ?p fs)"
  note st = first_start [OF assms(1-4,6) refl assms(7)]
  have "aof_ready e n ?p (Authenticate (Some n) ?start)" "cache (Authenticate (Some n) ?start) = []"
      "waiters (Authenticate (Some n) ?start) = []" "content_at ?p (files (Authenticate (Some n) ?start)) = []"
    using st assms(4)
    by (auto simp: aof_ready_def data_ready_def log_works_def free_client_def IsAuthenticated_def
        IsSubscribed_def IsInTx_def initial_world_def NewStore_def store.defs mget_bool_def Authenticate_def)
  with st show ?thesis
    by (intro that [of ?start ?p]) (simp_all add: let_in_start [OF assms(5)])
qed

lemma let_in_frame [simp]: "files (let_in e c w) = files w" "cache (let_in e c w) = cache w"
  by (simp_all add: let_in_def Authenticate_def)

lemma run_from_start:
  assumes "run_commands e c wss (let_in e c w) = (w', Done)" and "list_all words_fit wss"
  shows "\<exists>w1. run_commands e c wss w = (w1, Done) \<and> files w1 = files w' \<and> cache w1 = cache w'"
proof (cases "wss = []")
  case True
  with assms(1) show ?thesis by (auto simp: finish_def)
next
  case False
  from assms(1) [unfolded run_let_in [OF this assms(2)]] show ?thesis by blast
qed

section \<open>Properties\<close>



section \<open>Witnesses\<close>

definition aof_env :: env where "aof_env = demo_env\<lparr>cfg := data_config\<rparr>"

lemma two_commands_fit:
  "list_all (\<lambda>op. data_ok op \<and> words_fit (data_words op)) [Dset ''a'' ''1'', Dincr ''a'']"
  by (simp add: words_fit_def max_int64_def max_alloc_def)



end
