(* ===== verification/ExpiryFacts.thy ===== *)
theory ExpiryFacts
  imports RecoveryFacts
begin

text \<open>
  Keys with a time to live, from the \<open>SET\<close> of a client to a restart. The log records the command
  as it came, so what is relative to the time of the command there is relative to the time of the
  replay afterwards.
\<close>

text \<open>What \<open>parseTTL\<close> and \<open>SetWithTTL\<close> make of the number, in nanoseconds.\<close>

definition life :: "string \<Rightarrow> int \<Rightarrow> int" where
  "life opt ttl = millis (if opt = ''EX'' then wrap64 (ttl * 1000) else ttl)"

lemma life_exact:
  "\<bar>ttl\<bar> \<le> 9223372036 \<Longrightarrow> life ''EX'' ttl = ttl * 1000000000"
  "\<bar>ttl\<bar> \<le> 9223372036854 \<Longrightarrow> life ''PX'' ttl = ttl * 1000000"
proof -
  assume "\<bar>ttl\<bar> \<le> 9223372036"
  then have "in_int64 (ttl * 1000)" "\<bar>ttl * 1000\<bar> \<le> 9223372036854"
    by (auto simp: in_int64_def min_int64_def max_int64_def)
  then show "life ''EX'' ttl = ttl * 1000000000" by (simp add: life_def wrap64_id millis_exact)
qed (simp add: life_def millis_exact)

text \<open>One second more than fits wraps around: the key has expired before it is set.\<close>

lemma life_overflow: "life ''EX'' 9223372037 < 0"
  by (simp add: life_def millis_def wrap64_def)

definition set_words :: "string \<Rightarrow> string \<Rightarrow> string \<Rightarrow> int \<Rightarrow> string list" where
  "set_words k v opt ttl = [''SET'', k, v, opt, Itoa ttl]"

lemma SET_expiring:
  assumes "free_client e c w" and "opt \<in> {''EX'', ''PX''}" and "in_int64 ttl"
  shows "handleCommand e c (words (set_words k v opt ttl)) w =
    persist_then e c (words (set_words k v opt ttl)) (\<lambda>w. finish (writeOK c w))
      (SetWithTTL (now e) k (VStr v) (if opt = ''EX'' then wrap64 (ttl * 1000) else ttl) w)"
proof -
  have up: "ToUpper opt = opt" using assms(2) by (auto simp: go_eval)
  have i: "asString (words (set_words k v opt ttl) ! 3) = (opt, True)"
      "asString (words (set_words k v opt ttl) ! 4) = (Itoa ttl, True)"
    by (simp_all add: set_words_def words_def asString_def)
  have "parseTTL (words (set_words k v opt ttl)) = Some (if opt = ''EX'' then wrap64 (ttl * 1000) else ttl)"
    using assms(2,3) unfolding parseTTL_def i by (auto simp: up set_words_def ParseInt_Itoa Let_def)
  then have "handleSET e c (words (set_words k v opt ttl)) w =
    persist_then e c (words (set_words k v opt ttl)) (\<lambda>w. finish (writeOK c w))
      (SetWithTTL (now e) k (VStr v) (if opt = ''EX'' then wrap64 (ttl * 1000) else ttl) w)"
    unfolding handleSET_def by (simp add: set_words_def Let_def)
  then show ?thesis
    by (simp add: set_words_def handleCommand_free [OF assms(1), where cmd = "''SET''"] go_eval
        dispatch_def handlers_def)
qed

lemma SetWithTTL_more: "store.more (SetWithTTL t k v ttl w) = store.more w" "same_rest w (SetWithTTL t k v ttl w)"
  using exec_op_rest [of w "OpSetTTL t k v ttl"] by (auto simp: same_rest_def)


section \<open>Properties\<close>

text \<open>
  C37: a restart renews the time to live. On a server started for the first time with an
  append-only file a client sets a key that is to expire. The running server forgets the key
  once its time has passed, counted from the command; a server started again on the files, at
  any time, counts it from its own start, so a key that had expired is there once more.
\<close>

theorem restart_renews_expiry:
  assumes "plain_config (cfg e) es" and "io e = (\<lambda>call path. False)" and "dbfilename (cfg e) = []"
    and "appendonly (cfg e) = ''yes''" and "requirepass (cfg e) = []"
    and "mget fs (manifest_path (cfg e)) = None"
    and "mget fs (abs_path (es @ [appenddirname (cfg e), aof_name (cfg e)])) = None"
    and "opt \<in> {''EX'', ''PX''}" and "in_int64 ttl" and "words_fit (set_words k v opt ttl)"
  shows "\<exists>w0 w1 w2. main_start e fs = (w0, Replayed) \<and>
    handleCommand e (Some n) (words (set_words k v opt ttl)) w0 = (w1, Done) \<and>
    main_start (e\<lparr>now := t1\<rparr>) (files w1) = (w2, Replayed) \<and>
    (\<forall>t. snd (Get t k w1) = (if t \<le> now e + life opt ttl then Some (VStr v) else None) \<and>
         snd (Get t k w2) = (if t \<le> t1 + life opt ttl then Some (VStr v) else None))"
proof -
  let ?ws = "set_words k v opt ttl"
  let ?ms = "if opt = ''EX'' then wrap64 (ttl * 1000) else ttl"
  let ?e = "e\<lparr>now := t1\<rparr>"
  have life: "millis ?ms = life opt ttl" by (simp add: life_def)
  from first_client [OF assms(1-7), of n] obtain w0 p where
    st: "main_start e fs = (w0, Replayed)" "aof_ready e n p (let_in e (Some n) w0)"
      "content_at p (files (let_in e (Some n) w0)) = []" by blast
  let ?w0 = "let_in e (Some n) w0"
  have r: "free_client e (Some n) ?w0" "log_works e ?w0" "aof_usable (io e) (cfg e) p (files ?w0)"
    using st(2) by (simp_all add: aof_ready_def data_ready_def)
  let ?s = "SetWithTTL (now e) k (VStr v) ?ms ?w0"
  have f: "files ?s = files ?w0" using more_files [of ?s ?w0] SetWithTTL_more(1) by blast
  let ?w1 = "writeOK (Some n) ((propagate (words ?ws) ?s)\<lparr>files := logged_files e (words ?ws) (files ?s)\<rparr>)"
  have "log_works e ?s" using r(2) by (simp add: log_works_files [OF f])
  then have "handleCommand e (Some n) (words ?ws) ?w0 = (?w1, Done)"
    unfolding SET_expiring [OF r(1) assms(8,9)] by (simp only: persist_works finish_def)
  then have h: "handleCommand e (Some n) (words ?ws) w0 = (?w1, Done)"
    by (simp add: handleCommand_let_in set_words_def)
  have live1: "live t ?w1 k = (if t \<le> now e + life opt ttl then Some (VStr v) else None)" for t
    using live_SetWithTTL [of t "now e" k "VStr v" ?ms ?w0 k]
    by (subst live_cong [of _ _ ?s]) (simp_all add: life writeOK_def reply_def propagate_def Let_def)
  have fs: "files ?w1 = logged_files e (words ?ws) (files ?w0)" by (simp add: f writeOK_def reply_only)
  have u: "aof_usable (io ?e) (cfg ?e) p (files ?w1)" "content_at p (files ?w1) = stream_of [?ws]"
    unfolding fs using aof.usable_append [OF r(3), of "words ?ws"] aof.content_append [OF r(3), of "words ?ws"] st(3)
    by (simp_all add: logged_files_def assms(4))
  let ?start = "initial_world [] [] (if mget (files ?w1) p = None then mput p [] (files ?w1) else files ?w1)"
  let ?w2 = "writeOK None (propagate (words ?ws) (SetWithTTL t1 k (VStr v) ?ms ?start))"
  have "handleCommand ?e None (words ?ws) ?start = (?w2, Done)"
    unfolding SET_expiring [OF free_nil assms(8,9)] by (simp add: persist_nil finish_def)
  then have "replay_bytes ?e (stream_of [?ws]) ?start = (?w2, Replayed)"
    using assms(10) by (intro replay_bytes_words) (simp_all add: finish_def)
  with main_start_log [OF u(1)] assms(2-4) have "main_start ?e (files ?w1) = (?w2, Replayed)"
    by (simp add: u(2))
  moreover have "live t ?w2 k = (if t \<le> t1 + life opt ttl then Some (VStr v) else None)" for t
    using live_SetWithTTL [of t t1 k "VStr v" ?ms ?start k]
    by (subst live_cong [of _ _ "SetWithTTL t1 k (VStr v) ?ms ?start"])
       (simp_all add: life writeOK_def reply_def)
  ultimately show ?thesis
    using st(1) h live1 by (intro exI [of _ w0] exI [of _ ?w1] exI [of _ ?w2]) (simp add: Get_live)
qed

text \<open>A key set for one second, and a restart an hour later.\<close>

theorem restart_renews_expiry_witness:
  "\<exists>w0 w1 w2. main_start aof_env [] = (w0, Replayed) \<and>
     handleCommand aof_env (Some 7) (words [''SET'', ''k'', ''v'', ''EX'', ''1'']) w0 = (w1, Done) \<and>
     main_start (aof_env\<lparr>now := 3600000000000\<rparr>) (files w1) = (w2, Replayed) \<and>
     snd (Get 3600000000001 ''k'' w1) = None \<and> snd (Get 3600000000001 ''k'' w2) = Some (VStr ''v'')"
proof -
  have "plain_config (cfg aof_env) [''data'']" by (simp add: aof_env_def data_config_plain)
  moreover have ws: "set_words ''k'' ''v'' ''EX'' 1 = [''SET'', ''k'', ''v'', ''EX'', ''1'']"
    by (simp add: set_words_def go_eval)
  moreover have "words_fit [''SET'', ''k'', ''v'', ''EX'', ''1'']"
    by (simp add: words_fit_def max_int64_def max_alloc_def)
  moreover have "in_int64 1" by (simp add: in_int64_def min_int64_def max_int64_def)
  moreover have "life ''EX'' 1 = 1000000000" by (simp add: life_exact)
  ultimately show ?thesis
    using restart_renews_expiry [of aof_env "[''data'']" "[]" "''EX''" 1 "''k''" "''v''" 7 3600000000000]
    by (fastforce simp: aof_env_def data_config_def default_config_def demo_env_def)
qed

end
