(* ===== verification/TornFacts.thy ===== *)
theory TornFacts
  imports RecoveryFacts
begin

text \<open>
  A log that ends in the middle of a command, as a crash during an append leaves it. The parser's
  answer depends on where the tear is: inside the bytes of a word it is \<open>unexpected EOF\<close>, anywhere
  else the plain end of the file.
\<close>

section \<open>Parsing a torn command\<close>

lemma strict_prefix_append:
  "strict_prefix t (a @ b) \<longleftrightarrow> strict_prefix t a \<or> (\<exists>x. t = a @ x \<and> strict_prefix x b)"
  by (auto simp: strict_prefix_def prefix_append)

lemma ReadString_None: "d \<notin> set s \<Longrightarrow> ReadString d s = None"
  by (induction s) auto

lemma torn_number: "strict_prefix t (Itoa n @ crlf) \<Longrightarrow> read_int_line t = Inl EOF"
proof -
  assume "strict_prefix t (Itoa n @ crlf)"
  then have "prefix t (Itoa n @ [CR])"
    by (auto simp: crlf_def strict_prefix_append prefix_append prefix_Cons strict_prefix_def)
  then have "set t \<subseteq> set (Itoa n @ [CR])" by (auto dest: set_mono_prefix)
  then have "LF \<notin> set t" using Itoa_no_LF [of n] by (auto simp: CR_def LF_def)
  then show ?thesis by (simp add: read_int_line_def ReadString_None)
qed

text \<open>The words before the one that is cut, and the part of it that is there.\<close>

definition payload_cut :: "string list \<Rightarrow> string \<Rightarrow> bool" where
  "payload_cut ws t \<longleftrightarrow> (\<exists>us w vs x. ws = us @ w # vs \<and> x \<noteq> [] \<and> strict_prefix x w \<and>
     t = concat (map bulk us) @ ''$'' @ Itoa (int (length w)) @ crlf @ x)"


lemma payload_cut_Nil [simp]: "\<not> payload_cut [] t" "\<not> payload_cut ws []"
  by (auto simp: payload_cut_def)

lemma payload_cut_one:
  "payload_cut [w] t \<longleftrightarrow> (\<exists>x. x \<noteq> [] \<and> strict_prefix x w \<and> t = ''$'' @ Itoa (int (length w)) @ crlf @ x)"
  by (auto simp: payload_cut_def Cons_eq_append_conv)

lemma payload_cut_Cons [simp]: "payload_cut (w # ws) (bulk w @ t) = payload_cut ws t"
proof
  assume "payload_cut (w # ws) (bulk w @ t)"
  then obtain us v vs x where c: "w # ws = us @ v # vs" "x \<noteq> []" "strict_prefix x v"
    "bulk w @ t = concat (map bulk us) @ ''$'' @ Itoa (int (length v)) @ crlf @ x"
    unfolding payload_cut_def by blast
  show "payload_cut ws t"
  proof (cases us)
    case Nil
    then have "length (bulk w @ t) < length (bulk w)"
      using c prefix_length_less [OF c(3)] by (simp add: bulk_def)
    then show ?thesis by simp
  next
    case (Cons u us')
    with c show ?thesis by (auto simp: payload_cut_def)
  qed
next
  assume "payload_cut ws t"
  then obtain us v vs x where "ws = us @ v # vs" "x \<noteq> []" "strict_prefix x v"
    "t = concat (map bulk us) @ ''$'' @ Itoa (int (length v)) @ crlf @ x"
    unfolding payload_cut_def by blast
  then show "payload_cut (w # ws) (bulk w @ t)"
    unfolding payload_cut_def by (intro exI [of _ "w # us"] exI [of _ v] exI [of _ vs] exI [of _ x]) simp
qed

lemma payload_cut_short: "strict_prefix t (bulk w) \<Longrightarrow> payload_cut (w # ws) t = payload_cut [w] t"
proof -
  assume short: "strict_prefix t (bulk w)"
  have "us = []" if "w # ws = us @ v # vs" "t = concat (map bulk us) @ y" for us v vs y
    using prefix_length_less [OF short] that by (cases us) auto
  then show ?thesis
    unfolding payload_cut_one unfolding payload_cut_def by fastforce
qed

lemma torn_bulk:
  assumes "strict_prefix t (bulk w)" and "int (length w) \<le> max_alloc"
  shows "parse_resp (Suc f) t = PErr (if payload_cut [w] t then UnexpectedEOF else EOF)"
proof (cases t)
  case (Cons c t')
  with assms(1) have c: "c = CHR ''$''" and t': "strict_prefix t' ((Itoa (int (length w)) @ crlf) @ w @ crlf)"
    by (simp_all add: bulk_def)
  show ?thesis
  proof (cases "strict_prefix t' (Itoa (int (length w)) @ crlf)")
    case True
    then have "\<not> payload_cut [w] t"
      using prefix_length_less [OF True] by (auto simp: payload_cut_one Cons)
    with torn_number [OF True] show ?thesis by (simp add: Cons c handleRESPBulkString_def)
  next
    case False
    then obtain x where x: "t' = (Itoa (int (length w)) @ crlf) @ x" "strict_prefix x (w @ crlf)"
      using t' strict_prefix_append by blast
    have "strict_prefix x w \<longleftrightarrow> length x < length w" "length x < length w + 2"
      using x(2) prefix_length_less [OF x(2)] by (auto simp: strict_prefix_append dest: prefix_length_less)
    then have cut: "payload_cut [w] t \<longleftrightarrow> x \<noteq> [] \<and> length x < length w" and l: "length x < length w + 2"
      by (auto simp: payload_cut_one Cons c x(1))
    have n: "read_int_line t' = Inr (int (length w), x)"
      using read_int_line_Itoa [OF alloc_in_int64 [OF assms(2)], of x] by (simp add: x(1))
    have "parse_resp (Suc f) t = handleRESPBulkString t'" by (simp add: Cons c)
    then show ?thesis
      unfolding cut using assms(2) l by (simp add: n handleRESPBulkString_def)
  qed
qed simp

lemma torn_elems:
  "strict_prefix t (concat (map bulk ws)) \<Longrightarrow> list_all (\<lambda>s. int (length s) \<le> max_alloc) ws \<Longrightarrow>
     parse_elems (Suc f) (length ws) t = PErr (if payload_cut ws t then UnexpectedEOF else EOF)"
proof (induction ws arbitrary: t)
  case (Cons w ws)
  show ?case
  proof (cases "strict_prefix t (bulk w)")
    case True
    with torn_bulk [OF True, of f] Cons.prems(2) show ?thesis
      by (simp add: payload_cut_short [OF True, of ws] del: parse_resp.simps)
  next
    case False
    then obtain x where x: "t = bulk w @ x" "strict_prefix x (concat (map bulk ws))"
      using Cons.prems(1) by (auto simp: strict_prefix_append)
    from Cons.IH [OF x(2)] Cons.prems(2) show ?thesis by (simp add: x(1) del: parse_resp.simps)
  qed
qed simp

text \<open>The tear is inside the bytes of a word of the command.\<close>

definition torn_in_word :: "string list \<Rightarrow> string \<Rightarrow> bool" where
  "torn_in_word ws t \<longleftrightarrow> (\<exists>x. t = array_header (length ws) @ x \<and> payload_cut ws x)"

lemma torn_command:
  assumes "words_fit ws" and "strict_prefix t (encodeRESPArray (words ws))"
  shows "ParseRESP t = PErr (if torn_in_word ws t then UnexpectedEOF else EOF)"
proof (cases t)
  case Nil
  then show ?thesis by (simp add: ParseRESP_def torn_in_word_def array_header_def)
next
  case (Cons c t')
  have enc: "encodeRESPArray (words ws) = array_header (length ws) @ concat (map bulk ws)"
    by (simp add: encodeRESPArray_def words_def comp_def)
  show ?thesis
  proof (cases "strict_prefix t (array_header (length ws))")
    case True
    then have "c = CHR ''*''" "strict_prefix t' (Itoa (int (length ws)) @ crlf)"
      by (simp_all add: Cons array_header_def)
    moreover have "\<not> torn_in_word ws t"
      using prefix_length_less [OF True] by (auto simp: torn_in_word_def)
    ultimately show ?thesis
      by (intro ParseRESP_eqI [of "Suc 0"]) (simp_all add: Cons handleRESPArray.simps torn_number)
  next
    case False
    then obtain x where x: "t = array_header (length ws) @ x" "strict_prefix x (concat (map bulk ws))"
      using assms(2) unfolding enc strict_prefix_append by blast
    have "torn_in_word ws t = payload_cut ws x" by (auto simp: torn_in_word_def x(1))
    with torn_elems [OF x(2), of 0] assms(1) show ?thesis
      by (intro ParseRESP_eqI [of "Suc (Suc 0)"])
        (simp_all add: x(1) parse_array_header words_fit_def)
  qed
qed


section \<open>Replaying a torn log\<close>

lemma torn_replay:
  assumes "list_all words_fit wss" and "run_commands e None wss w = (w', Done)"
    and "words_fit ws" and "strict_prefix t (encodeRESPArray (words ws))"
  shows "replay_bytes e (stream_of wss @ t) w =
    (w', if torn_in_word ws t then ReplayError (LogError UnexpectedEOF) else Replayed)"
  using replay_loop_skip [OF assms(1,2) lessI, of t] torn_command [OF assms(3,4)]
  by (auto simp: replay_bytes_def err_is_EOF_def)

text \<open>The first bytes of a log: some whole commands and a part of the next one.\<close>

definition cut_behind :: "string list list \<Rightarrow> nat \<Rightarrow> string \<Rightarrow> bool" where
  "cut_behind wss k t \<longleftrightarrow>
     (if k < length wss then strict_prefix t (encodeRESPArray (words (wss ! k))) else k = length wss \<and> t = [])"

lemma cut_stream:
  "\<exists>k t. take m (stream_of wss) = stream_of (take k wss) @ t \<and> cut_behind wss k t"
proof (induction wss arbitrary: m)
  case Nil
  show ?case by (intro exI [of _ 0] exI [of _ "[]"]) (simp add: cut_behind_def)
next
  case (Cons ws wss)
  let ?enc = "encodeRESPArray (words ws)"
  show ?case
  proof (cases "m < length ?enc")
    case True
    then have "strict_prefix (take m ?enc) ?enc"
      by (auto simp: strict_prefix_def take_is_prefix dest!: arg_cong [of _ _ length])
    with True show ?thesis by (intro exI [of _ 0] exI [of _ "take m ?enc"]) (simp add: cut_behind_def)
  next
    case False
    from Cons.IH [of "m - length ?enc"] obtain k t where
      "take (m - length ?enc) (stream_of wss) = stream_of (take k wss) @ t" "cut_behind wss k t" by blast
    with False show ?thesis by (intro exI [of _ "Suc k"] exI [of _ t]) (simp add: cut_behind_def)
  qed
qed

lemma usable_cut: "aof_usable fails config p fs \<Longrightarrow> aof_usable fails config p (mput p c fs)"
  using readAOF_cong [of "mput p c fs" config fs fails] by (auto simp: aof_usable_def)

lemma torn_start:
  assumes "aof_usable (io e) (cfg e) p fs" and "io e = (\<lambda>call path. False)" and "dbfilename (cfg e) = []"
    and "appendonly (cfg e) = ''yes''" and "list_all data_ok log" and "list_all words_fit (map data_words log)"
    and "content_at p fs = stream_of (map data_words (take k log)) @ t" and "cut_behind (map data_words log) k t"
  shows "\<exists>v. main_start e fs = (v, if k < length log \<and> torn_in_word (data_words (log ! k)) t
      then ReplayError (LogError UnexpectedEOF) else Replayed) \<and> cache v = fold redo (take k log) []"
proof -
  let ?start = "initial_world [] [] (if mget fs p = None then mput p [] fs else fs)"
  have 0: "expiry ?start = []" "cache ?start = []" by (simp_all add: initial_world_def NewStore_def store.defs)
  have fit: "list_all data_ok (take k log)" "list_all words_fit (map data_words (take k log))"
    using assms(5,6) by (auto simp: list_all_iff dest: in_set_takeD)
  from nil_run [OF 0(1) fit(1), of e] obtain v where
    v: "run_commands e None (map data_words (take k log)) ?start = (v, Done)" "cache v = fold redo (take k log) []"
    unfolding 0(2) by blast
  have "main_start e fs = replay_bytes e (stream_of (map data_words (take k log)) @ t) ?start"
    using main_start_log [OF assms(1-4)] by (simp add: assms(7))
  moreover have "words_fit (data_words (log ! k))" if "k < length log"
    using that assms(6) by (simp add: list_all_length)
  moreover have "\<not> k < length log \<Longrightarrow> t = []" "k < length log \<Longrightarrow>
      strict_prefix t (encodeRESPArray (words (data_words (log ! k))))"
    using assms(8) by (auto simp: cut_behind_def split: if_splits)
  ultimately show ?thesis
    using torn_replay [OF fit(2) v(1), of "data_words (log ! k)" t] replay_bytes_words [OF fit(2) v(1)] v(2)
    by (cases "k < length log") auto
qed

section \<open>Properties\<close>



end
