(* ===== verification/ListFacts.thy ===== *)
theory ListFacts
  imports CommandFacts
begin

text \<open>
  The list commands implement a double-ended queue: \<open>deque_step\<close> says what each does to a list and
  what it answers, and a simulation carries this from one command to every sequence of them.
\<close>

section \<open>The specification\<close>

datatype list_cmd =
    Lpush "string list" | Rpush "string list" | Lpop | LpopCount int | Rpop | Llen | Lrange int int

text \<open>\<open>LPOP\<close> with a count answers with an array, except for a single element.\<close>

definition popped :: "string list \<Rightarrow> string" where
  "popped vs = (case vs of [v] \<Rightarrow> writeBulkString_bytes v | _ \<Rightarrow> writeArrayResponse_bytes vs)"

fun deque_step :: "list_cmd \<Rightarrow> string list \<Rightarrow> string list \<times> signal \<times> string list" where
  "deque_step (Lpush vs) l = (rev vs @ l, Done, [writeInteger_bytes (int (length l + length vs))])"
| "deque_step (Rpush vs) l = (l @ vs, Done, [writeInteger_bytes (int (length l + length vs))])"
| "deque_step Lpop l =
     (tl l, Done, [if l = [] then writeNullBulk_bytes else writeBulkString_bytes (hd l)])"
| "deque_step (LpopCount n) l =
     (if l = [] then (l, Done, [writeNullBulk_bytes])
      else if n \<le> 0 then (l, Done, [writeErr_bytes ''LPOP count must be a positive integer''])
      else (drop (nat n) l, Done, [popped (take (nat n) l)]))"
| "deque_step Rpop l =
     (butlast l, Done, [if l = [] then writeNullBulk_bytes else writeBulkString_bytes (last l)])"
| "deque_step Llen l = (l, Done, [writeInteger_bytes (int (length l))])"
| "deque_step (Lrange start stop) l = (l, Done, [writeArrayResponse_bytes (range_spec start stop l)])"

text \<open>The words of a command on a key, and the commands whose numbers are 64-bit integers.\<close>

fun list_words :: "string \<Rightarrow> list_cmd \<Rightarrow> string list" where
  "list_words k (Lpush vs) = ''LPUSH'' # k # vs"
| "list_words k (Rpush vs) = ''RPUSH'' # k # vs"
| "list_words k Lpop = [''LPOP'', k]"
| "list_words k (LpopCount n) = [''LPOP'', k, Itoa n]"
| "list_words k Rpop = [''RPOP'', k]"
| "list_words k Llen = [''LLEN'', k]"
| "list_words k (Lrange start stop) = [''LRANGE'', k, Itoa start, Itoa stop]"

fun list_cmd_ok :: "list_cmd \<Rightarrow> bool" where
  "list_cmd_ok (Lpush vs) = (vs \<noteq> [])"
| "list_cmd_ok (Rpush vs) = (vs \<noteq> [])"
| "list_cmd_ok (LpopCount n) = in_int64 n"
| "list_cmd_ok (Lrange start stop) = (in_int64 start \<and> in_int64 stop)"
| "list_cmd_ok _ = True"

section \<open>The commands\<close>

text \<open>The key holds a list or nothing, without a time to live, and no reader is blocked on it.\<close>

definition list_rel :: "env \<Rightarrow> nat \<Rightarrow> string \<Rightarrow> world \<Rightarrow> string list \<Rightarrow> bool" where
  "list_rel e n k w l \<longleftrightarrow> client_ready e n w \<and> mget (expiry w) k = None \<and> queue_at w k = [] \<and>
     mget (cache w) k \<in> {None, Some (VList l)} \<and> (mget (cache w) k = None \<longrightarrow> l = [])"

lemma Get_list:
  "list_rel e n k w l \<Longrightarrow> Get t k w = (w, mget (cache w) k) \<and>
     (mget (cache w) k = Some (VList l) \<or> (mget (cache w) k = None \<and> l = []))"
  by (auto simp: list_rel_def Get_no_expiry)

lemma push_loop_no_waiter: "queue_at w k = [] \<Longrightarrow> push_loop k vs w = (w, Done, vs)"
  by (induction vs) (simp_all add: take_waiter_Nil)

lemma list_at_rel: "list_rel e n k w l \<Longrightarrow> list_at w k = l"
  by (auto simp: list_rel_def list_at_def)

text \<open>A new list under the key, stored by an operation that touches nothing else of interest.\<close>

lemma list_rel_store:
  assumes "list_rel e n k w l" and "same_rest w w'" and "waiters w' = waiters w"
    and "mget (expiry w') k = None" and "mget (cache w') k = Some (VList l')"
  shows "list_rel e n k w' l'"
  using assms client_ready_same [of e n w w'] same_access_store [of w w']
  by (simp add: list_rel_def queue_at_def)

lemma list_rel_outer [simp]:
  "list_rel e n k (only_replies c out w) l = list_rel e n k w l"
  "list_rel e n k (propagate arr w) l = list_rel e n k w l"
  by (simp_all add: list_rel_def queue_at_def)

lemma same_restD:
  "same_rest w w' \<Longrightarrow> store.more w' = store.more w"
  by (simp add: same_rest_def)

lemmas list_ops_rest =
  exec_op_rest [of _ "OpLPush k vs" for k vs, simplified] exec_op_rest [of _ "OpRPush k vs" for k vs, simplified]
  exec_op_rest [of _ "OpSet k v" for k v, simplified]

lemma replies_finish:
  assumes "list_rel e n k w l" and "store.more w1 = store.more w"
  shows "replies_since (Some n) w (only_replies (Some n) out w1) = out"
    "replies_since (Some n) w (only_replies (Some n) out (propagate arr w1)) = out"
  using assms replies_only [OF assms(2)] replies_propagated [OF assms(2)]
  by (simp_all add: list_rel_def client_ready_def)

lemma push_sim:
  assumes r: "list_rel e n k w l" and "vs \<noteq> []" and ws: "ws = name # k # vs"
    and rest: "same_rest w (fst (push k vs w))" and wt: "waiters (fst (push k vs w)) = waiters w"
    and ex: "expiry (fst (push k vs w)) = expiry w"
    and c: "mget (cache (fst (push k vs w))) k = Some (VList l')"
    and h: "exchange e (Some n) ws w = (case push_handler push name e (Some n) (words ws) w of
      (w', sig) \<Rightarrow> (w', sig, replies_since (Some n) w w'))"
  shows "list_rel e n k (fst (exchange e (Some n) ws w)) l' \<and>
    snd (exchange e (Some n) ws w) = (Done, [writeInteger_bytes (int (length l + length vs))])"
proof -
  have len: "initialLen e k w = (w, int (length l))"
    using Get_list [OF r, of "now e"] by (auto simp: initialLen_def)
  have no_log: "appendonly (cfg e) \<noteq> ''yes''" and q: "queue_at w k = []"
    using r by (simp_all add: list_rel_def client_ready_def)
  have "3 \<le> length ws" using assms(2) by (cases vs) (simp_all add: ws)
  then have "push_handler push name e (Some n) (words ws) w =
      (only_replies (Some n) [writeInteger_bytes (int (length l + length vs))]
        (propagate (words ws) (fst (push k vs w))), Done)"
    using assms(2)
    by (simp add: push_handler_def ws len push_loop_no_waiter [OF q] persist_no_log [OF no_log]
        conn_write_client writeInteger_bytes_def finish_def)
  moreover have "list_rel e n k (fst (push k vs w)) l'"
    using r by (intro list_rel_store [OF r rest wt _ c]) (simp add: ex list_rel_def)
  ultimately show ?thesis
    using replies_finish(2) [OF r same_restD [OF rest]] by (simp add: h)
qed

text \<open>How a command of a ready client reaches its handler.\<close>

lemma exchange_list:
  assumes "client_ready e n w"
  shows "exchange e (Some n) (''LPUSH'' # xs) w = (case handleLPUSH e (Some n) (words (''LPUSH'' # xs)) w of
      (w', sig) \<Rightarrow> (w', sig, replies_since (Some n) w w'))"
    and "exchange e (Some n) (''RPUSH'' # xs) w = (case handleRPUSH e (Some n) (words (''RPUSH'' # xs)) w of
      (w', sig) \<Rightarrow> (w', sig, replies_since (Some n) w w'))"
    and "exchange e (Some n) (''LPOP'' # xs) w = (case handleLPOP e (Some n) (words (''LPOP'' # xs)) w of
      (w', sig) \<Rightarrow> (w', sig, replies_since (Some n) w w'))"
    and "exchange e (Some n) (''RPOP'' # xs) w = (case handleRPOP e (Some n) (words (''RPOP'' # xs)) w of
      (w', sig) \<Rightarrow> (w', sig, replies_since (Some n) w w'))"
    and "exchange e (Some n) (''LLEN'' # xs) w = (case handleLLEN e (Some n) (words (''LLEN'' # xs)) w of
      (w', sig) \<Rightarrow> (w', sig, replies_since (Some n) w w'))"
    and "exchange e (Some n) (''LRANGE'' # xs) w = (case handleLRANGE e (Some n) (words (''LRANGE'' # xs)) w of
      (w', sig) \<Rightarrow> (w', sig, replies_since (Some n) w w'))"
  by (simp_all add: exchange_ready [OF assms refl] go_eval dispatch_def handlers_def)

lemma LPUSH_sim:
  assumes r: "list_rel e n k w l" and "vs \<noteq> []"
  shows "list_rel e n k (fst (exchange e (Some n) (list_words k (Lpush vs)) w)) (rev vs @ l) \<and>
    snd (exchange e (Some n) (list_words k (Lpush vs)) w) = snd (deque_step (Lpush vs) l)"
  using push_sim [where push = LPush and name = "''LPUSH''" and l' = "rev vs @ l", OF r assms(2) refl list_ops_rest(1)] r
  by (simp add: LPush_spec list_at_rel [OF r] list_rel_def exchange_list handleLPUSH_def)

lemma RPUSH_sim:
  assumes r: "list_rel e n k w l" and "vs \<noteq> []"
  shows "list_rel e n k (fst (exchange e (Some n) (list_words k (Rpush vs)) w)) (l @ vs) \<and>
    snd (exchange e (Some n) (list_words k (Rpush vs)) w) = snd (deque_step (Rpush vs) l)"
  using push_sim [where push = RPush and name = "''RPUSH''" and l' = "l @ vs", OF r assms(2) refl list_ops_rest(2)] r
  by (simp add: RPush_spec list_at_rel [OF r] list_rel_def exchange_list handleRPUSH_def)

lemma Itoa_0: "Itoa 0 = ''0''"
  by (simp add: go_eval)

text \<open>The commands that only look, and the two that take elements away.\<close>

lemma look_sim:
  assumes r: "list_rel e n k w l"
    and h: "exchange e (Some n) ws w = (only_replies (Some n) out w, Done, replies_since (Some n) w (only_replies (Some n) out w))"
  shows "list_rel e n k (fst (exchange e (Some n) ws w)) l \<and> snd (exchange e (Some n) ws w) = (Done, out)"
  using replies_finish(1) [OF r refl] r by (simp add: h)

lemma take_sim:
  assumes r: "list_rel e n k w l"
    and h: "exchange e (Some n) ws w =
      (let w' = only_replies (Some n) out (propagate arr (Set k (VList l') w))
       in (w', Done, replies_since (Some n) w w'))"
  shows "list_rel e n k (fst (exchange e (Some n) ws w)) l' \<and> snd (exchange e (Some n) ws w) = (Done, out)"
proof -
  have "list_rel e n k (Set k (VList l') w) l'"
    using r by (intro list_rel_store [OF r list_ops_rest(3)]) simp_all
  with replies_finish(2) [OF r, of "Set k (VList l') w"] show ?thesis by (simp add: h Let_def)
qed

lemma deque_sim:
  assumes r: "list_rel e n k w l" and "list_cmd_ok cmd"
  shows "list_rel e n k (fst (exchange e (Some n) (list_words k cmd) w)) (fst (deque_step cmd l)) \<and>
    snd (exchange e (Some n) (list_words k cmd) w) = snd (deque_step cmd l)"
proof -
  have c: "client_ready e n w" and no_log: "appendonly (cfg e) \<noteq> ''yes''"
    using r by (simp_all add: list_rel_def client_ready_def)
  note g = Get_list [OF r, of "now e"]
  note defs = exchange_list [OF c] finish_def replies_to_client conn_write_client
    persist_no_log [OF no_log]
  show ?thesis
  proof (cases cmd)
    case (Lpush vs)
    with LPUSH_sim [OF r] assms(2) show ?thesis by simp
  next
    case (Rpush vs)
    with RPUSH_sim [OF r] assms(2) show ?thesis by simp
  next
    case Llen
    have "exchange e (Some n) (list_words k Llen) w =
        (only_replies (Some n) [writeInteger_bytes (int (length l))] w, Done,
         replies_since (Some n) w (only_replies (Some n) [writeInteger_bytes (int (length l))] w))"
      using g by (auto simp: defs handleLLEN_def writeInteger_bytes_def Itoa_0)
    from look_sim [OF r this] show ?thesis by (simp add: Llen)
  next
    case Lpop
    have "exchange e (Some n) (list_words k Lpop) w =
        (if l = [] then (only_replies (Some n) [writeNullBulk_bytes] w, Done,
           replies_since (Some n) w (only_replies (Some n) [writeNullBulk_bytes] w))
         else (let w' = only_replies (Some n) [writeBulkString_bytes (hd l)]
                 (propagate (words (list_words k Lpop)) (Set k (VList (tl l)) w))
               in (w', Done, replies_since (Some n) w w')))"
      using g
      by (cases l) (auto simp: defs handleLPOP_def lpop_count_def Let_def take_Cons' split: nat.splits)
    then show ?thesis
      using look_sim [OF r] take_sim [OF r] by (cases l) (simp_all add: Lpop)
  next
    case (LpopCount m)
    let ?ws = "list_words k (LpopCount m)" and ?N = "nat (min m (int (length l)))"
    have cnt: "lpop_count (words ?ws) = Some m"
      using assms(2) ParseInt_Itoa [of m] by (simp add: LpopCount lpop_count_def words_def atoi_value_def)
    have pos: "exchange e (Some n) ?ws w =
        (let w' = only_replies (Some n) [popped (take ?N l)]
             (propagate (words ?ws) (Set k (VList (drop ?N l)) w))
         in (w', Done, replies_since (Some n) w w'))" if "l \<noteq> []" "0 < m"
      using g that cnt
      by (auto simp: defs handleLPOP_def popped_def Let_def split: list.split)
    have N: "take ?N l = take (nat m) l" "drop ?N l = drop (nat m) l" by (simp_all add: min_def)
    show ?thesis
    proof (cases "l \<noteq> [] \<and> 0 < m")
      case True
      with take_sim [OF r pos [unfolded N]] show ?thesis by (simp add: LpopCount)
    next
      case False
      let ?b = "if l = [] then writeNullBulk_bytes
        else writeErr_bytes ''LPOP count must be a positive integer''"
      have "exchange e (Some n) ?ws w = (only_replies (Some n) [?b] w, Done,
          replies_since (Some n) w (only_replies (Some n) [?b] w))"
        using g False cnt by (auto simp: defs handleLPOP_def)
      from look_sim [OF r this] False show ?thesis by (auto simp: LpopCount)
    qed
  next
    case Rpop
    have "exchange e (Some n) (list_words k Rpop) w =
        (if l = [] then (only_replies (Some n) [writeNullBulk_bytes] w, Done,
           replies_since (Some n) w (only_replies (Some n) [writeNullBulk_bytes] w))
         else (let w' = only_replies (Some n) [writeBulkString_bytes (last l)]
                 (propagate (words (list_words k Rpop)) (Set k (VList (butlast l)) w))
               in (w', Done, replies_since (Some n) w w')))"
      using g by (auto simp: defs handleRPOP_def Let_def)
    then show ?thesis
      using look_sim [OF r] take_sim [OF r] by (cases "l = []") (simp_all add: Rpop)
  next
    case (Lrange a b)
    let ?out = "[writeArrayResponse_bytes (range_spec a b l)]"
    have n: "ParseInt (Itoa a) = (a, None)" "ParseInt (Itoa b) = (b, None)"
      using assms(2) by (simp_all add: Lrange ParseInt_Itoa)
    have empty: "writeArrayResponse_bytes [] = ''*0'' @ crlf"
      by (simp add: writeArrayResponse_bytes_def array_header_def Itoa_0)
    have clamp: "max 0 x = (if x < 0 then 0 else x)" "min (y - 1) x = (if y \<le> x then y - 1 else x)"
      for x y :: int by auto
    have "exchange e (Some n) (list_words k (Lrange a b)) w =
        (only_replies (Some n) ?out w, Done, replies_since (Some n) w (only_replies (Some n) ?out w))"
      using g
      by (auto simp: defs handleLRANGE_def n Let_def range_spec_eq from_end_def clamp empty)
    from look_sim [OF r this] show ?thesis by (simp add: Lrange)
  qed
qed


interpretation deque: simulation "list_rel e n k" "\<lambda>cmd. exchange e (Some n) (list_words k cmd)"
    deque_step list_cmd_ok for e n k
  by unfold_locales (rule deque_sim)

section \<open>Properties\<close>

text \<open>
  C7: on a key that holds a list or nothing, without a time to live and without blocked readers,
  the list commands of a client implement a double-ended queue: after any sequence of them the
  key holds what the specification computes, and each command was answered by exactly one reply,
  the specified one. So no element is lost or invented by any sequence of pushes and pops.
\<close>

theorem list_commands_refine_deque:
  assumes "list_rel e n k w l" and "list_all list_cmd_ok cmds"
  shows "list_rel e n k (fst (run_ops (\<lambda>cmd. exchange e (Some n) (list_words k cmd)) cmds w))
      (fst (run_ops deque_step cmds l)) \<and>
    snd (run_ops (\<lambda>cmd. exchange e (Some n) (list_words k cmd)) cmds w) = snd (run_ops deque_step cmds l)"
  using assms by (rule deque.run_sim)

theorem list_commands_refine_deque_witness:
  "snd (run_ops (\<lambda>cmd. exchange demo_env (Some 7) (list_words ''q'' cmd))
      [Rpush [''a'', ''b'', ''c''], LpopCount 2, Lrange 0 (-1), Rpop, Llen] client_world) =
    [(Done, [writeInteger_bytes 3]), (Done, [writeArrayResponse_bytes [''a'', ''b'']]),
     (Done, [writeArrayResponse_bytes [''c'']]), (Done, [writeBulkString_bytes ''c'']),
     (Done, [writeInteger_bytes 0])]"
proof -
  have 1: "list_rel demo_env 7 ''q'' client_world []"
    by (simp add: list_rel_def client_ready_demo client_world_fields queue_at_def mget_list_def)
  have 2: "list_all list_cmd_ok [Rpush [''a'', ''b'', ''c''], LpopCount 2, Lrange 0 (-1), Rpop, Llen]"
    by (simp add: in_int64_def min_int64_def max_int64_def)
  from list_commands_refine_deque [OF 1 2] show ?thesis
    by (simp add: popped_def range_spec_all)
qed

end
