(* ===== verification/CrashFacts.thy ===== *)
theory CrashFacts
  imports CommandFacts
begin

text \<open>
  Panics, which end the process. Every handler is looked at: for a connected client all but four
  never panic, whatever the arguments; the four do in cases that are told exactly.
\<close>

section \<open>Handlers that never panic\<close>

definition calm :: "result \<Rightarrow> bool" where "calm r \<longleftrightarrow> snd r \<noteq> Panic"

named_theorems calm_intros

lemma calm_pair [simp]: "calm (w, sig) = (sig \<noteq> Panic)"
  by (simp add: calm_def)

lemma calm_finish [simp]: "calm (finish w)"
  by (simp add: finish_def)

lemma calm_and_then [calm_intros]: "calm r \<Longrightarrow> (\<And>w. calm (k w)) \<Longrightarrow> calm (and_then r k)"
  by (cases r; cases "snd r") (auto simp: and_then_def)

lemma calm_conn [simp]: "calm (conn_write (Some n) b w)" "calm (remote_addr (Some n) w)"
  by (simp_all add: conn_write_def remote_addr_def)

lemma calm_persist [calm_intros]: "(\<And>w. calm (k w)) \<Longrightarrow> calm (persist_then e c arr k w)"
  by (simp add: persist_then_def split: prod.split)

lemma calm_basic [simp]:
  "calm (handleAUTH e (Some n) arr w)" "calm (handleACL e (Some n) arr w)"
  "calm (handlePING (Some n) arr w)" "calm (handleECHO (Some n) arr w)"
  "calm (handleINFO e (Some n) arr w)" "calm (handleCONFIG e (Some n) arr w)"
  "calm (handleREPLCONF (Some n) arr w)" "calm (handlePSYNC e (Some n) w)"
  by (auto simp: handleAUTH_def handleACL_def handlePING_def handleECHO_def handleINFO_def
      handleCONFIG_def handleREPLCONF_def handlePSYNC_def Let_def intro!: calm_intros
      split: prod.split bool.split)

lemma calm_strings [simp]:
  "calm (handleWAIT e (Some n) arr w)" "calm (handleSET e (Some n) arr w)"
  "calm (handleINCR e (Some n) arr w)" "calm (handleKEYS (Some n) arr w)" "calm (handleTYPE e (Some n) arr w)"
  by (auto simp: handleWAIT_def poll_wait_def handleSET_def handleINCR_def handleKEYS_def handleTYPE_def
      Let_def intro!: calm_intros split: handler_splits bool.split)

lemma push_loop_calm: "push_loop key vs w = (w', sig, rem) \<Longrightarrow> sig = Done \<or> sig = Stuck"
proof (induction vs arbitrary: w w' rem)
  case (Cons v vs)
  show ?case
  proof (cases "take_waiter key w")
    case None
    with Cons show ?thesis by (auto split: prod.splits)
  next
    case (Some p)
    obtain w1 ch where "p = (w1, ch)" by (cases p)
    with Some Cons.prems show ?thesis
      using Cons.IH [of "w1\<lparr>chans := mput ch v (chans w1)\<rparr>" w' rem] by (simp split: if_splits)
  qed
qed simp

lemma calm_push [simp]: "calm (push_handler push name e (Some n) arr w)"
  by (auto simp: push_handler_def Let_def intro!: calm_intros dest!: push_loop_calm
      split: handler_splits signal.splits)

lemma calm_lists [simp]:
  "calm (handleLPUSH e (Some n) arr w)" "calm (handleRPUSH e (Some n) arr w)"
  "calm (handleLRANGE e (Some n) arr w)" "calm (handleLLEN e (Some n) arr w)"
  "calm (handleRPOP e (Some n) arr w)" "calm (handleBLPOP e (Some n) arr w)"
  by (auto simp: handleLPUSH_def handleRPUSH_def handleLRANGE_def handleLLEN_def handleRPOP_def
      handleBLPOP_def Let_def intro!: calm_intros split: handler_splits bool.splits)

lemma calm_zsets [simp]:
  "calm (handleZADD e (Some n) arr w)" "calm (handleZRANGE (Some n) arr w)" "calm (handleZRANK (Some n) arr w)"
  "calm (handleZSCORE (Some n) arr w)" "calm (handleZREM (Some n) arr w)"
  by (auto simp: handleZADD_def handleZRANGE_def handleZRANK_def handleZSCORE_def handleZREM_def Let_def
      intro!: calm_intros split: handler_splits)

lemma calm_write_entries [simp]: "calm (write_entries (Some n) entries w)"
  by (induction entries arbitrary: w) (auto intro!: calm_intros)

lemma calm_write_streams [simp]: "calm (write_streams (Some n) keys data w)"
  by (induction keys arbitrary: w) (auto intro!: calm_intros)

lemma calm_streams [simp]:
  "calm (handleXADD e (Some n) arr w)" "calm (handleXRANGE e (Some n) arr w)" "calm (handleXREAD e (Some n) arr w)"
  by (auto simp: handleXADD_def handleXRANGE_def handleXREAD_def xread_now_def xread_block_def
      write_xread_def Let_def intro!: calm_intros split: handler_splits)

lemma calm_positions [simp]: "calm (write_positions e (Some n) key vs w)"
  by (induction vs arbitrary: w) (auto simp: Let_def intro!: calm_intros split: option.split)

lemma calm_geo [simp]:
  "calm (handleGEOADD e (Some n) arr w)" "calm (handleGEOPOS e (Some n) arr w)"
  "calm (handleGEODIST e (Some n) arr w)" "calm (handleGEOSEARCH e (Some n) arr w)"
  by (auto simp: handleGEOADD_def handleGEOPOS_def handleGEODIST_def handleGEOSEARCH_def Let_def
      intro!: calm_intros split: handler_splits)

lemma calm_subscription_loop [simp]: "calm (subscription_loop change kind (Some n) vs w)"
  by (induction vs arbitrary: w) (auto intro!: calm_intros split: prod.split bool.split)

lemma calm_channels [simp]:
  "calm (handleSUBSCRIBE (Some n) arr w)" "calm (handleUNSUBSCRIBE (Some n) arr w)"
  "calm (handleMULTI (Some n) arr w)" "calm (handleDISCARD (Some n) arr w)"
  "calm (handleWATCH (Some n) arr w)" "calm (handleUNWATCH (Some n) arr w)"
  by (auto simp: handleSUBSCRIBE_def handleUNSUBSCRIBE_def handleMULTI_def handleDISCARD_def
      handleWATCH_def handleUNWATCH_def intro!: calm_intros split: prod.split)

text \<open>The four commands that do not look closely enough at their arguments or at the value.\<close>

definition crashes :: "env \<Rightarrow> string \<Rightarrow> resp list \<Rightarrow> world \<Rightarrow> bool" where
  "crashes e cmd arr w \<longleftrightarrow>
     (cmd = ''GET'' \<and> 2 \<le> length arr \<and>
       (case snd (Get (now e) (arg arr 1) w) of Some (VStr _) \<Rightarrow> False | Some _ \<Rightarrow> True | None \<Rightarrow> False)) \<or>
     (cmd = ''ZCARD'' \<and> length arr = 1) \<or>
     (cmd = ''PUBLISH'' \<and> length arr = 2) \<or>
     (cmd = ''LPOP'' \<and> length arr = 3 \<and> \<not> snd (asString (arr ! 2)))"

lemma crash_GET:
  "snd (handleGET e (Some n) arr w) = Panic \<longleftrightarrow> crashes e ''GET'' arr w"
  by (cases "Get (now e) (arg arr 1) w") (auto simp: handleGET_def crashes_def finish_def split: option.split cached.split)

lemma crash_others:
  "arr \<noteq> [] \<Longrightarrow> snd (handleZCARD (Some n) arr w) = Panic \<longleftrightarrow> crashes e ''ZCARD'' arr w"
  "snd (handlePUBLISH (Some n) arr w) = Panic \<longleftrightarrow> crashes e ''PUBLISH'' arr w"
  "snd (handleLPOP e (Some n) arr w) = Panic \<longleftrightarrow> crashes e ''LPOP'' arr w"
proof -
  show "arr \<noteq> [] \<Longrightarrow> snd (handleZCARD (Some n) arr w) = Panic \<longleftrightarrow> crashes e ''ZCARD'' arr w"
    by (cases arr; cases "tl arr") (auto simp: handleZCARD_def crashes_def finish_def)
  show "snd (handlePUBLISH (Some n) arr w) = Panic \<longleftrightarrow> crashes e ''PUBLISH'' arr w"
    by (auto simp: handlePUBLISH_def crashes_def finish_def split: prod.split)
  have "lpop_count arr = None \<longleftrightarrow> length arr = 3 \<and> \<not> snd (asString (arr ! 2))"
    by (auto simp: lpop_count_def asString_def split: resp.split)
  moreover have "lpop_count arr = Some m \<Longrightarrow> calm (handleLPOP e (Some n) arr w)" for m
    by (auto simp: handleLPOP_def Let_def intro!: calm_intros split: handler_splits list.splits)
  ultimately show "snd (handleLPOP e (Some n) arr w) = Panic \<longleftrightarrow> crashes e ''LPOP'' arr w"
    by (cases "lpop_count arr") (auto simp: crashes_def calm_def, simp_all add: handleLPOP_def)
qed

text \<open>The gates of \<open>handleCommand\<close>, for a client that has been let in if it needs no password.\<close>

definition past_gates :: "env \<Rightarrow> conn \<Rightarrow> string \<Rightarrow> world \<Rightarrow> bool" where
  "past_gates e c cmd w \<longleftrightarrow>
     (authRequired e w \<longrightarrow> IsAuthenticated c w \<or> cmd = ''AUTH'') \<and>
     (c \<noteq> None \<longrightarrow> (IsSubscribed c w \<longrightarrow> cmd \<in> set subscribed_commands) \<and>
                 (IsInTx c w \<longrightarrow> cmd \<in> set tx_commands))"

lemma handle_past_gates:
  assumes "command_name arr = Some cmd"
  shows "past_gates e c cmd (let_in e c w) \<Longrightarrow>
      handleCommand e c arr w = dispatch (run_queue (handle_at 1 e c)) e c cmd arr (let_in e c w)"
    and "\<not> past_gates e (Some n) cmd (let_in e (Some n) w) \<Longrightarrow> calm (handleCommand e (Some n) arr w)"
  using assms by (auto simp: handleCommand_with handle_with_def past_gates_def Let_def)

lemma dispatch_crashes:
  assumes "arr \<noteq> []" and "cmd \<noteq> ''EXEC''"
  shows "snd (dispatch run e (Some n) cmd arr w) = Panic \<longleftrightarrow> crashes e cmd arr w"
proof (cases "cmd \<in> {''GET'', ''ZCARD'', ''PUBLISH'', ''LPOP''}")
  case True
  have "dispatch run e (Some n) ''GET'' arr w = handleGET e (Some n) arr w"
    "dispatch run e (Some n) ''ZCARD'' arr w = handleZCARD (Some n) arr w"
    "dispatch run e (Some n) ''PUBLISH'' arr w = handlePUBLISH (Some n) arr w"
    "dispatch run e (Some n) ''LPOP'' arr w = handleLPOP e (Some n) arr w"
    by (simp_all add: dispatch_def handlers_def)
  note d = this crash_GET crash_others(1) [OF assms(1)] crash_others(2,3)
  from True show ?thesis by (elim insertE emptyE) (simp_all only: d)
next
  case False
  have all: "\<forall>(c, h) \<in> set (handlers run e (Some n)).
      c \<in> {''EXEC'', ''GET'', ''ZCARD'', ''PUBLISH'', ''LPOP''} \<or> calm (h arr w)"
    unfolding handlers_def by simp
  have "calm (dispatch run e (Some n) cmd arr w)"
  proof (cases "map_of (handlers run e (Some n)) cmd")
    case (Some h)
    with all assms(2) False map_of_SomeD [OF Some] show ?thesis by (auto simp: dispatch_def)
  qed (simp add: dispatch_def)
  with False show ?thesis by (auto simp: crashes_def calm_def)
qed

section \<open>Properties\<close>

text \<open>
  C35: which commands of a client bring the server down. A command other than \<open>EXEC\<close>, whatever
  its arguments and the state of the server, panics exactly if it passes the gates and is a
  \<open>GET\<close> on a key that holds no string, a \<open>ZCARD\<close> without a key, a \<open>PUBLISH\<close> without a message, or
  an \<open>LPOP\<close> whose count is no string. All other commands check what they are given.
\<close>

theorem panics_exactly:
  assumes "command_name arr = Some cmd" and "cmd \<noteq> ''EXEC''"
  shows "snd (handleCommand e (Some n) arr w) = Panic \<longleftrightarrow>
    past_gates e (Some n) cmd (let_in e (Some n) w) \<and> crashes e cmd arr (let_in e (Some n) w)"
proof -
  have "arr \<noteq> []" using assms(1) by (auto simp: command_name_def)
  with handle_past_gates [OF assms(1), of e] dispatch_crashes [OF _ assms(2)] show ?thesis
    by (cases "past_gates e (Some n) cmd (let_in e (Some n) w)") (simp_all add: calm_def)
qed

theorem panics_exactly_witness:
  "snd (handleCommand demo_env (Some 7) (words [''PUBLISH'', ''news'']) client_world) = Panic \<and>
   snd (handleCommand demo_env (Some 7) (words [''PUBLISH'', ''news'', ''hi'']) client_world) \<noteq> Panic"
proof -
  have "past_gates demo_env (Some 7) ''PUBLISH'' client_world" "IsAuthenticated (Some 7) client_world"
    using free_client_world [of demo_env] by (auto simp: past_gates_def free_client_def)
  then show ?thesis
    using panics_exactly [of "words [''PUBLISH'', ''news'']" "''PUBLISH''" demo_env 7 client_world]
      panics_exactly [of "words [''PUBLISH'', ''news'', ''hi'']" "''PUBLISH''" demo_env 7 client_world]
    by (simp add: go_eval crashes_def)
qed

end
