(* ===== verification/PushFacts.thy ===== *)
theory PushFacts
  imports RecoveryFacts ListFacts CrashFacts
begin

text \<open>
  Pushes that are read back. \<open>LPUSH\<close> and \<open>RPUSH\<close> write their reply to the connection themselves, so
  running them for the nil connection of a replay or of a replica panics.
\<close>

section \<open>The waiting queues stay as they are\<close>

lemma waiters_ops [simp]:
  "waiters (Set k v w) = waiters w" "waiters (fst (Incr k w)) = waiters w"
  "waiters (fst (ZAdd k sc m w)) = waiters w" "waiters (fst (LPush k vs w)) = waiters w"
  "waiters (fst (RPush k vs w)) = waiters w"
  by (auto simp: Set_def Incr_def ZAdd_def LPush_def RPush_def markDirty_def Let_def
      split: option.split cached.split prod.split)

lemma zadd_loop_waiters: "waiters (fst (zadd_loop k args m w)) = waiters w"
proof (induction k args m w rule: zadd_loop.induct)
  case (1 key scoreArg memberArg rest added w)
  show ?case
  proof (cases "ParseFloat (asStringOrEmpty scoreArg)")
    case (Some score)
    obtain w1 i where z: "ZAdd key score (asStringOrEmpty memberArg) w = (w1, i)"
      by (cases "ZAdd key score (asStringOrEmpty memberArg) w")
    then have "waiters w1 = waiters w" using waiters_ops(3) [of key score "asStringOrEmpty memberArg" w] by simp
    with 1 [OF Some z [symmetric]] Some z show ?thesis by simp
  qed simp
qed simp_all

lemma effect_waiters: "effect op w = Some w1 \<Longrightarrow> waiters w1 = waiters w"
proof (cases op)
  case (Dincr k)
  then show "effect op w = Some w1 \<Longrightarrow> ?thesis"
    using waiters_ops(2) [of k w] by (cases "Incr k w") (auto split: sum.splits)
qed (auto simp: zadd_loop_waiters split: if_splits)

lemma exec_data_waiters:
  assumes "data_ready e n w" and "list_all data_ok ops"
  shows "waiters (fold (exec_data e n) ops w) = waiters w"
  using assms
proof (induction ops arbitrary: w)
  case (Cons op ops)
  then have "data_ready e n (exec_data e n op w)" using exec_data_cases(4) by simp
  moreover have "waiters (exec_data e n op w) = waiters w"
    using exec_data_cases(2,3) [of e n w op] Cons.prems
    by (cases "effect op w") (simp_all add: effect_waiters)
  ultimately show ?case using Cons by simp
qed simp

lemma nil_run_waiters:
  "expiry w = [] \<Longrightarrow> list_all data_ok log \<Longrightarrow>
     run_commands e None (map data_words log) w = (v, Done) \<Longrightarrow> waiters v = waiters w"
proof (induction log arbitrary: w)
  case (Cons op log)
  have h: "handleCommand e None (words (data_words op)) w =
      (case effect op w of None \<Rightarrow> (w, Done) | Some w1 \<Rightarrow> (propagate (words (data_words op)) w1, Done))"
    using data_handled [OF free_nil Cons.prems(1)] Cons.prems(2)
    by (simp add: persist_nil reply_def finish_def split: option.split)
  show ?case
  proof (cases "effect op w")
    case None
    with Cons h show ?thesis by simp
  next
    case (Some w1)
    then have "expiry (propagate (words (data_words op)) w1) = []"
      using effect_rest [OF Some] Cons.prems(1) by simp
    with Cons.IH [OF this] Cons.prems h Some effect_waiters [OF Some] show ?thesis by simp
  qed
qed (simp add: finish_def)

section \<open>Pushes\<close>

definition push_words :: "string list \<Rightarrow> bool" where
  "push_words ws \<longleftrightarrow> (\<exists>k v vs. ws = ''LPUSH'' # k # v # vs \<or> ws = ''RPUSH'' # k # v # vs)"

lemma push_handler_quiet:
  assumes "waiters w = []" and "expiry w = []"
  shows "\<exists>i. push_handler push name e c (words (cmd # k # v # vs)) w =
    persist_then e c (words (cmd # k # v # vs)) (conn_write c ('':'' @ Itoa i @ crlf))
      (fst (push k (v # vs) w))"
proof -
  have "fst (initialLen e k w) = w"
    using assms(2) by (simp add: initialLen_def Get_no_expiry split: option.split cached.split)
  then obtain i where i: "initialLen e k w = (w, i)" by (cases "initialLen e k w") simp
  have "queue_at w k = []" using assms(1) by (simp add: queue_at_def)
  from take_waiter_Nil [OF this] push_loop_no_waiter [OF this, of vs] i show ?thesis
    by (intro exI [of _ "i + int (length (v # vs))"]) (simp add: push_handler_def Let_def)
qed

lemma push_dispatched:
  assumes "free_client e c w" and "waiters w = []" and "expiry w = []" and "push_words ws"
  shows "\<exists>i k vs push. push \<in> {LPush, RPush} \<and> handleCommand e c (words ws) w =
    persist_then e c (words ws) (conn_write c ('':'' @ Itoa i @ crlf)) (fst (push k vs w))"
proof -
  from assms(4) obtain k v vs where "ws = ''LPUSH'' # k # v # vs \<or> ws = ''RPUSH'' # k # v # vs"
    by (auto simp: push_words_def)
  then show ?thesis
  proof
    assume ws: "ws = ''LPUSH'' # k # v # vs"
    from push_handler_quiet [OF assms(2,3), of LPush "''LPUSH''" e c "''LPUSH''" k v vs] obtain i where
      "push_handler LPush ''LPUSH'' e c (words ws) w =
         persist_then e c (words ws) (conn_write c ('':'' @ Itoa i @ crlf)) (fst (LPush k (v # vs) w))"
      by (auto simp: ws)
    then show ?thesis
      by (intro exI [of _ i] exI [of _ k] exI [of _ "v # vs"] exI [of _ LPush])
        (simp add: ws handleCommand_free [OF assms(1)] go_eval dispatch_def handlers_def handleLPUSH_def)
  next
    assume ws: "ws = ''RPUSH'' # k # v # vs"
    from push_handler_quiet [OF assms(2,3), of RPush "''RPUSH''" e c "''RPUSH''" k v vs] obtain i where
      "push_handler RPush ''RPUSH'' e c (words ws) w =
         persist_then e c (words ws) (conn_write c ('':'' @ Itoa i @ crlf)) (fst (RPush k (v # vs) w))"
      by (auto simp: ws)
    then show ?thesis
      by (intro exI [of _ i] exI [of _ k] exI [of _ "v # vs"] exI [of _ RPush])
        (simp add: ws handleCommand_free [OF assms(1)] go_eval dispatch_def handlers_def handleRPUSH_def)
  qed
qed

lemma push_nil_panics:
  "waiters w = [] \<Longrightarrow> expiry w = [] \<Longrightarrow> push_words ws \<Longrightarrow>
     \<exists>w1. handleCommand e None (words ws) w = (w1, Panic)"
  using push_dispatched [OF free_nil, of w ws e] by (auto simp: persist_nil conn_write_def)

lemma push_logged:
  assumes "aof_ready e n p w" and "waiters w = []" and "push_words ws"
  shows "\<exists>w1. handleCommand e (Some n) (words ws) w = (w1, Done) \<and>
    aof_usable (io e) (cfg e) p (files w1) \<and>
    content_at p (files w1) = content_at p (files w) @ encodeRESPArray (words ws)"
proof -
  have r: "free_client e (Some n) w" "expiry w = []" "log_works e w" "appendonly (cfg e) = ''yes''"
      "aof_usable (io e) (cfg e) p (files w)"
    using assms(1) by (simp_all add: aof_ready_def data_ready_def)
  obtain i k vs push where push: "push \<in> {LPush, RPush}" and h: "handleCommand e (Some n) (words ws) w =
      persist_then e (Some n) (words ws) (conn_write (Some n) ('':'' @ Itoa i @ crlf)) (fst (push k vs w))"
    using push_dispatched [OF r(1) assms(2) r(2) assms(3)] by blast
  have f: "files (fst (push k vs w)) = files w"
    using push more_files [of "fst (push k vs w)" w] list_ops_rest(1) [of w k vs] list_ops_rest(2) [of w k vs]
    by (auto simp: same_rest_def)
  have "log_works e (fst (push k vs w))" using r(3) by (subst log_works_files [OF f])
  from persist_works [OF this] aof.content_append [OF r(5), of "words ws"] aof.usable_append [OF r(5), of "words ws"]
  show ?thesis by (simp add: h f logged_files_def r(4) conn_write_client finish_def)
qed


lemma push_breaks_log:
  assumes "aof_ready e n p w" and "waiters w = []" and "cache w = []" and "content_at p (files w) = []"
    and "io e = (\<lambda>call path. False)" and "dbfilename (cfg e) = []"
    and "list_all (\<lambda>op. data_ok op \<and> words_fit (data_words op)) ops"
    and "push_words ws" and "words_fit ws"
  shows "\<exists>w1. run_commands e (Some n) (map data_words ops @ [ws]) w = (w1, Done) \<and>
    snd (main_start e (files w1)) = Interrupted Panic"
proof -
  let ?w' = "fold (exec_data e n) ops w"
  have ok: "list_all data_ok ops" using assms(7) by (simp add: list_all_iff)
  have d: "data_ready e n w" using assms(1) by (simp add: aof_ready_def)
  obtain log where log: "subseq log ops" "aof_ready e n p ?w'"
      "content_at p (files ?w') = concat (map data_bytes log)"
    using aof_journal.recover [OF assms(1) ok] assms(4) by auto
  have "waiters ?w' = []" using exec_data_waiters [OF d ok] assms(2) by simp
  from push_logged [OF log(2) this assms(8)] obtain w1 where
    w1: "handleCommand e (Some n) (words ws) ?w' = (w1, Done)" "aof_usable (io e) (cfg e) p (files w1)"
      "content_at p (files w1) = stream_of (map data_words log) @ encodeRESPArray (words ws) @ []"
    by (auto simp: log(3) data_bytes_stream)
  have run: "run_commands e (Some n) (map data_words ops @ [ws]) w = (w1, Done)"
    using client_run [OF d ok] w1(1) by (simp add: run_queue_append finish_def)
  let ?start = "initial_world [] [] (if mget (files w1) p = None then mput p [] (files w1) else files w1)"
  have 0: "expiry ?start = []" "waiters ?start = []"
    by (simp_all add: initial_world_def NewStore_def store.defs)
  have fit: "list_all data_ok log" "list_all words_fit (map data_words log)"
    using words_fit_subseq [OF log(1) assms(7)] by simp_all
  from nil_run [OF 0(1) fit(1), of e] obtain v where
    v: "run_commands e None (map data_words log) ?start = (v, Done)" "expiry v = []" by blast
  have "waiters v = []" using nil_run_waiters [OF 0(1) fit(1) v(1)] 0(2) by simp
  from push_nil_panics [OF this v(2) assms(8)] obtain v' where
    "handleCommand e None (words ws) v = (v', Panic)" by blast
  from replay_loop_panic [OF fit(2) v(1) assms(9) this lessI]
  have "replay_bytes e (content_at p (files w1)) ?start = (v', Interrupted Panic)"
    unfolding w1(3) replay_bytes_def .
  with main_start_log [OF w1(2) assms(5,6)] log(2) run show ?thesis
    by (intro exI [of _ w1]) (simp add: aof_ready_def)
qed

section \<open>Properties\<close>

text \<open>
  C36: a server that logs a push cannot be started again. After a first start with an
  append-only file a client sends any commands that set, count, score or pop, and then an
  \<open>LPUSH\<close> or \<open>RPUSH\<close>. All are answered and logged; the next start replays the log and panics at
  the push, whose reply is written to the nil connection.
\<close>

theorem push_breaks_restart:
  assumes "plain_config (cfg e) es" and "io e = (\<lambda>call path. False)" and "dbfilename (cfg e) = []"
    and "appendonly (cfg e) = ''yes''" and "requirepass (cfg e) = []"
    and "mget fs (manifest_path (cfg e)) = None"
    and "mget fs (abs_path (es @ [appenddirname (cfg e), aof_name (cfg e)])) = None"
    and "list_all (\<lambda>op. data_ok op \<and> words_fit (data_words op)) ops"
    and "push_words ws" and "words_fit ws"
  shows "\<exists>w0 w1. main_start e fs = (w0, Replayed) \<and>
    run_commands e (Some n) (map data_words ops @ [ws]) w0 = (w1, Done) \<and>
    snd (main_start e (files w1)) = Interrupted Panic"
proof -
  from first_client [OF assms(1-7), of n] obtain w0 p where
    st: "main_start e fs = (w0, Replayed)" "aof_ready e n p (let_in e (Some n) w0)"
      "waiters (let_in e (Some n) w0) = []" "cache (let_in e (Some n) w0) = []"
      "content_at p (files (let_in e (Some n) w0)) = []" by blast
  from push_breaks_log [OF st(2-5) assms(2,3,8-10)] obtain w1 where
    w1: "run_commands e (Some n) (map data_words ops @ [ws]) (let_in e (Some n) w0) = (w1, Done)"
      "snd (main_start e (files w1)) = Interrupted Panic" by blast
  have fit: "list_all words_fit (map data_words ops @ [ws])"
    using assms(8,10) by (simp add: list_all_iff)
  with run_let_in [OF _ fit, of e "Some n" w0] st(1) w1 show ?thesis by auto
qed

theorem push_breaks_restart_witness:
  "\<exists>w0 w1. main_start aof_env [] = (w0, Replayed) \<and>
     run_commands aof_env (Some 7) [[''SET'', ''a'', ''1''], [''INCR'', ''a''], [''RPUSH'', ''l'', ''x'']] w0 = (w1, Done) \<and>
     snd (main_start aof_env (files w1)) = Interrupted Panic"
proof -
  have "plain_config (cfg aof_env) [''data'']" by (simp add: aof_env_def data_config_plain)
  moreover have "push_words [''RPUSH'', ''l'', ''x'']" "words_fit [''RPUSH'', ''l'', ''x'']"
    by (simp_all add: push_words_def words_fit_def max_int64_def max_alloc_def)
  ultimately show ?thesis
    using push_breaks_restart [OF _ _ _ _ _ _ _ two_commands_fit, of aof_env "[''data'']" "[]"
        "[''RPUSH'', ''l'', ''x'']" 7]
    by (simp add: aof_env_def data_config_def default_config_def demo_env_def)
qed

end
