(* ===== verification/BlockingFacts.thy ===== *)
theory BlockingFacts
  imports PushFacts
begin

text \<open>
  Blocking reads, on the level of the whole system: \<open>BLPOP\<close> parks its client behind a channel, a
  push hands its values to the channels under the mutex, and each delivery wakes one client.
\<close>

section \<open>Readers that wait\<close>

definition blpop_bytes :: "string \<Rightarrow> string \<Rightarrow> string" where
  "blpop_bytes k t = encodeRESPArray (words [''BLPOP'', k, t])"

lemma handle_BLPOP_empty:
  assumes "free_client e (Some a) w" and "ParseFloat t = Some x" and "pop_front k w = None"
  shows "\<exists>dl. handleCommand e (Some a) (words [''BLPOP'', k, t]) w =
    (add_waiter k (next_chan w) (w\<lparr>next_chan := next_chan w + 1\<rparr>), Waiting (WaitPop k (next_chan w) dl) [])"
  using assms
  by (simp add: handleCommand_free [where cmd = "''BLPOP''"] go_eval dispatch_def handlers_def
      handleBLPOP_def Let_def)

lemma free_at_time [simp]: "free_client (at_time e s) c w = free_client e c w"
  by (simp add: free_client_def)

lemma serve_BLPOP:
  assumes "mget (clients s) a = Some (Ready (blpop_bytes k t @ rest))" and "halted s = None"
    and "free_client e (Some a) (state s)" and "ParseFloat t = Some x" and "pop_front k (state s) = None"
    and "words_fit [''BLPOP'', k, t]"
  shows "\<exists>dl. step e (Serve a) s = Some (s\<lparr>
    state := add_waiter k (next_chan (state s)) ((state s)\<lparr>next_chan := next_chan (state s) + 1\<rparr>),
    clients := mput a (Blocked (WaitPop k (next_chan (state s)) dl) [] rest) (clients s)\<rparr>)"
proof -
  from handle_BLPOP_empty [of "at_time e s", OF _ assms(4,5), of a] assms(3) obtain dl where
    "handleCommand (at_time e s) (Some a) (words [''BLPOP'', k, t]) (state s) =
      (add_waiter k (next_chan (state s)) ((state s)\<lparr>next_chan := next_chan (state s) + 1\<rparr>),
       Waiting (WaitPop k (next_chan (state s)) dl) [])" by auto
  then show ?thesis
    using assms(1,2) turn_words [OF assms(6), of "at_time e s" "Some a" rest "state s"]
    by (intro exI [of _ dl]) (simp add: step_def Let_def serve_def blpop_bytes_def settle_def)
qed

text \<open>The readers register one after the other, each behind those before it.\<close>

lemma readers_park:
  assumes "distinct as" and "halted s = None" and "ParseFloat t = Some x" and "words_fit [''BLPOP'', k, t]"
    and "list_all (\<lambda>a. mget (clients s) a = Some (Ready (blpop_bytes k t @ rest a)) \<and>
           free_client e (Some a) (state s)) as"
    and "pop_front k (state s) = None"
  shows "\<exists>s1 ws. run_events e (map Serve as) s = Some s1 \<and> halted s1 = None \<and> clock s1 = clock s \<and>
    state s1 = (state s)\<lparr>waiters := ws, next_chan := next_chan (state s) + length as\<rparr> \<and>
    queue_at (state s1) k = queue_at (state s) k @ [next_chan (state s) ..< next_chan (state s) + length as] \<and>
    (\<forall>i < length as. \<exists>dl. mget (clients s1) (as ! i) =
        Some (Blocked (WaitPop k (next_chan (state s) + i) dl) [] (rest (as ! i)))) \<and>
    (\<forall>b. b \<notin> set as \<longrightarrow> mget (clients s1) b = mget (clients s) b)"
  using assms
proof (induction as arbitrary: s)
  case Nil
  have "state s = (state s)\<lparr>waiters := waiters (state s), next_chan := next_chan (state s)\<rparr>" by simp
  with Nil show ?case by (intro exI [of _ s] exI [of _ "waiters (state s)"]) simp
next
  case (Cons a as)
  let ?ch = "next_chan (state s)"
  from serve_BLPOP [OF _ Cons.prems(2) _ Cons.prems(3,6,4), of a "rest a" e] Cons.prems(5) obtain dl where
    st: "step e (Serve a) s = Some (s\<lparr>state := add_waiter k ?ch ((state s)\<lparr>next_chan := ?ch + 1\<rparr>),
      clients := mput a (Blocked (WaitPop k ?ch dl) [] (rest a)) (clients s)\<rparr>)" (is "_ = Some ?s1")
    by auto
  have fr: "free_client e c (state ?s1) = free_client e c (state s)" "pop_front k (state ?s1) = None" for c
    using Cons.prems(6)
    by (auto simp: add_waiter_def free_client_def IsAuthenticated_def IsSubscribed_def IsInTx_def
        pop_front_def Let_def split: option.splits cached.splits list.splits)
  have "list_all (\<lambda>a. mget (clients ?s1) a = Some (Ready (blpop_bytes k t @ rest a)) \<and>
      free_client e (Some a) (state ?s1)) as"
    using Cons.prems(1,5) unfolding fr(1) by (auto simp: list_all_iff)
  from Cons.IH [OF _ _ Cons.prems(3,4) this fr(2)] Cons.prems(1,2) obtain s2 ws where
    IH: "run_events e (map Serve as) ?s1 = Some s2" "halted s2 = None" "clock s2 = clock s"
      "state s2 = (state ?s1)\<lparr>waiters := ws, next_chan := Suc ?ch + length as\<rparr>"
      "queue_at (state s2) k = queue_at (state ?s1) k @ [Suc ?ch ..< Suc ?ch + length as]"
      "\<forall>i < length as. \<exists>dl. mget (clients s2) (as ! i) =
        Some (Blocked (WaitPop k (Suc ?ch + i) dl) [] (rest (as ! i)))"
      "\<forall>b. b \<notin> set as \<longrightarrow> mget (clients s2) b = mget (clients ?s1) b"
    by (auto simp: add_waiter_def)
  have "state s2 = (state s)\<lparr>waiters := ws, next_chan := ?ch + length (a # as)\<rparr>"
    using IH(4) by (simp add: add_waiter_def)
  moreover have "queue_at (state s2) k = queue_at (state s) k @ [?ch ..< ?ch + length (a # as)]"
    using IH(5) upt_conv_Cons [of ?ch "?ch + length (a # as)"]
    by (simp add: queue_add_waiter) (simp add: queue_at_def)
  moreover have "\<exists>dl. mget (clients s2) ((a # as) ! i) =
      Some (Blocked (WaitPop k (?ch + i) dl) [] (rest ((a # as) ! i)))" if "i < length (a # as)" for i
    using that IH(6,7) Cons.prems(1) by (cases i) auto
  ultimately show ?case
    using st IH(1-3,7) by (intro exI [of _ s2] exI [of _ ws]) auto
qed

section \<open>A push hands over\<close>

lemma queue_at_outer [simp]:
  "queue_at (w\<lparr>chans := cs\<rparr>) = queue_at w" "queue_at (w\<lparr>waiters := ws, chans := cs\<rparr>) = queue_at (w\<lparr>waiters := ws\<rparr>)"
  "queue_at (w\<lparr>waiters := ws', chans := cs', waiters := ws, chans := cs\<rparr>) = queue_at (w\<lparr>waiters := ws\<rparr>)" for w :: world
  by (simp_all add: fun_eq_iff queue_at_def)

lemma take_waiter_upd:
  "queue_at w k = ch # chs \<Longrightarrow>
     \<exists>ws. take_waiter k w = Some (w\<lparr>waiters := ws\<rparr>, ch) \<and>
       queue_at (w\<lparr>waiters := ws\<rparr>) = (queue_at w)(k := chs)"
  using take_waiter_Cons [of w k ch chs]
  by (auto simp: take_waiter_def split: option.splits list.splits if_splits)

lemma push_loop_spec:
  assumes "distinct (queue_at w k)" and "\<forall>ch \<in> set (queue_at w k). mget (chans w) ch = None"
  shows "\<exists>ws cs. push_loop k vs w = (w\<lparr>waiters := ws, chans := cs\<rparr>, Done, drop (length (queue_at w k)) vs) \<and>
    queue_at (w\<lparr>waiters := ws\<rparr>) = (queue_at w)(k := drop (length vs) (queue_at w k)) \<and>
    mget cs = mget (chans w) ++ map_of (zip (queue_at w k) vs)"
  using assms
proof (induction vs arbitrary: w)
  case Nil
  have "w = w\<lparr>waiters := waiters w, chans := chans w\<rparr>" by simp
  then show ?case by (intro exI [of _ "waiters w"] exI [of _ "chans w"]) (simp add: fun_eq_iff)
next
  case (Cons v vs)
  show ?case
  proof (cases "queue_at w k")
    case Nil
    from Cons.IH [OF Cons.prems] obtain ws cs where
      "push_loop k vs w = (w\<lparr>waiters := ws, chans := cs\<rparr>, Done, drop (length (queue_at w k)) vs)"
      "queue_at (w\<lparr>waiters := ws\<rparr>) = (queue_at w)(k := drop (length vs) (queue_at w k))"
      "mget cs = mget (chans w) ++ map_of (zip (queue_at w k) vs)" by blast
    with Nil take_waiter_Nil [OF Nil] show ?thesis by (intro exI [of _ ws] exI [of _ cs]) simp
  next
    case (Cons ch chs)
    from take_waiter_upd [OF Cons] obtain ws1 where
      w1: "take_waiter k w = Some (w\<lparr>waiters := ws1\<rparr>, ch)"
        "queue_at (w\<lparr>waiters := ws1\<rparr>) = (queue_at w)(k := chs)" by blast
    let ?w2 = "w\<lparr>waiters := ws1, chans := mput ch v (chans w)\<rparr>"
    have "distinct (queue_at ?w2 k)" "\<forall>c \<in> set (queue_at ?w2 k). mget (chans ?w2) c = None"
      using Cons.prems Cons by (auto simp: w1(2))
    from Cons.IH [OF this] obtain ws cs where
      r: "push_loop k vs ?w2 = (?w2\<lparr>waiters := ws, chans := cs\<rparr>, Done, drop (length (queue_at ?w2 k)) vs)"
        "queue_at (?w2\<lparr>waiters := ws\<rparr>) = (queue_at ?w2)(k := drop (length vs) (queue_at ?w2 k))"
        "mget cs = mget (chans ?w2) ++ map_of (zip (queue_at ?w2 k) vs)" by blast
    have q: "queue_at ?w2 = (queue_at w)(k := chs)" using w1(2) by simp
    have "queue_at (?w2\<lparr>waiters := ws\<rparr>) = queue_at (w\<lparr>waiters := ws\<rparr>)"
      by (simp add: fun_eq_iff queue_at_def)
    note r = r [unfolded q this]
    have "ch \<notin> dom (map_of (zip chs vs))"
      using Cons.prems(1) Cons by (auto dest: map_of_SomeD set_zip_leftD)
    then have C: "mget cs = mget (chans w) ++ map_of (zip (queue_at w k) (v # vs))"
      using r(3) by (simp add: Cons map_add_upd_left)
    have B: "queue_at (w\<lparr>waiters := ws\<rparr>) = (queue_at w)(k := drop (length (v # vs)) (queue_at w k))"
      using r(2) by (simp add: Cons)
    have "mget (chans w) ch = None" using Cons.prems(2) Cons by simp
    with r(1) w1(1) have "push_loop k (v # vs) w =
        (w\<lparr>waiters := ws, chans := cs\<rparr>, Done, drop (length (queue_at w k)) (v # vs))"
      by (simp add: Cons)
    with B C show ?thesis by blast
  qed
qed


definition push_of :: "string \<Rightarrow> string \<Rightarrow> string list \<Rightarrow> world \<Rightarrow> world \<times> int" where
  "push_of name = (if name = ''LPUSH'' then LPush else RPush)"

lemma push_of_frame:
  "same_rest w (fst (push_of name k vs w))" "waiters (fst (push_of name k vs w)) = waiters w"
  "list_at (fst (push_of name k vs w)) k =
     (if name = ''LPUSH'' then rev vs @ list_at w k else list_at w k @ vs)"
  using list_ops_rest(1,2) by (simp_all add: push_of_def LPush_spec RPush_spec list_at_def)

lemma push_dispatch:
  assumes "free_client e c w" and "name \<in> {''LPUSH'', ''RPUSH''}"
  shows "handleCommand e c (words (name # xs)) w = push_handler (push_of name) name e c (words (name # xs)) w"
  using assms(2)
proof (elim insertE emptyE)
  assume "name = ''LPUSH''"
  with assms(1) show ?thesis
    by (simp add: handleCommand_free [where cmd = "''LPUSH''"] go_eval dispatch_def handlers_def
        handleLPUSH_def push_of_def)
next
  assume "name = ''RPUSH''"
  with assms(1) show ?thesis
    by (simp add: handleCommand_free [where cmd = "''RPUSH''"] go_eval dispatch_def handlers_def
        handleRPUSH_def push_of_def)
qed

lemma push_to_waiters:
  assumes r: "client_ready e n w" and x: "mget (expiry w) k = None"
    and c: "mget (cache w) k \<in> {None, Some (VList [])}"
    and q: "distinct (queue_at w k)" "\<forall>ch \<in> set (queue_at w k). mget (chans w) ch = None"
    and "vs \<noteq> []" and "name \<in> {''LPUSH'', ''RPUSH''}"
    and left: "left = drop (length (queue_at w k)) vs"
  shows "\<exists>ws cs. let w1 = w\<lparr>waiters := ws, chans := cs\<rparr> in
    handleCommand e (Some n) (words (name # k # vs)) w =
      (only_replies (Some n) [writeInteger_bytes (int (length vs))] (propagate (words (name # k # vs))
        (if left \<noteq> [] then fst (push_of name k left w1) else w1)), Done) \<and>
    queue_at w1 = (queue_at w)(k := drop (length vs) (queue_at w k)) \<and>
    mget cs = mget (chans w) ++ map_of (zip (queue_at w k) vs)"
proof -
  have f: "free_client e (Some n) w" "appendonly (cfg e) \<noteq> ''yes''"
    using r by (simp_all add: client_ready_def)
  have len: "initialLen e k w = (w, 0)"
    using c by (auto simp: initialLen_def Get_no_expiry [OF x])
  obtain ws cs where p: "push_loop k vs w = (w\<lparr>waiters := ws, chans := cs\<rparr>, Done, left)"
      "queue_at (w\<lparr>waiters := ws\<rparr>) = (queue_at w)(k := drop (length vs) (queue_at w k))"
      "mget cs = mget (chans w) ++ map_of (zip (queue_at w k) vs)"
    using push_loop_spec [OF q, of vs] left by blast
  have "push_handler (push_of name) name e (Some n) (words (name # k # vs)) w =
      (only_replies (Some n) [writeInteger_bytes (int (length vs))] (propagate (words (name # k # vs))
        (if left \<noteq> [] then fst (push_of name k left (w\<lparr>waiters := ws, chans := cs\<rparr>))
         else w\<lparr>waiters := ws, chans := cs\<rparr>)), Done)"
    by (simp add: push_handler_def len p(1) persist_no_log [OF f(2)] conn_write_client
        writeInteger_bytes_def finish_def Let_def \<open>vs \<noteq> []\<close>)
  with p(2,3) push_dispatch [OF f(1) assms(7)] show ?thesis
    by (intro exI [of _ ws] exI [of _ cs]) (simp add: Let_def)
qed

section \<open>Deliveries\<close>

lemma deliver_one:
  assumes "mget (clients s) a = Some (Blocked (WaitPop k ch dl) [] rest)" and "halted s = None"
    and "mget (chans (state s)) ch = Some v"
  shows "step e (Deliver a) s = Some (s\<lparr>
    state := (state s)\<lparr>chans := mdel ch (chans (state s)),
      sent := sent (state s) @ [(Some a, writeArrayResponse_bytes [k, v])]\<rparr>,
    clients := mput a (Ready rest) (clients s)\<rparr>)"
  using assms
  by (simp add: step_def Let_def resume_def woken_def take_value_def BLPOP_value_def finish_def
      replies_to_client settle_def and_then_def continue_exec_def only_replies_def)

lemma deliver_all:
  assumes "distinct (map fst xs)" and "distinct (map (fst \<circ> snd) xs)" and "halted s = None"
    and "list_all (\<lambda>(a, ch, v). (\<exists>dl. mget (clients s) a = Some (Blocked (WaitPop k ch dl) [] (rest a))) \<and>
           mget (chans (state s)) ch = Some v) xs"
  shows "\<exists>s2 cs. run_events e (map (\<lambda>x. Deliver (fst x)) xs) s = Some s2 \<and>
    state s2 = (state s)\<lparr>chans := cs,
      sent := sent (state s) @ map (\<lambda>(a, ch, v). (Some a, writeArrayResponse_bytes [k, v])) xs\<rparr> \<and>
    (\<forall>x \<in> set xs. mget (clients s2) (fst x) = Some (Ready (rest (fst x)))) \<and>
    (\<forall>b. b \<notin> set (map fst xs) \<longrightarrow> mget (clients s2) b = mget (clients s) b)"
  using assms
proof (induction xs arbitrary: s)
  case Nil
  have "state s = (state s)\<lparr>chans := chans (state s), sent := sent (state s)\<rparr>" by simp
  then show ?case by (intro exI [of _ s] exI [of _ "chans (state s)"]) simp
next
  case (Cons x xs)
  obtain a ch v where x: "x = (a, ch, v)" by (cases x) auto
  with Cons.prems(4) obtain dl where a: "mget (clients s) a = Some (Blocked (WaitPop k ch dl) [] (rest a))"
    "mget (chans (state s)) ch = Some v" by auto
  note st = deliver_one [OF a(1) Cons.prems(3) a(2), of e]
  let ?s1 = "s\<lparr>state := (state s)\<lparr>chans := mdel ch (chans (state s)),
      sent := sent (state s) @ [(Some a, writeArrayResponse_bytes [k, v])]\<rparr>,
    clients := mput a (Ready (rest a)) (clients s)\<rparr>"
  have apart: "a' \<noteq> a \<and> ch' \<noteq> ch" if "(a', ch', v') \<in> set xs" for a' ch' v'
    using that Cons.prems(1,2) by (force simp: x)
  have "list_all (\<lambda>(a, ch, v). (\<exists>dl. mget (clients ?s1) a = Some (Blocked (WaitPop k ch dl) [] (rest a))) \<and>
      mget (chans (state ?s1)) ch = Some v) xs"
    using Cons.prems(4) apart by (fastforce simp: list_all_iff)
  from Cons.IH [OF _ _ _ this] Cons.prems(1-3) obtain s2 cs where
    "run_events e (map (\<lambda>x. Deliver (fst x)) xs) ?s1 = Some s2"
    "state s2 = (state ?s1)\<lparr>chans := cs,
      sent := sent (state ?s1) @ map (\<lambda>(a, ch, v). (Some a, writeArrayResponse_bytes [k, v])) xs\<rparr>"
    "\<forall>x \<in> set xs. mget (clients s2) (fst x) = Some (Ready (rest (fst x)))"
    "\<forall>b. b \<notin> set (map fst xs) \<longrightarrow> mget (clients s2) b = mget (clients ?s1) b"
    by auto
  with st x Cons.prems(1) show ?case by (intro exI [of _ s2] exI [of _ cs]) auto
qed


section \<open>The whole exchange\<close>

text \<open>The pusher's turn, seen from the system.\<close>

lemma serve_push:
  assumes "mget (clients s) n = Some (Ready (encodeRESPArray (words ws) @ rest))" and "halted s = None"
    and "words_fit ws" and "handleCommand (at_time e s) (Some n) (words ws) (state s) = (w1, Done)"
  shows "step e (Serve n) s = Some (s\<lparr>state := w1, clients := mput n (Ready rest) (clients s)\<rparr>)"
  using assms(1,2,4) turn_words [OF assms(3), of "at_time e s" "Some n" rest "state s"]
  by (simp add: step_def Let_def serve_def settle_def)

lemma client_ready_at_time [simp]: "client_ready (at_time e s) n w = client_ready e n w"
  by (simp add: client_ready_def free_client_def at_time_def)

lemma list_at_outer [simp]:
  "list_at (only_replies c out w) k = list_at w k" "list_at (propagate arr w) k = list_at w k"
  "list_at (w\<lparr>waiters := ws, chans := cs\<rparr>) k = list_at w k"
  "list_at (w\<lparr>chans := cs, sent := ms\<rparr>) k = list_at w k" for w :: world
  by (simp_all add: list_at_def)

lemma sent_push:
  "sent (only_replies c out (propagate arr w)) =
     sent w @ map (\<lambda>r. (r, encodeRESPArray arr)) (replicas w) @ map (Pair c) out"
  by (simp add: only_replies_def propagate_def Let_def)

lemma sent_push_of: "sent (fst (push_of name k vs w)) = sent w" "replicas (fst (push_of name k vs w)) = replicas w"
    "chans (fst (push_of name k vs w)) = chans w"
  using push_of_frame(1) [of w name k vs] more_files [of "fst (push_of name k vs w)" w]
  by (simp_all add: same_rest_def) (cases w; cases "fst (push_of name k vs w)"; simp)

lemma map_of_zip_nth:
  "distinct xs \<Longrightarrow> i < length xs \<Longrightarrow> i < length ys \<Longrightarrow> map_of (zip xs ys) (xs ! i) = Some (ys ! i)"
proof -
  assume a: "distinct xs" "i < length xs" "i < length ys"
  have "(xs ! i, ys ! i) \<in> set (zip xs ys)" using a(2,3) by (auto simp: set_zip)
  moreover have "distinct (map fst (zip xs ys))" using a(1) by (simp add: map_fst_zip_take)
  ultimately show ?thesis by simp
qed

lemma push_and_deliver:
  assumes "distinct as" and "n \<notin> set as" and "halted s = None"
    and chs: "queue_at (state s) k = chs" "distinct chs" "\<forall>ch \<in> set chs. mget (chans (state s)) ch = None"
    and "length chs = length as"
    and waiting: "\<forall>i < length as. \<exists>dl. mget (clients s) (as ! i) =
          Some (Blocked (WaitPop k (chs ! i) dl) [] (rest (as ! i)))"
    and pusher: "mget (clients s) n = Some (Ready (encodeRESPArray (words (name # k # vs)) @ rest n))"
    and ready: "client_ready e n (state s)" and name: "name \<in> {''LPUSH'', ''RPUSH''}" and "vs \<noteq> []"
    and "words_fit (name # k # vs)"
    and "mget (expiry (state s)) k = None" and "mget (cache (state s)) k \<in> {None, Some (VList [])}"
    and m: "m = min (length as) (length vs)"
  shows "\<exists>s2. run_events e (Serve n # map Deliver (take m as)) s = Some s2 \<and>
    sent (state s2) = sent (state s) @
      map (\<lambda>r. (r, encodeRESPArray (words (name # k # vs)))) (replicas (state s)) @
      (Some n, writeInteger_bytes (int (length vs))) #
      map (\<lambda>(a, v). (Some a, writeArrayResponse_bytes [k, v])) (zip as vs) \<and>
    (\<forall>a \<in> set (n # take m as). mget (clients s2) a = Some (Ready (rest a))) \<and>
    list_at (state s2) k = (if name = ''LPUSH'' then rev (drop (length as) vs) else drop (length as) vs) \<and>
    queue_at (state s2) k = drop (length vs) chs \<and>
    (\<forall>a. a \<notin> set (n # take m as) \<longrightarrow> mget (clients s2) a = mget (clients s) a)"
proof -
  let ?w = "state s" and ?left = "drop (length chs) vs"
  from push_to_waiters [of "at_time e s" n ?w k vs name ?left] ready assms(14,15) chs assms(12) name
  obtain ws cs where p:
    "handleCommand (at_time e s) (Some n) (words (name # k # vs)) ?w =
      (only_replies (Some n) [writeInteger_bytes (int (length vs))] (propagate (words (name # k # vs))
        (if ?left \<noteq> [] then fst (push_of name k ?left (?w\<lparr>waiters := ws, chans := cs\<rparr>))
         else ?w\<lparr>waiters := ws, chans := cs\<rparr>)), Done)"
    "queue_at (?w\<lparr>waiters := ws\<rparr>) = (queue_at ?w)(k := drop (length vs) chs)"
    "mget cs = mget (chans ?w) ++ map_of (zip chs vs)"
    by (auto simp: Let_def)
  define w1 where "w1 = (if ?left \<noteq> [] then fst (push_of name k ?left (?w\<lparr>waiters := ws, chans := cs\<rparr>))
         else ?w\<lparr>waiters := ws, chans := cs\<rparr>)"
  define w2 where "w2 = only_replies (Some n) [writeInteger_bytes (int (length vs))]
      (propagate (words (name # k # vs)) w1)"
  let ?s1 = "s\<lparr>state := w2, clients := mput n (Ready (rest n)) (clients s)\<rparr>"
  have w1: "sent w1 = sent ?w" "replicas w1 = replicas ?w" "chans w1 = cs"
      "queue_at w1 k = drop (length vs) chs"
      "list_at w1 k = (if name = ''LPUSH'' then rev ?left else ?left)"
  proof -
    have l: "list_at ?w k = []" using assms(15) by (auto simp: list_at_def)
    show "sent w1 = sent ?w" "replicas w1 = replicas ?w" "chans w1 = cs"
      by (simp_all add: w1_def sent_push_of)
    have "waiters w1 = ws" by (simp add: w1_def push_of_frame(2))
    then show "queue_at w1 k = drop (length vs) chs"
      using fun_cong [OF p(2), of k] by (simp add: queue_at_def)
    show "list_at w1 k = (if name = ''LPUSH'' then rev ?left else ?left)"
      by (simp add: w1_def push_of_frame(3) l)
  qed
  have st: "step e (Serve n) s = Some ?s1"
    using serve_push [OF pusher assms(3,13) p(1)] by (simp only: w1_def w2_def)
  define xs where "xs = map (\<lambda>i. (as ! i, chs ! i, vs ! i)) [0 ..< m]"
  have firsts: "map fst xs = take m as"
    by (rule nth_equalityI) (simp_all add: xs_def m)
  have "map (fst \<circ> snd) xs = take m chs"
    by (rule nth_equalityI) (simp_all add: xs_def m assms(7))
  then have distinct: "distinct (map fst xs)" "distinct (map (fst \<circ> snd) xs)"
    using assms(1) chs(2) by (simp_all add: firsts)
  have "chans w2 = cs" by (simp add: w2_def w1(3) only_replies_def propagate_def Let_def)
  then have c: "mget (chans w2) (chs ! i) = Some (vs ! i)" if "i < m" for i
    using that map_of_zip_nth [OF chs(2), of i vs] by (simp add: p(3) m assms(7) map_add_def)
  have "list_all (\<lambda>(a, ch, v). (\<exists>dl. mget (clients ?s1) a = Some (Blocked (WaitPop k ch dl) [] (rest a))) \<and>
      mget (chans (state ?s1)) ch = Some v) xs"
    using waiting c assms(2) by (auto simp: list_all_iff xs_def m)
  from deliver_all [OF distinct _ this, of e] assms(3) obtain s2 cs2 where s2:
    "run_events e (map (\<lambda>x. Deliver (fst x)) xs) ?s1 = Some s2"
    "state s2 = w2\<lparr>chans := cs2,
      sent := sent w2 @ map (\<lambda>(a, ch, v). (Some a, writeArrayResponse_bytes [k, v])) xs\<rparr>"
    "\<forall>x \<in> set xs. mget (clients s2) (fst x) = Some (Ready (rest (fst x)))"
    "\<forall>b. b \<notin> set (map fst xs) \<longrightarrow> mget (clients s2) b = mget (clients ?s1) b"
    by auto
  have dels: "map (\<lambda>x. Deliver (fst x)) xs = map Deliver (take m as)"
    by (simp add: firsts [symmetric])
  have outs: "map (\<lambda>(a, ch, v). (Some a, writeArrayResponse_bytes [k, v])) xs =
      map (\<lambda>(a, v). (Some a, writeArrayResponse_bytes [k, v])) (zip as vs)"
    by (rule nth_equalityI) (simp_all add: xs_def m)
  have "sent (state s2) = sent (state s) @
      map (\<lambda>r. (r, encodeRESPArray (words (name # k # vs)))) (replicas (state s)) @
      (Some n, writeInteger_bytes (int (length vs))) #
      map (\<lambda>(a, v). (Some a, writeArrayResponse_bytes [k, v])) (zip as vs)"
    unfolding s2(2) outs by (simp add: w2_def sent_push w1)
  moreover have "list_at (state s2) k = (if name = ''LPUSH'' then rev ?left else ?left)"
    "queue_at (state s2) k = drop (length vs) chs"
    unfolding s2(2) using w1(4,5) by (simp_all add: w2_def) (simp add: queue_at_def only_replies_def propagate_def Let_def)
  moreover have "mget (clients s2) n = Some (Ready (rest n))"
    using s2(4) assms(2) by (auto simp: firsts dest: in_set_takeD)
  moreover have "mget (clients s2) a = Some (Ready (rest a))" if "a \<in> set (take m as)" for a
    using that s2(3) unfolding firsts [symmetric] by auto
  moreover have "mget (clients s2) a = mget (clients s) a" if "a \<notin> set (n # take m as)" for a
    using that s2(4) by (simp add: firsts)
  ultimately show ?thesis
    using st s2(1) by (intro exI [of _ s2]) (simp add: dels assms(7))
qed


lemma run_events_then:
  "run_events e evs s = Some s1 \<Longrightarrow> run_events e evs' s1 = Some s2 \<Longrightarrow>
     run_events e (evs @ evs') s = Some s2"
  by (simp add: run_events_append)

section \<open>Properties\<close>

text \<open>
  C8: blocked readers are served, first come first served, and nothing is lost. Clients \<open>as\<close>
  send \<open>BLPOP\<close> on a key that holds nothing, in this order, and block; then a client pushes
  values with one \<open>LPUSH\<close> or \<open>RPUSH\<close>. The i-th reader is answered with the key and the i-th
  value, and goes on reading its commands; the pusher is answered with the number of values and
  its command is sent to the replicas; readers beyond the values stay blocked and queued, values
  beyond the readers are the list at the key, in the order a push without readers gives.
\<close>

theorem blocked_readers_served:
  assumes "distinct as" and "n \<notin> set as" and "halted s = None"
    and "\<forall>a \<in> set as. mget (clients s) a = Some (Ready (blpop_bytes k t @ rest a)) \<and>
           free_client e (Some a) (state s)"
    and "ParseFloat t \<noteq> None" and "words_fit [''BLPOP'', k, t]"
    and "mget (clients s) n = Some (Ready (encodeRESPArray (words (name # k # vs)) @ rest n))"
    and "client_ready e n (state s)" and "name \<in> {''LPUSH'', ''RPUSH''}" and "vs \<noteq> []"
    and "words_fit (name # k # vs)"
    and "mget (expiry (state s)) k = None" and "mget (cache (state s)) k \<in> {None, Some (VList [])}"
    and "queue_at (state s) k = []"
    and "\<forall>ch. next_chan (state s) \<le> ch \<longrightarrow> mget (chans (state s)) ch = None"
    and "served = take (length vs) as"
  shows "\<exists>s'. run_events e (map Serve as @ Serve n # map Deliver served) s = Some s' \<and>
    sent (state s') = sent (state s) @
      map (\<lambda>r. (r, encodeRESPArray (words (name # k # vs)))) (replicas (state s)) @
      (Some n, writeInteger_bytes (int (length vs))) #
      map (\<lambda>(a, v). (Some a, writeArrayResponse_bytes [k, v])) (zip as vs) \<and>
    (\<forall>a \<in> set (n # served). mget (clients s') a = Some (Ready (rest a))) \<and>
    list_at (state s') k = (if name = ''LPUSH'' then rev (drop (length as) vs) else drop (length as) vs) \<and>
    length (queue_at (state s') k) = length as - length vs \<and>
    (\<forall>a \<in> set as - set served. \<exists>wt. mget (clients s') a = Some (Blocked wt [] (rest a)))"
proof -
  obtain x where x: "ParseFloat t = Some x" using assms(5) by blast
  have "pop_front k (state s) = None" using assms(13) by (auto simp: pop_front_def)
  from readers_park [OF assms(1,3) x assms(6) _ this, of rest e] assms(4) obtain s1 ws where
    s1: "run_events e (map Serve as) s = Some s1" "halted s1 = None" "clock s1 = clock s"
      "state s1 = (state s)\<lparr>waiters := ws, next_chan := next_chan (state s) + length as\<rparr>"
      "queue_at (state s1) k = [next_chan (state s) ..< next_chan (state s) + length as]"
      "\<forall>i < length as. \<exists>dl. mget (clients s1) (as ! i) =
        Some (Blocked (WaitPop k (next_chan (state s) + i) dl) [] (rest (as ! i)))"
      "\<forall>b. b \<notin> set as \<longrightarrow> mget (clients s1) b = mget (clients s) b"
    using assms(14) by (auto simp: list_all_iff)
  let ?chs = "[next_chan (state s) ..< next_chan (state s) + length as]"
  let ?m = "min (length as) (length vs)"
  have served: "take ?m as = served" by (simp add: assms(16) min_def)
  have "client_ready e n (state s1)" "mget (expiry (state s1)) k = None"
      "mget (cache (state s1)) k \<in> {None, Some (VList [])}"
      "\<forall>ch \<in> set ?chs. mget (chans (state s1)) ch = None"
    using assms(8,12,13,15)
    by (simp_all add: s1(4) client_ready_def free_client_def IsAuthenticated_def IsSubscribed_def IsInTx_def)
  note here = this
  have "length ?chs = length as" "\<forall>i < length as. \<exists>dl. mget (clients s1) (as ! i) =
        Some (Blocked (WaitPop k (?chs ! i) dl) [] (rest (as ! i)))"
      "mget (clients s1) n = Some (Ready (encodeRESPArray (words (name # k # vs)) @ rest n))"
    using s1(6,7) assms(2,7) by simp_all
  from push_and_deliver [OF assms(1,2) s1(2,5) distinct_upt here(4) this here(1) assms(9-11) here(2,3) refl]
  obtain s2 where
    s2: "run_events e (Serve n # map Deliver (take ?m as)) s1 = Some s2"
      "sent (state s2) = sent (state s1) @
        map (\<lambda>r. (r, encodeRESPArray (words (name # k # vs)))) (replicas (state s1)) @
        (Some n, writeInteger_bytes (int (length vs))) #
        map (\<lambda>(a, v). (Some a, writeArrayResponse_bytes [k, v])) (zip as vs)"
      "\<forall>a \<in> set (n # take ?m as). mget (clients s2) a = Some (Ready (rest a))"
      "list_at (state s2) k = (if name = ''LPUSH'' then rev (drop (length as) vs) else drop (length as) vs)"
      "queue_at (state s2) k = drop (length vs) ?chs"
      "\<forall>a. a \<notin> set (n # take ?m as) \<longrightarrow> mget (clients s2) a = mget (clients s1) a"
    by blast
  have "\<exists>wt. mget (clients s2) a = Some (Blocked wt [] (rest a))" if "a \<in> set as - set served" for a
  proof -
    obtain i where "i < length as" "a = as ! i" using \<open>a \<in> set as - set served\<close> by (auto simp: in_set_conv_nth)
    with s1(6) obtain wt where "mget (clients s1) a = Some (Blocked wt [] (rest a))" by blast
    moreover have "mget (clients s2) a = mget (clients s1) a"
      using that s2(6) assms(2) by (auto simp: served)
    ultimately show ?thesis by auto
  qed
  with run_events_then [OF s1(1) s2(1)] s2(2-5) show ?thesis
    by (intro exI [of _ s2]) (simp add: served s1(4))
qed


lemma ParseFloat_zero: "ParseFloat ''0'' \<noteq> None"
  by (simp add: ParseFloat_def special_float_def drop_sign_def ascii_lower_def f_NaN_def float_digit_def
      is_digit_def digit_val_def scaled_float_def round_mag_def Let_def underscore_ok_def f_inf_mag_def
      less_eq_char_def of_char_def bit_len.simps [of 0] round_even_def)

definition three_clients :: system where
  "three_clients = \<lparr>state = Authenticate (Some 1) (Authenticate (Some 2) client_world),
     clients = [(1, Ready (blpop_bytes ''l'' ''0'')), (2, Ready (blpop_bytes ''l'' ''0'')),
       (7, Ready (encodeRESPArray (words [''RPUSH'', ''l'', ''x''])))], clock = 0, halted = None\<rparr>"

theorem blocked_readers_served_witness:
  "\<exists>s'. run_events demo_env [Serve 1, Serve 2, Serve 7, Deliver 1] three_clients = Some s' \<and>
     sent (state s') = [(Some 7, writeInteger_bytes 1), (Some 1, writeArrayResponse_bytes [''l'', ''x''])] \<and>
     mget (clients s') 1 = Some (Ready []) \<and> list_at (state s') ''l'' = [] \<and>
     (\<exists>wt. mget (clients s') 2 = Some (Blocked wt [] []))"
proof -
  have st: "cache (state three_clients) = []" "expiry (state three_clients) = []"
      "waiters (state three_clients) = []" "sent (state three_clients) = []"
      "replicas (state three_clients) = []" "chans (state three_clients) = []"
    by (simp_all add: three_clients_def Authenticate_def client_world_fields)
       (simp add: client_world_def empty_world_def initial_world_def Authenticate_def store.defs)
  have free: "free_client demo_env (Some a) (state three_clients)" if "a \<in> {1, 2, 7}" for a
    using that by (auto simp: three_clients_def free_client_def IsAuthenticated_def IsSubscribed_def
        IsInTx_def Authenticate_def client_world_fields mget_bool_def)
  have ready: "client_ready demo_env 7 (state three_clients)"
    using free by (simp add: client_ready_def st(5) demo_env_def default_config_def)
  have fit: "words_fit [''BLPOP'', ''l'', ''0'']" "words_fit [''RPUSH'', ''l'', ''x'']"
    by (simp_all add: words_fit_def max_int64_def max_alloc_def)
  have q: "queue_at (state three_clients) ''l'' = []" by (simp add: queue_at_def st(3) mget_list_def)
  from blocked_readers_served [of "[1, 2]" 7 three_clients "''l''" "''0''" "\<lambda>a. []" demo_env "''RPUSH''" "[''x'']"]
    free ready fit ParseFloat_zero q st show ?thesis
    by (auto simp: three_clients_def)
qed

end
