(* ===== verification/WaitFacts.thy ===== *)
theory WaitFacts
  imports BlockingFacts
begin

text \<open>
  \<open>WAIT\<close>: when a client that waits for acknowledgements is answered, and what the offsets it
  compares are worth.
\<close>

section \<open>Asking for acknowledgements\<close>

definition getack :: "string list" where "getack = [''REPLCONF'', ''GETACK'', ''*'']"

lemma length_getack: "length (encodeRESPArray (words getack)) = 37"
  by (simp add: getack_def encodeRESPArray_def words_def array_header_def bulk_def go_eval)

definition ask_replicas :: "world \<Rightarrow> world" where
  "ask_replicas w = w\<lparr>sent := sent w @ map (\<lambda>r. (r, encodeRESPArray (words getack))) (replicas w)\<rparr>"

lemma ackCount_bounds: "0 \<le> ackCount off rs w \<and> ackCount off rs w \<le> int (length rs)"
  by (simp add: ackCount_def)

lemma ackCount_asked [simp]: "ackCount off rs (ask_replicas w) = ackCount off rs w"
  by (simp add: ackCount_def ask_replicas_def)

lemma elapsed: "timeout \<le> (t - start) div 1000000 \<longleftrightarrow> start + timeout * 1000000 \<le> (t::int)"
  by linarith

lemma poll_answers:
  "poll_wait t (Some n) (WaitAcks expected off rs start timeout) w =
     (if expected \<le> ackCount off rs w \<or> (0 < timeout \<and> start + timeout * 1000000 \<le> t)
      then Some (finish (only_replies (Some n) [writeInteger_bytes (ackCount off rs w)] w)) else None)"
  by (simp add: poll_wait_def elapsed replies_to_client)

lemma WAIT_free:
  assumes "free_client e (Some n) w" and "in_int64 expected" and "in_int64 timeout"
  shows "handleCommand e (Some n) (words [''WAIT'', Itoa expected, Itoa timeout]) w =
    (if expected = 0 \<or> masterOffset w = 0
     then finish (only_replies (Some n) [writeInteger_bytes (int (length (replicas w)))] w)
     else if expected \<le> ackCount (masterOffset w) (replicas w) w
     then finish (only_replies (Some n) [writeInteger_bytes (ackCount (masterOffset w) (replicas w) w)] (ask_replicas w))
     else (ask_replicas w, Waiting (WaitAcks expected (masterOffset w) (replicas w) (now e) timeout) []))"
proof -
  have a: "w\<lparr>sent := sent w @ map (\<lambda>r. (r, encodeRESPArray [RStr ''REPLCONF'', RStr ''GETACK'', RStr ''*''])) (replicas w)\<rparr>
      = ask_replicas w"
    by (simp add: ask_replicas_def getack_def words_def)
  have "atoi_value (Itoa expected) = expected" "atoi_value (Itoa timeout) = timeout"
    using assms(2,3) by (simp_all add: atoi_value_def ParseInt_Itoa)
  then show ?thesis
    using assms(1)
    by (simp add: handleCommand_free [where cmd = "''WAIT''"] go_eval dispatch_def handlers_def
        handleWAIT_def Let_def a poll_answers replies_to_client)
qed

text \<open>A replica reports its offset before it counts the request.\<close>

lemma getack_words: "words_fit getack" "is_GETACK (words getack)"
  by (simp_all add: getack_def words_fit_def max_int64_def max_alloc_def is_GETACK_def words_def
      asStringOrEmpty_def arg_def asString_def go_eval)

lemma replica_getack:
  assumes "length (encodeRESPArray (words getack) @ rest) < Suc f"
  shows "replica_loop (Suc f) e m (encodeRESPArray (words getack) @ rest) off w =
    replica_loop f e m rest (wrap64 (off + 37))
      (writeArrayResponse m [''REPLCONF'', ''ACK'', Itoa off] w)"
proof -
  have "command_of (RArr (words getack)) = Some (words getack)"
    by (rule command_of_words) (simp add: getack_def)
  with getack_words show ?thesis by (simp add: parse_words length_getack Let_def)
qed

text \<open>The client's turn and what wakes it.\<close>

lemma serve_done:
  assumes "mget (clients s) n = Some (Ready (encodeRESPArray (words ws) @ rest))" and "halted s = None"
    and "words_fit ws"
    and "handleCommand (at_time e s) (Some n) (words ws) (state s) = (w1, Waiting wt q)"
  shows "step e (Serve n) s = Some (s\<lparr>state := w1, clients := mput n (Blocked wt q rest) (clients s)\<rparr>)"
  using assms(1,2,4) turn_words [OF assms(3), of "at_time e s" "Some n" rest "state s"]
  by (simp add: step_def Let_def serve_def settle_def)

lemma deliver_acks:
  assumes "mget (clients s) n = Some (Blocked (WaitAcks expected off rs start timeout) [] rest)"
    and "halted s = None"
  shows "step e (Deliver n) s =
    (if expected \<le> ackCount off rs (state s) \<or> (0 < timeout \<and> start + timeout * 1000000 \<le> clock s)
     then Some (s\<lparr>state := only_replies (Some n) [writeInteger_bytes (ackCount off rs (state s))] (state s),
       clients := mput n (Ready rest) (clients s)\<rparr>)
     else None)"
  using assms
  by (simp add: step_def Let_def resume_def woken_def poll_answers at_time_def finish_def and_then_def
      continue_exec_def settle_def)

section \<open>Properties\<close>

text \<open>
  C21: \<open>WAIT\<close> asks every replica for its offset and blocks; from then on, whatever happens, it is
  answered as soon as enough replicas have confirmed the offset the master had at the start, and
  once its time is up, but not before. The answer is the number of replicas that have confirmed
  it by then, at most the number of replicas.
\<close>

theorem wait_answered:
  assumes "mget (clients s) n = Some (Ready (encodeRESPArray (words [''WAIT'', Itoa expected, Itoa timeout]) @ rest))"
    and "halted s = None" and "free_client e (Some n) (state s)"
    and "in_int64 expected" and "in_int64 timeout" and "words_fit [''WAIT'', Itoa expected, Itoa timeout]"
    and "off = masterOffset (state s)" and "off \<noteq> 0" and "expected \<noteq> 0"
    and "rs = replicas (state s)" and "ackCount off rs (state s) < expected"
  shows "\<exists>s1. step e (Serve n) s = Some s1 \<and>
    sent (state s1) = sent (state s) @ map (\<lambda>r. (r, encodeRESPArray (words getack))) rs \<and>
    (\<forall>s2. mget (clients s2) n = mget (clients s1) n \<and> halted s2 = None \<longrightarrow>
      step e (Deliver n) s2 =
        (if expected \<le> ackCount off rs (state s2) \<or> (0 < timeout \<and> clock s + timeout * 1000000 \<le> clock s2)
         then Some (s2\<lparr>state := only_replies (Some n) [writeInteger_bytes (ackCount off rs (state s2))] (state s2),
           clients := mput n (Ready rest) (clients s2)\<rparr>)
         else None) \<and>
      0 \<le> ackCount off rs (state s2) \<and> ackCount off rs (state s2) \<le> int (length rs))"
proof -
  let ?wt = "WaitAcks expected off rs (clock s) timeout"
  let ?s1 = "s\<lparr>state := ask_replicas (state s), clients := mput n (Blocked ?wt [] rest) (clients s)\<rparr>"
  have "handleCommand (at_time e s) (Some n) (words [''WAIT'', Itoa expected, Itoa timeout]) (state s) =
      (ask_replicas (state s), Waiting ?wt [])"
    using assms(3,7-11) WAIT_free [OF _ assms(4,5), of "at_time e s" n "state s"]
    by (simp add: free_client_def at_time_def)
  from serve_done [OF assms(1,2,6) this] have st: "step e (Serve n) s = Some ?s1" .
  show ?thesis
    using deliver_acks [of _ n expected off rs "clock s" timeout rest e] ackCount_bounds
    by (intro exI [of _ ?s1]) (simp add: st ask_replicas_def assms(10))
qed


section \<open>Offsets that run ahead\<close>

lemma ToUpper_REPLCONF_ACK: "ToUpper ''REPLCONF'' = ''REPLCONF''" "ToUpper ''ACK'' = ''ACK''"
  by (simp_all add: go_eval)

lemma ACK_free:
  "free_client e (Some n) w \<Longrightarrow> in_int64 off \<Longrightarrow>
     handleCommand e (Some n) (words [''REPLCONF'', ''ACK'', Itoa off]) w =
       finish (w\<lparr>replicaOffsets := mput (Some n) off (replicaOffsets w)\<rparr>)"
  using ToUpper_REPLCONF_ACK
  by (simp add: handleCommand_free [where cmd = "''REPLCONF''"] dispatch_def handlers_def
      handleREPLCONF_def atoi_value_def ParseInt_Itoa)

lemma SET_free:
  "client_ready e n w \<Longrightarrow>
     handleCommand e (Some n) (words [''SET'', k, v]) w =
       finish (only_replies (Some n) [writeOK_bytes] (propagate (words [''SET'', k, v]) (Set k (VStr v) w)))"
  by (simp add: client_ready_def handleCommand_free [where cmd = "''SET''"] go_eval dispatch_def
      handlers_def handleSET_def parseTTL_def persist_no_log replies_to_client Let_def)

lemma Set_more: "store.more (Set k v w) = store.more w" "same_rest w (Set k v w)"
  using exec_op_rest [of w "OpSet k v"] by (auto simp: same_rest_def)

lemma wrap64_small: "in_int64 x \<Longrightarrow> wrap64 x = x"
  by (simp add: wrap64_def in_int64_def min_int64_def max_int64_def)

lemma replica_two_getacks:
  assumes "in_int64 off" and "in_int64 (off + 74)" and "0 \<le> off"
  shows "replica_loop (Suc (length (stream_of [getack, getack]))) e m (stream_of [getack, getack]) off v =
    (writeArrayResponse m [''REPLCONF'', ''ACK'', Itoa (off + 37)]
      (writeArrayResponse m [''REPLCONF'', ''ACK'', Itoa off] v), off + 74, Replayed)"
proof -
  let ?L = "encodeRESPArray (words getack)"
  let ?v1 = "writeArrayResponse m [''REPLCONF'', ''ACK'', Itoa off] v"
  have w: "wrap64 (off + 37) = off + 37" "wrap64 (74 + off) = off + 74"
    using assms by (simp_all add: wrap64_small in_int64_def add.commute)
  have "replica_loop (Suc 74) e m (?L @ ?L @ []) off v = replica_loop (Suc 73) e m (?L @ []) (off + 37) ?v1"
    using replica_getack [of "?L @ []" 74 e m off v] by (simp add: w(1) length_getack del: replica_loop.simps)
  also have "\<dots> = replica_loop (Suc 72) e m [] (off + 74)
      (writeArrayResponse m [''REPLCONF'', ''ACK'', Itoa (off + 37)] ?v1)"
    using replica_getack [of "[]" 73 e m "off + 37" ?v1] by (simp add: w(2) length_getack del: replica_loop.simps)
  also have "\<dots> = (writeArrayResponse m [''REPLCONF'', ''ACK'', Itoa (off + 37)] ?v1, off + 74, Replayed)"
    by (simp only: replica_loop.simps(2)) (simp add: ParseRESP_def)
  finally show ?thesis by (simp add: length_getack)
qed

text \<open>
  C39: the offsets of master and replica drift apart. A replica counts the bytes of each
  \<open>REPLCONF GETACK\<close>, the master does not, so a replica that has answered two of them reports 37
  bytes more than the master has propagated. After that a \<open>WAIT\<close> behind a short \<open>SET\<close> is answered
  at once with 1, although the replica has confirmed nothing since the \<open>SET\<close> was written to it.
\<close>

theorem stale_acks_satisfy_wait:
  assumes "client_ready e n w" and "replicas w = [Some r]" and "free_client e (Some r) w"
    and "off = masterOffset w" and "0 < off" and "in_int64 (off + 74)"
    and "length (encodeRESPArray (words [''SET'', k, v])) \<le> 37" and "in_int64 timeout"
  shows "replica_loop (Suc (length (stream_of [getack, getack]))) e' m (stream_of [getack, getack]) off u =
      (writeArrayResponse m [''REPLCONF'', ''ACK'', Itoa (off + 37)]
        (writeArrayResponse m [''REPLCONF'', ''ACK'', Itoa off] u), off + 74, Replayed) \<and>
    (\<exists>w1 w2. handleCommand e (Some r) (words [''REPLCONF'', ''ACK'', Itoa (off + 37)]) w = (w1, Done) \<and>
      run_commands e (Some n) [[''SET'', k, v], [''WAIT'', ''1'', Itoa timeout]] w1 = (w2, Done) \<and>
      sent w2 = sent w @ [(Some r, encodeRESPArray (words [''SET'', k, v])), (Some n, writeOK_bytes),
        (Some r, encodeRESPArray (words getack)), (Some n, writeInteger_bytes 1)])"
proof -
  let ?len = "int (length (encodeRESPArray (words [''SET'', k, v])))"
  have i: "in_int64 off" "in_int64 (off + 37)" "in_int64 (off + ?len)"
    using assms(5-7) by (auto simp: in_int64_def min_int64_def)
  let ?w1 = "w\<lparr>replicaOffsets := mput (Some r) (off + 37) (replicaOffsets w)\<rparr>"
  have c1: "client_ready e n ?w1"
    using assms(1) by (simp add: client_ready_def free_client_def IsAuthenticated_def IsSubscribed_def IsInTx_def)
  let ?w2 = "only_replies (Some n) [writeOK_bytes] (propagate (words [''SET'', k, v]) (Set k (VStr v) ?w1))"
  have "client_ready e n ?w2"
    using client_ready_same [OF c1 same_access_store [OF Set_more(2)]] by simp
  then have f2: "free_client e (Some n) ?w2" by (simp only: client_ready_def)
  have more: "replicas (Set k (VStr v) ?w1) = [Some r]" "masterOffset (Set k (VStr v) ?w1) = off"
      "replicaOffsets (Set k (VStr v) ?w1) = replicaOffsets ?w1" "sent (Set k (VStr v) ?w1) = sent w"
    using Set_more(1) [of k "VStr v" ?w1] assms(2,4)
    by (cases w; cases "Set k (VStr v) ?w1"; simp)+
  have off2: "masterOffset ?w2 = off + ?len" "replicas ?w2 = [Some r]"
      "replicaOffsets ?w2 = replicaOffsets ?w1"
    using i(3) more by (simp_all add: only_replies_def propagate_def Let_def wrap64_small)
  have acks: "ackCount (off + ?len) [Some r] ?w2 = 1"
    using assms(7) by (simp add: ackCount_def off2(3))
  have one: "''1'' = Itoa 1" by (simp add: go_eval)
  have "handleCommand e (Some n) (words [''WAIT'', Itoa 1, Itoa timeout]) ?w2 =
      finish (only_replies (Some n) [writeInteger_bytes 1] (ask_replicas ?w2))"
    using WAIT_free [OF f2 _ assms(8), of 1] acks off2 assms(5)
    by (simp add: in_int64_def min_int64_def max_int64_def)
  with SET_free [OF c1, of k v]
  have "run_commands e (Some n) [[''SET'', k, v], [''WAIT'', ''1'', Itoa timeout]] ?w1 =
      (only_replies (Some n) [writeInteger_bytes 1] (ask_replicas ?w2), Done)"
    by (simp add: finish_def one)
  moreover have "sent (only_replies (Some n) [writeInteger_bytes 1] (ask_replicas ?w2)) =
      sent w @ [(Some r, encodeRESPArray (words [''SET'', k, v])), (Some n, writeOK_bytes),
        (Some r, encodeRESPArray (words getack)), (Some n, writeInteger_bytes 1)]"
    using more off2(2) by (simp add: only_replies_def propagate_def Let_def ask_replicas_def)
  ultimately show ?thesis
    using ACK_free [OF assms(3) i(2)] replica_two_getacks [OF i(1) assms(6), of e' m u] assms(5)
    by (auto simp: finish_def)
qed


section \<open>A master with one replica\<close>

definition master_world :: world where
  "master_world = (Authenticate (Some 9) client_world)\<lparr>replicas := [Some 9], masterOffset := 100\<rparr>"

lemma master_world_fields:
  "replicas master_world = [Some 9]" "masterOffset master_world = 100" "replicaOffsets master_world = []"
  "sent master_world = []" "free_client e (Some 7) master_world" "free_client e (Some 9) master_world"
  using free_client_world [of e]
  by (simp_all add: master_world_def free_client_def IsAuthenticated_def IsSubscribed_def IsInTx_def
      Authenticate_def client_world_fields mget_bool_def)
     (simp add: client_world_def empty_world_def initial_world_def Authenticate_def store.defs)

lemma Itoa_small: "Itoa 1 = ''1''" "Itoa 100 = ''100''" "Itoa 137 = ''137''"
  by (simp_all add: go_eval)

definition waiting_system :: system where
  "waiting_system = booted master_world 0
     \<lparr>clients := [(7, Ready (encodeRESPArray (words [''WAIT'', ''1'', ''100''])))]\<rparr>"

theorem wait_answered_witness:
  "\<exists>s1. step demo_env (Serve 7) waiting_system = Some s1 \<and>
     sent (state s1) = [(Some 9, encodeRESPArray (words getack))] \<and>
     step demo_env (Deliver 7) (waiting_system\<lparr>clients := clients s1\<rparr>) = None \<and>
     step demo_env (Deliver 7) (waiting_system\<lparr>clients := clients s1, clock := 100000000\<rparr>) \<noteq> None"
proof -
  have s: "state waiting_system = master_world" "clock waiting_system = 0" "halted waiting_system = None"
    by (simp_all add: booted_def waiting_system_def)
  have acks: "ackCount 100 [Some 9] master_world = 0" by (simp add: ackCount_def master_world_fields)
  have fit: "words_fit [''WAIT'', Itoa 1, Itoa 100]"
    by (simp add: Itoa_small words_fit_def max_int64_def max_alloc_def)
  have cl: "mget (clients waiting_system) 7 =
      Some (Ready (encodeRESPArray (words [''WAIT'', Itoa 1, Itoa 100]) @ []))"
    by (simp add: Itoa_small waiting_system_def)
  have small: "in_int64 1" "in_int64 100" by (simp_all add: in_int64_def min_int64_def max_int64_def)
  have "free_client demo_env (Some 7) (state waiting_system)" by (simp add: s master_world_fields)
  from wait_answered [OF cl s(3) this small fit refl _ _ refl] obtain s1 where
    s1: "step demo_env (Serve 7) waiting_system = Some s1"
      "sent (state s1) = [(Some 9, encodeRESPArray (words getack))]"
    and later: "\<forall>s2. mget (clients s2) 7 = mget (clients s1) 7 \<and> halted s2 = None \<longrightarrow>
      step demo_env (Deliver 7) s2 =
        (if 1 \<le> ackCount 100 [Some 9] (state s2) \<or> 0 < (100::int) \<and> 0 + 100 * 1000000 \<le> clock s2
         then Some (s2\<lparr>state := only_replies (Some 7) [writeInteger_bytes (ackCount 100 [Some 9] (state s2))] (state s2),
           clients := mput 7 (Ready []) (clients s2)\<rparr>)
         else None)"
    by (auto simp: s master_world_fields acks)
  from later [rule_format, of "waiting_system\<lparr>clients := clients s1\<rparr>"]
    later [rule_format, of "waiting_system\<lparr>clients := clients s1, clock := 100000000\<rparr>"] s1
  show ?thesis by (intro exI [of _ s1]) (simp add: s acks)
qed

theorem stale_acks_satisfy_wait_witness:
  "\<exists>w1 w2. handleCommand demo_env (Some 9) (words [''REPLCONF'', ''ACK'', ''137'']) master_world = (w1, Done) \<and>
     run_commands demo_env (Some 7) [[''SET'', ''a'', ''1''], [''WAIT'', ''1'', ''100'']] w1 = (w2, Done) \<and>
     sent w2 = [(Some 9, encodeRESPArray (words [''SET'', ''a'', ''1''])), (Some 7, writeOK_bytes),
       (Some 9, encodeRESPArray (words getack)), (Some 7, writeInteger_bytes 1)]"
proof -
  have "client_ready demo_env 7 master_world"
    by (simp add: client_ready_def master_world_fields demo_env_def default_config_def)
  moreover have "length (encodeRESPArray (words [''SET'', ''a'', ''1''])) \<le> 37"
    by (simp add: encodeRESPArray_def words_def array_header_def bulk_def go_eval)
  ultimately show ?thesis
    using stale_acks_satisfy_wait [of demo_env 7 master_world 9 100 "''a''" "''1''" 100]
    by (simp add: master_world_fields in_int64_def min_int64_def max_int64_def Itoa_small)
qed

end
