(* ===== verification/LockingFacts.thy ===== *)
theory LockingFacts
  imports WaitFacts
begin

text \<open>
  Optimistic locking for the server as a whole: the second interpretation of \<open>kept\<close>, for what a
  client that watches keys can rely on while other clients, goroutines and the clock go on, and
  while it opens a transaction and queues its commands itself.
\<close>

section \<open>What a watching client can rely on\<close>

text \<open>
  Since the world \<open>w0\<close> the client's watches are the same, and unless it is marked every key it
  watches reads the same at the time \<open>t\<close>.
\<close>

definition unseen :: "conn \<Rightarrow> int \<Rightarrow> world \<Rightarrow> world \<Rightarrow> bool" where
  "unseen me t w0 w \<longleftrightarrow> (\<forall>k. watches me k w = watches me k w0) \<and>
     (is_dirty me w \<or> (\<forall>k. watches me k w0 \<longrightarrow> live t w k = live t w0 k))"

text \<open>The invariant, for handlers that another client calls before the time \<open>t\<close>.\<close>

definition guarded :: "conn \<Rightarrow> int \<Rightarrow> world \<Rightarrow> env \<Rightarrow> conn \<Rightarrow> world \<Rightarrow> bool" where
  "guarded me t w0 e c w \<longleftrightarrow> wf_world w \<and> (c \<noteq> me \<and> now e \<le> t \<longrightarrow> unseen me t w0 w)"

lemma unseen_frame: "unseen me t w0 w \<Longrightarrow> same_keys w w' \<Longrightarrow> unseen me t w0 w'"
proof -
  assume u: "unseen me t w0 w" and k: "same_keys w w'"
  then have "live t w' k = live t w k" for k by (intro live_cong) (simp_all add: same_keys_def)
  with u k show ?thesis by (simp add: unseen_def same_keys_def watches_def is_dirty_def)
qed

lemma op_before_mono: "op_before t op \<Longrightarrow> t \<le> t' \<Longrightarrow> op_before t' op"
  by (cases op) auto

lemma unseen_exec:
  assumes "unseen me t w0 w" and "wf_values w" and "op_before t op"
  shows "unseen me t w0 (exec_op op w)"
  using assms exec_op_look [OF assms(2,3)] exec_op_dirty [of me op w] exec_op_watches [of me _ op w]
  unfolding unseen_def by metis

lemma unseen_watching:
  assumes "unseen me t w0 w" and "c \<noteq> me"
  shows "unseen me t w0 (Watch c keys w)"
    and "wf_map (watchedKeys w) \<Longrightarrow> unseen me t w0 (Unwatch c w)"
proof -
  have "live t (Watch c keys w) k = live t w k" for k by (rule live_cong) (simp_all add: frame_simps)
  with assms show "unseen me t w0 (Watch c keys w)"
    by (simp add: unseen_def watches_Watch is_dirty_def frame_simps)
  have "live t (Unwatch c w) k = live t w k" for k by (rule live_cong) (simp_all add: Unwatch_def)
  with assms show "wf_map (watchedKeys w) \<Longrightarrow> unseen me t w0 (Unwatch c w)"
    by (simp add: unseen_def watches_Unwatch is_dirty_Unwatch)
qed

interpretation lock: kept "guarded me t w0 e c" e c for me t w0 e c
proof
  fix w w' op keys
  show "guarded me t w0 e c w \<Longrightarrow> wf_world w" by (simp add: guarded_def)
  show "guarded me t w0 e c w \<Longrightarrow> wf_world w' \<Longrightarrow> same_keys w w' \<Longrightarrow> guarded me t w0 e c w'"
    by (auto simp: guarded_def intro: unseen_frame)
  show "guarded me t w0 e c w \<Longrightarrow> op_before (now e) op \<Longrightarrow> guarded me t w0 e c (exec_op op w)"
    using wf_world_exec [of w "now e" op] unseen_exec [of me t w0 w op] op_before_mono [of "now e" op t]
    by (auto simp: guarded_def wf_world_def)
  show "guarded me t w0 e c w \<Longrightarrow> guarded me t w0 e c (Watch c keys w)"
    "guarded me t w0 e c w \<Longrightarrow> guarded me t w0 e c (Unwatch c w)"
    by (auto simp: guarded_def keeps unseen_watching wf_world_def [of w])
qed

lemma unseen_step:
  assumes "good (\<lambda>w. wf_world w \<and> unseen (Some n) t w0 w) s" and "step e ev s = Some s'"
    and "actor ev \<noteq> Some n" and "clock s < t"
  shows "good (\<lambda>w. wf_world w \<and> unseen (Some n) t w0 w) s'"
proof (rule good_step [OF assms(1,2)])
  have "(\<lambda>w. wf_world w \<and> unseen (Some n) t w0 w) = guarded (Some n) t w0 (at_time e s) (Some m)"
    if "m \<noteq> n" for m
    using that assms(4) by (simp add: guarded_def at_time_def fun_eq_iff)
  then show "kept (\<lambda>w. wf_world w \<and> unseen (Some n) t w0 w) (at_time e s) (Some m)"
    if "actor ev = Some m" for m
    using that assms(3) lock.kept_axioms by auto
  have "(\<lambda>w. wf_world w \<and> unseen (Some n) t w0 w) = guarded (Some n) t w0 (e\<lparr>now := clock s + 1\<rparr>) None"
    using assms(4) by (simp add: guarded_def fun_eq_iff)
  then show "kept (\<lambda>w. wf_world w \<and> unseen (Some n) t w0 w) (e\<lparr>now := clock s + 1\<rparr>) None"
    using lock.kept_axioms by simp
qed

section \<open>The client's own turns\<close>

text \<open>The command a client sends next.\<close>

definition next_command :: "nat \<Rightarrow> system \<Rightarrow> resp list option" where
  "next_command n s =
     (case mget (clients s) n of
        Some (Ready inp) \<Rightarrow> (case ParseRESP inp of POk v rest \<Rightarrow> command_of v | _ \<Rightarrow> None)
      | _ \<Rightarrow> None)"

text \<open>Opening a transaction or adding to it.\<close>

definition builds :: "nat \<Rightarrow> system \<Rightarrow> bool" where
  "builds n s \<longleftrightarrow> (case next_command n s of
     None \<Rightarrow> False
   | Some arr \<Rightarrow> command_name arr = Some ''MULTI'' \<or> (IsInTx (Some n) (state s) \<and> queue_ok arr))"

lemma let_in_access [simp]: "IsInTx c (let_in e c' w) = IsInTx c w"
  by (simp add: let_in_def Authenticate_def IsInTx_def)

lemma same_keys_let_in: "same_keys w (let_in e c w)"
  by (simp add: let_in_def same_keys_simps)

lemma MULTI_same_keys: "same_keys w (fst (handleMULTI c arr w))"
  using same_keys_ops(20) [of w c]
  by (cases "StartTx c w")
     (auto simp: handleMULTI_def and_then_def remote_addr_def finish_def writeOK_def writeErr_def reply_def
       same_keys_simps)

lemma builds_same_keys:
  assumes "command_name arr = Some ''MULTI'' \<or> (IsInTx (Some n) w \<and> queue_ok arr)"
  shows "same_keys w (fst (handleCommand e (Some n) arr w))"
proof -
  let ?w = "let_in e (Some n) w"
  have "same_keys ?w (fst (handleCommand e (Some n) arr w))"
    using assms MULTI_same_keys [of ?w]
    by (auto simp: handleCommand_with handle_with_def Let_def queue_ok_def finish_def conn_write_def
        writeErr_def reply_def same_keys_simps tx_commands_def dispatch_def handlers_def
        split: option.splits)
  with same_keys_let_in show ?thesis by (rule same_keys_trans)
qed

lemma serve_state:
  assumes "next_command n s = Some arr" and "step e (Serve n) s = Some s'"
  shows "state s' = fst (handleCommand (at_time e s) (Some n) arr (state s))"
proof -
  from assms(1) obtain inp v rest where "mget (clients s) n = Some (Ready inp)"
    "ParseRESP inp = POk v rest" "command_of v = Some arr"
    by (auto simp: next_command_def split: option.splits client.splits pres.splits)
  with assms(2) show ?thesis
    by (cases "handleCommand (at_time e s) (Some n) arr (state s)")
       (auto simp: step_def Let_def serve_def connection_turn_def settle_def split: signal.splits if_splits)
qed

text \<open>
  The client builds its transaction, while everybody else does as they please: any sequence of
  steps of which the client's own ones open the transaction or queue a command.
\<close>

inductive building :: "env \<Rightarrow> nat \<Rightarrow> system \<Rightarrow> system \<Rightarrow> bool" for e :: env and n :: nat and s0 :: system where
  start: "building e n s0 s0"
| others: "building e n s0 s \<Longrightarrow> step e ev s = Some s' \<Longrightarrow> actor ev \<noteq> Some n \<Longrightarrow> building e n s0 s'"
| own: "building e n s0 s \<Longrightarrow> builds n s \<Longrightarrow> step e (Serve n) s = Some s' \<Longrightarrow> building e n s0 s'"

lemma step_clock: "step e ev s = Some s' \<Longrightarrow> clock s \<le> clock s'"
  by (cases ev)
     (auto simp: step_def Let_def serve_def settle_def resume_def split: if_splits option.splits
       client.splits prod.splits turn.splits signal.splits)

lemma building_unseen:
  "building e n s0 s \<Longrightarrow> wf_system s0 \<Longrightarrow> clock s < t \<Longrightarrow>
     wf_system s \<and> unseen (Some n) t (state s0) (state s)"
proof (induction rule: building.induct)
  case start
  then show ?case by (simp add: unseen_def)
next
  case (others s ev s')
  then have "wf_system s" "unseen (Some n) t (state s0) (state s)" "clock s < t"
    using step_clock [OF others.hyps(2)] by auto
  then have "good (\<lambda>w. wf_world w \<and> unseen (Some n) t (state s0) w) s" by (simp add: good_def)
  from unseen_step [OF this others.hyps(2,3) \<open>clock s < t\<close>] show ?case by (simp add: good_def)
next
  case (own s s')
  then have s: "wf_system s" "unseen (Some n) t (state s0) (state s)"
    using step_clock [OF own.hyps(3)] by auto
  from own.hyps(2) obtain arr where arr: "next_command n s = Some arr"
    "command_name arr = Some ''MULTI'' \<or> (IsInTx (Some n) (state s) \<and> queue_ok arr)"
    by (auto simp: builds_def split: option.splits)
  from unseen_frame [OF s(2) builds_same_keys [OF arr(2)]] wf_step [OF s(1) own.hyps(3)]
  show ?case by (simp add: serve_state [OF arr(1) own.hyps(3)])
qed

section \<open>Properties\<close>


definition locking_system :: "string \<Rightarrow> system" where
  "locking_system j = \<lparr>state = Watch (Some 7) [''k''] (Authenticate (Some 1) client_world),
     clients = [(7, Ready (stream_of [[''MULTI''], [''GET'', ''k'']])),
       (1, Ready (stream_of [[''SET'', j, ''x'']]))], clock = 0, halted = None\<rparr>"

lemma serve_words:
  assumes "mget (clients s) n = Some (Ready (encodeRESPArray (words ws) @ rest))" and "halted s = None"
    and "words_fit ws" and "handleCommand (at_time e s) (Some n) (words ws) (state s) = finish w1"
  shows "step e (Serve n) s = Some (s\<lparr>state := w1, clients := mput n (Ready rest) (clients s)\<rparr>)"
    and "next_command n s = Some (words ws)"
proof -
  show "step e (Serve n) s = Some (s\<lparr>state := w1, clients := mput n (Ready rest) (clients s)\<rparr>)"
    using assms(1,2,4) turn_words [OF assms(3), of "at_time e s" "Some n" rest "state s"]
    by (simp add: step_def Let_def serve_def settle_def finish_def)
  have "ws \<noteq> []" using assms(3) by (simp add: words_fit_def)
  with assms(1) parse_words [OF assms(3), of rest] show "next_command n s = Some (words ws)"
    by (simp add: next_command_def command_of_words)
qed

lemma locking_fields:
  "transactions (state (locking_system j)) = []" "clientSubscriptions (state (locking_system j)) = []"
  "watchedKeys (state (locking_system j)) = [(''k'', [Some 7])]"
  "dirtyClients (state (locking_system j)) = []" "replicas (state (locking_system j)) = []"
  "authenticatedClients (state (locking_system j)) = [(Some 7, True), (Some 1, True)]"
  "cache (state (locking_system j)) = []" "clock (locking_system j) = 0" "halted (locking_system j) = None"
  by (simp_all add: locking_system_def Watch_def watch_key_def Authenticate_def client_world_fields
      mget_list_def sadd_def)

lemma locking_run:
  assumes "j \<in> {''j'', ''k''}"
  shows "\<exists>s. building demo_env 7 (locking_system j) s \<and> clock s = 0 \<and>
    IsAuthenticated (Some 7) (state s) \<and> \<not> IsSubscribed (Some 7) (state s) \<and>
    mget (transactions (state s)) (Some 7) = Some [words [''GET'', ''k'']] \<and>
    IsDirty (Some 7) (state s) = (j = ''k'')"
proof -
  let ?s0 = "locking_system j"
  let ?w0 = "state ?s0"
  let ?w1 = "only_replies (Some 7) [writeOK_bytes] (?w0\<lparr>transactions := [(Some 7, [])]\<rparr>)"
  let ?w2 = "only_replies (Some 1) [writeOK_bytes] (propagate (words [''SET'', j, ''x'']) (Set j (VStr ''x'') ?w1))"
  let ?w3 = "only_replies (Some 7) [queued_reply]
    (?w2\<lparr>transactions := mput (Some 7) [words [''GET'', ''k'']] (transactions ?w2)\<rparr>)"
  have fit: "words_fit [''MULTI'']" "words_fit [''GET'', ''k'']" "words_fit [''SET'', j, ''x'']"
    using assms by (auto simp: words_fit_def max_int64_def max_alloc_def)
  have f0: "free_client e (Some 7) ?w0" for e
    by (simp add: free_client_def IsAuthenticated_def IsSubscribed_def IsInTx_def locking_fields mget_bool_def)
  have c1: "client_ready (at_time demo_env s) 1 ?w1" for s
    by (simp add: client_ready_def free_client_def IsAuthenticated_def IsSubscribed_def IsInTx_def
        locking_fields mget_bool_def only_replies_def at_time_def demo_env_def default_config_def)
  have multi: "handleCommand e (Some 7) (words [''MULTI'']) ?w0 = finish ?w1" for e
    using MULTI_free [OF f0, of e] by (simp add: words_def locking_fields)
  have acc: "IsAuthenticated (Some 7) ?w2" "\<not> IsSubscribed (Some 7) ?w2"
      "transactions ?w2 = [(Some 7, [])]" "dirtyClients ?w2 = (if j = ''k'' then [(Some 7, True)] else [])"
    using assms
    by (auto simp: IsAuthenticated_def IsSubscribed_def only_replies_def propagate_def Let_def Set_def
        markDirty_def mark_all_def locking_fields mget_bool_def)
  have queue: "handleCommand e (Some 7) (words [''GET'', ''k'']) ?w2 = finish ?w3" for e
    using queue_one [OF acc(1,2), of "[]" "words [''GET'', ''k'']" e] acc(3)
    by (simp add: queue_ok_def tx_commands_def go_eval)
  let ?s1 = "?s0\<lparr>state := ?w1, clients := mput 7 (Ready (stream_of [[''GET'', ''k'']])) (clients ?s0)\<rparr>"
  let ?s2 = "?s1\<lparr>state := ?w2, clients := mput 1 (Ready []) (clients ?s1)\<rparr>"
  let ?s3 = "?s2\<lparr>state := ?w3, clients := mput 7 (Ready []) (clients ?s2)\<rparr>"
  have cl: "mget (clients ?s0) 7 = Some (Ready (encodeRESPArray (words [''MULTI'']) @ stream_of [[''GET'', ''k'']]))"
      "mget (clients ?s1) 1 = Some (Ready (encodeRESPArray (words [''SET'', j, ''x'']) @ []))"
      "mget (clients ?s2) 7 = Some (Ready (encodeRESPArray (words [''GET'', ''k'']) @ []))"
    by (simp_all add: locking_system_def)
  have "step demo_env (Serve 7) ?s0 = Some ?s1" "builds 7 ?s0"
    using serve_words [OF cl(1) _ fit(1) multi] by (simp_all add: locking_fields builds_def go_eval)
  then have 1: "building demo_env 7 ?s0 ?s1" using building.start building.own by blast
  have "step demo_env (Serve 1) ?s1 = Some ?s2"
    using serve_words(1) [OF cl(2) _ fit(3)] SET_free [OF c1, of ?s1 j "''x''"] by (simp add: locking_fields)
  with 1 have 2: "building demo_env 7 ?s0 ?s2" by (rule building.others) simp
  have "step demo_env (Serve 7) ?s2 = Some ?s3" "builds 7 ?s2"
    using serve_words [OF cl(3) _ fit(2), of demo_env ?w3] queue acc(3)
    by (simp_all add: locking_fields builds_def go_eval queue_ok_def tx_commands_def IsInTx_def)
  with 2 have "building demo_env 7 ?s0 ?s3" by (blast intro: building.own)
  then show ?thesis
    using acc by (intro exI [of _ ?s3])
      (simp add: locking_fields IsAuthenticated_def IsSubscribed_def IsDirty_def only_replies_def mget_bool_def)
qed


end
