(* ===== verification/StreamBlockingFacts.thy ===== *)
theory StreamBlockingFacts
  imports LockingFacts
begin

text \<open>
  Blocking reads of streams, and what happens when they meet the readers of lists: both kinds wait
  in the same queue of the key, and neither side looks at what the other waits for.
\<close>

section \<open>The reader parks\<close>

definition xread_words :: "string \<Rightarrow> int \<Rightarrow> string \<Rightarrow> string list" where
  "xread_words k tmo rawId = [''XREAD'', ''BLOCK'', Itoa tmo, ''STREAMS'', k, rawId]"

lemma xread_words_args:
  "in_int64 tmo \<Longrightarrow> xread_args (words (xread_words k tmo rawId)) = Inr (Some tmo, [k], [rawId])"
proof -
  assume t: "in_int64 tmo"
  have i: "asString (words (xread_words k tmo rawId) ! 1) = (''BLOCK'', True)"
      "asString (words (xread_words k tmo rawId) ! 2) = (Itoa tmo, True)"
      "asString (words (xread_words k tmo rawId) ! 3) = (''STREAMS'', True)"
    by (simp_all add: xread_words_def words_def asString_def)
  have up: "ToUpper ''BLOCK'' = ''BLOCK''" "ToUpper ''STREAMS'' = ''STREAMS''" by (simp_all add: go_eval)
  have l: "length (words (xread_words k tmo rawId)) = 6" "drop (Suc 3) (words (xread_words k tmo rawId)) = [RStr k, RStr rawId]"
    by (simp_all add: xread_words_def words_def)
  show ?thesis
    using t up unfolding xread_args_def streams_from_def i l
    by (simp add: ParseInt_Itoa split_streams_def asString_def)
qed

lemma CleanUp_same_store: "cache (clean_up_reader ks ch w) = cache w"
  by (induction ks arbitrary: w) (simp_all add: clean_up_reader_def CleanUpExpiredKeyWaiter_def Let_def split: option.split)

lemma XRead_loop_cong:
  assumes "cache s' = cache s"
  shows "XRead_loop ps r s' = XRead_loop ps r s"
proof -
  have "stream_entries k s' = stream_entries k s" for k by (simp only: stream_entries_def assms)
  then show ?thesis by (induction ps arbitrary: r) (auto split: sum.split)
qed

lemma XRead_cong: "cache s' = cache s \<Longrightarrow> XRead keys ids s' = XRead keys ids s"
  by (simp only: XRead_def XRead_loop_cong [of s' s])

lemma handle_XREAD_block:
  assumes "free_client e (Some a) w" and "in_int64 tmo" and "ids = idsToUse [k] [rawId] w"
    and "XRead [k] ids w = Inr [(k, [])]"
  shows "\<exists>dl. handleCommand e (Some a) (words (xread_words k tmo rawId)) w =
    (add_waiter k (next_chan w) (w\<lparr>next_chan := next_chan w + 1\<rparr>),
     Waiting (WaitStream [k] ids (next_chan w) dl) [])"
proof -
  let ?w1 = "add_waiter k (next_chan w) (w\<lparr>next_chan := next_chan w + 1\<rparr>)"
  have "XRead [k] ids ?w1 = Inr [(k, [])]"
    using assms(4) XRead_cong [of ?w1 w] by (simp add: add_waiter_def)
  then have "\<exists>dl. handleXREAD e (Some a) (words (xread_words k tmo rawId)) w =
      (?w1, Waiting (WaitStream [k] ids (next_chan w) dl) [])"
    by (simp add: handleXREAD_def xread_words_args [OF assms(2)] xread_block_def register_reader_def Let_def
        mget_list_def flip: assms(3))
  then show ?thesis
    using assms(1) by (simp add: handleCommand_free [where cmd = "''XREAD''"] xread_words_def go_eval
        dispatch_def handlers_def)
qed


section \<open>An entry wakes it\<close>

text \<open>The answer of \<open>XREAD\<close> for one key, in the pieces it is written in.\<close>

definition xread_answer :: "string \<Rightarrow> stream_entry list \<Rightarrow> string list" where
  "xread_answer k entries =
     [array_header 1, ''*2'' @ crlf, bulk k, array_header (length entries)] @
     concat (map (\<lambda>en. [''*2'' @ crlf, bulk (entryID en), writeArrayResponse_bytes (entryFields en)]) entries)"

lemma write_entries_client:
  "write_entries (Some a) entries w = finish (only_replies (Some a)
     (concat (map (\<lambda>en. [''*2'' @ crlf, bulk (entryID en), writeArrayResponse_bytes (entryFields en)]) entries)) w)"
  by (induction entries arbitrary: w)
     (simp_all add: conn_write_client replies_to_client and_then_def finish_def writeBulkString_bytes_def)

lemma write_xread_client:
  "write_xread (Some a) [k] [(k, entries)] w = finish (only_replies (Some a) (xread_answer k entries) w)"
  by (simp add: write_xread_def conn_write_client replies_to_client and_then_def finish_def mget_list_def
      write_entries_client xread_answer_def writeBulkString_bytes_def)

lemma deliver_stream:
  assumes "mget (clients s) a = Some (Blocked (WaitStream [k] ids ch dl) [] rest)" and "halted s = None"
    and "mget (chans (state s)) ch = Some v"
    and "XRead [k] ids (state s) = Inr [(k, entries)]"
  shows "step e (Deliver a) s = Some (s\<lparr>
    state := only_replies (Some a) (xread_answer k entries)
      (CleanUpExpiredKeyWaiter k ch ((state s)\<lparr>chans := mdel ch (chans (state s))\<rparr>)),
    clients := mput a (Ready rest) (clients s)\<rparr>)"
proof -
  let ?w = "clean_up_reader [k] ch ((state s)\<lparr>chans := mdel ch (chans (state s))\<rparr>)"
  have "XRead [k] ids ?w = Inr [(k, entries)]"
    using assms(4) XRead_cong [of ?w "state s"] by (simp add: CleanUp_same_store)
  then have "woken (at_time e s) (Some a) (WaitStream [k] ids ch dl) (state s) =
      Some (finish (only_replies (Some a) (xread_answer k entries) ?w))"
    using assms(3) by (simp add: woken_def take_value_def XREAD_wake_def write_xread_client Let_def)
  then show ?thesis
    using assms(1,2)
    by (simp add: step_def Let_def resume_def finish_def and_then_def continue_exec_def settle_def
        clean_up_reader_def)
qed

lemma handle_XADD:
  assumes "free_client e (Some n) w" and "mget (expiry w) k = None"
    and "mget (cache w) k = None \<or> (\<exists>es. mget (cache w) k = Some (VStream es))"
    and "fs \<noteq> []" and "even (length fs)" and "XAdd (now e) k sid fs w = (w1, Inr newID)"
  shows "handleCommand e (Some n) (words (''XADD'' # k # sid # fs)) w =
    finish (only_replies (Some n) [writeBulkString_bytes newID] w1)"
proof -
  have l: "length (words (''XADD'' # k # sid # fs)) = length fs + 3" by simp
  have "2 \<le> length fs" using assms(4,5) by (cases fs rule: list.exhaust; cases "tl fs") auto
  then have "handleXADD e (Some n) (words (''XADD'' # k # sid # fs)) w =
      finish (only_replies (Some n) [writeBulkString_bytes newID] w1)"
    using assms(3,5) unfolding handleXADD_def l
    by (auto simp: Get_no_expiry [OF assms(2)] assms(6) replies_to_client Let_def)
  then show ?thesis
    by (simp add: handleCommand_free [OF assms(1), where cmd = "''XADD''"] go_eval dispatch_def handlers_def)
qed


lemma XAdd_rest: "same_rest w (fst (XAdd t k sid fs w))"
  using exec_op_rest [of w "OpXAdd t k sid fs"] by simp

lemma more_same: "store.more w1 = store.more w \<Longrightarrow>
    sent w1 = sent w \<and> chans w1 = chans w \<and> next_chan w1 = next_chan w \<and> replicas w1 = replicas w"
  by (cases w; cases w1) simp

lemma XAdd_result_cong: "cache w' = cache w \<Longrightarrow> snd (XAdd t k sid fs w') = snd (XAdd t k sid fs w)"
proof -
  assume "cache w' = cache w"
  then have "stream_entries k w' = stream_entries k w" by (simp only: stream_entries_def)
  then show ?thesis by (simp add: XAdd_def Let_def split: sum.split)
qed

lemma free_client_same: "same_access w w' \<Longrightarrow> free_client e c w' = free_client e c w"
  by (simp add: same_access_def free_client_def IsAuthenticated_def IsSubscribed_def IsInTx_def)

lemma serve_XREAD:
  assumes "mget (clients s) a = Some (Ready (encodeRESPArray (words (xread_words k tmo rawId)) @ rest))"
    and "halted s = None" and "free_client e (Some a) (state s)" and "in_int64 tmo"
    and "words_fit (xread_words k tmo rawId)" and "ids = idsToUse [k] [rawId] (state s)"
    and "XRead [k] ids (state s) = Inr [(k, [])]"
  shows "\<exists>dl. step e (Serve a) s = Some (s\<lparr>
    state := add_waiter k (next_chan (state s)) ((state s)\<lparr>next_chan := next_chan (state s) + 1\<rparr>),
    clients := mput a (Blocked (WaitStream [k] ids (next_chan (state s)) dl) [] rest) (clients s)\<rparr>)"
proof -
  have "free_client (at_time e s) (Some a) (state s)" using assms(3) by simp
  from handle_XREAD_block [OF this assms(4,6,7)] serve_done [OF assms(1,2,5)] show ?thesis by blast
qed

lemma CleanUp_outer:
  "cache (CleanUpExpiredKeyWaiter k ch w) = cache w" "sent (CleanUpExpiredKeyWaiter k ch w) = sent w"
  by (simp_all add: CleanUpExpiredKeyWaiter_def Let_def split: option.split)

lemma queue_at_outer2:
  "queue_at (w\<lparr>sent := x1\<rparr>) = queue_at w" "queue_at (w\<lparr>spawned := x2\<rparr>) = queue_at w"
  "queue_at (w\<lparr>next_chan := x3\<rparr>) = queue_at w" for w :: world
  by (simp_all add: queue_at_def fun_eq_iff)

lemma run_SendTo:
  assumes "i < length (spawned (state s))" and "spawned (state s) ! i = SendTo ch v" and "halted s = None"
    and "mget (chans (state s)) ch = None"
  shows "step e (Run i) s = Some (s\<lparr>state := (state s)
    \<lparr>spawned := take i (spawned (state s)) @ drop (Suc i) (spawned (state s)),
     chans := mput ch v (chans (state s))\<rparr>\<rparr>)"
  using assms by (simp add: step_def Let_def run_spawned_def run_goroutine_def)

lemma same_access_add_waiter:
  "same_access w (add_waiter k ch (w\<lparr>next_chan := m\<rparr>))" "cache (add_waiter k ch (w\<lparr>next_chan := m\<rparr>)) = cache w"
  "expiry (add_waiter k ch (w\<lparr>next_chan := m\<rparr>)) = expiry w" "sent (add_waiter k ch (w\<lparr>next_chan := m\<rparr>)) = sent w"
  "chans (add_waiter k ch (w\<lparr>next_chan := m\<rparr>)) = chans w" "spawned (add_waiter k ch (w\<lparr>next_chan := m\<rparr>)) = spawned w"
  "replicas (add_waiter k ch (w\<lparr>next_chan := m\<rparr>)) = replicas w"
  "queue_at (add_waiter k ch (w\<lparr>next_chan := m\<rparr>)) = (queue_at w)(k := queue_at w k @ [ch])"
  by (simp_all add: add_waiter_def same_access_def) (simp add: queue_at_def fun_eq_iff)

text \<open>
  A writer appends while channels wait: the turn of the writer, then the goroutine of the first
  of them, at whose end the ID is on its channel.
\<close>

lemma serve_XADD_and_send:
  assumes "mget (clients s) n = Some (Ready (encodeRESPArray (words (''XADD'' # k # sid # fs)) @ rest))"
    and "halted s = None" and "free_client e (Some n) (state s)" and "mget (expiry (state s)) k = None"
    and "mget (cache (state s)) k = None \<or> (\<exists>es. mget (cache (state s)) k = Some (VStream es))"
    and "fs \<noteq> []" and "even (length fs)" and "words_fit (''XADD'' # k # sid # fs)"
    and "snd (XAdd (clock s) k sid fs (state s)) = Inr newID"
    and "queue_at (state s) k = [ch]" and "mget (chans (state s)) ch = None"
    and w2: "w2 = fst (XAdd (clock s) k sid fs (state s))"
  shows "run_events e [Serve n, Run (length (spawned (state s)))] s = Some (s\<lparr>
    state := (only_replies (Some n) [writeBulkString_bytes newID] w2)
      \<lparr>spawned := spawned (state s), chans := mput ch newID (chans (state s))\<rparr>,
    clients := mput n (Ready rest) (clients s)\<rparr>)"
proof -
  have add: "XAdd (clock s) k sid fs (state s) = (w2, Inr newID)"
    using assms(9) by (simp add: w2 prod_eq_iff)
  have "free_client (at_time e s) (Some n) (state s)" using assms(3) by simp
  from handle_XADD [OF this assms(4-7), of sid w2 newID] add
  have h: "handleCommand (at_time e s) (Some n) (words (''XADD'' # k # sid # fs)) (state s) =
      finish (only_replies (Some n) [writeBulkString_bytes newID] w2)" by (simp add: at_time_def)
  have more: "chans w2 = chans (state s)"
    using XAdd_rest [of "state s" "clock s" k sid fs] more_same [of w2 "state s"] by (simp add: same_rest_def w2)
  let ?s1 = "s\<lparr>state := only_replies (Some n) [writeBulkString_bytes newID] w2,
    clients := mput n (Ready rest) (clients s)\<rparr>"
  have sp: "spawned (state ?s1) = spawned (state s) @ [SendTo ch newID]" "chans (state ?s1) = chans (state s)"
    using XAdd_notifies [OF add] assms(10) more by (simp_all add: only_replies_def)
  have "step e (Run (length (spawned (state s)))) ?s1 = Some (?s1\<lparr>state := (state ?s1)
      \<lparr>spawned := spawned (state s), chans := mput ch newID (chans (state s))\<rparr>\<rparr>)"
    using run_SendTo [of "length (spawned (state s))" ?s1 ch newID e] sp assms(2,11) by simp
  with serve_words(1) [OF assms(1,2,8) h] show ?thesis by simp
qed


text \<open>The other way round: an ID that is appended while a \<open>BLPOP\<close> waits is popped as a value.\<close>

lemma BLPOP_gets_stream_id:
  assumes "mget (clients s) a = Some (Ready (blpop_bytes k t @ ra))"
    and "mget (clients s) n = Some (Ready (encodeRESPArray (words (''XADD'' # k # sid # fs)) @ rn))"
    and "a \<noteq> n" and "halted s = None"
    and "free_client e (Some a) (state s)" and "free_client e (Some n) (state s)"
    and "ParseFloat t = Some x" and "words_fit [''BLPOP'', k, t]" and "words_fit (''XADD'' # k # sid # fs)"
    and "fs \<noteq> []" and "even (length fs)"
    and "mget (cache (state s)) k = None" and "mget (expiry (state s)) k = None"
    and "queue_at (state s) k = []" and "mget (chans (state s)) (next_chan (state s)) = None"
    and "snd (XAdd (clock s) k sid fs (state s)) = Inr newID"
  shows "\<exists>s'. run_events e [Serve a, Serve n, Run (length (spawned (state s))), Deliver a] s = Some s' \<and>
    sent (state s') = sent (state s) @
      [(Some n, writeBulkString_bytes newID), (Some a, writeArrayResponse_bytes [k, newID])]"
proof -
  let ?ch = "next_chan (state s)"
  have "pop_front k (state s) = None" using assms(12) by (simp add: pop_front_def)
  from serve_BLPOP [OF assms(1,4,5,7) this assms(8)] obtain dl where
    st1: "step e (Serve a) s = Some (s\<lparr>
      state := add_waiter k ?ch ((state s)\<lparr>next_chan := ?ch + 1\<rparr>),
      clients := mput a (Blocked (WaitPop k ?ch dl) [] ra) (clients s)\<rparr>)" (is "_ = Some ?s1")
    by blast
  have s1: "cache (state ?s1) = cache (state s)" "expiry (state ?s1) = expiry (state s)"
      "sent (state ?s1) = sent (state s)" "chans (state ?s1) = chans (state s)"
      "spawned (state ?s1) = spawned (state s)" "queue_at (state ?s1) k = [?ch]" "clock ?s1 = clock s"
    using assms(14) by (simp_all add: same_access_add_waiter)
  define w2 where "w2 = fst (XAdd (clock ?s1) k sid fs (state ?s1))"
  have new: "snd (XAdd (clock ?s1) k sid fs (state ?s1)) = Inr newID"
    using XAdd_result_cong [OF s1(1)] assms(16) by simp
  have "run_events e [Serve n, Run (length (spawned (state ?s1)))] ?s1 = Some (?s1\<lparr>
    state := (only_replies (Some n) [writeBulkString_bytes newID] w2)
      \<lparr>spawned := spawned (state ?s1), chans := mput ?ch newID (chans (state ?s1))\<rparr>,
    clients := mput n (Ready rn) (clients ?s1)\<rparr>)" (is "_ = Some ?s3")
    using assms(2,3,4,6,9-13,15) new s1 free_client_same [OF same_access_add_waiter(1)]
    by (intro serve_XADD_and_send [OF _ _ _ _ _ _ _ _ _ _ _ w2_def]) (simp_all del: queue_at_outer)
  then have st3: "run_events e [Serve n, Run (length (spawned (state s)))] ?s1 = Some ?s3" by (simp only: s1(5))
  have more: "sent w2 = sent (state s)"
    using XAdd_rest [of "state ?s1" "clock ?s1" k sid fs] more_same [of w2 "state ?s1"] s1(3)
    by (simp add: same_rest_def w2_def)
  from deliver_one [of ?s3 a k ?ch dl ra newID e] assms(3,4) obtain s4 where
    "run_events e [Deliver a] ?s3 = Some s4"
    "sent (state s4) = sent (state ?s3) @ [(Some a, writeArrayResponse_bytes [k, newID])]"
    by auto
  moreover have "run_events e [Serve a] s = Some ?s1" using st1 by simp
  ultimately show ?thesis
    using run_events_then [OF _ run_events_then [OF st3]] more
    by (intro exI [of _ s4]) (fastforce simp: only_replies_def)
qed

section \<open>Properties\<close>

text \<open>
  C20: a blocked reader of a stream gets the next entry. A client sends \<open>XREAD BLOCK\<close> with the ID
  \<open>$\<close> on a stream and waits; another appends an entry and is answered with its ID; once the
  goroutine started for the reader's channel has run, the reader is woken and answered with
  exactly the new entry, and its channel is no longer registered.
\<close>

theorem stream_reader_woken:
  assumes "mget (clients s) a = Some (Ready (encodeRESPArray (words (xread_words k tmo ''$'')) @ ra))"
    and "mget (clients s) n = Some (Ready (encodeRESPArray (words (''XADD'' # k # sid # fs)) @ rn))"
    and "a \<noteq> n" and "halted s = None"
    and "free_client e (Some a) (state s)" and "free_client e (Some n) (state s)"
    and "in_int64 tmo" and "words_fit (xread_words k tmo ''$'')" and "words_fit (''XADD'' # k # sid # fs)"
    and "fs \<noteq> []" and "even (length fs)"
    and "mget (cache (state s)) k = Some (VStream es)" and "wf_stream es" and "es \<noteq> []" and "\<not> seq_exhausted es"
    and "mget (expiry (state s)) k = None" and "queue_at (state s) k = []"
    and "mget (chans (state s)) (next_chan (state s)) = None"
    and "0 \<le> clock s" and "clock s \<le> max_int64"
    and "snd (XAdd (clock s) k sid fs (state s)) = Inr newID"
    and "entry = \<lparr>entryID = newID, entryFields = fs\<rparr>"
  shows "\<exists>s'. run_events e [Serve a, Serve n, Run (length (spawned (state s))), Deliver a] s = Some s' \<and>
    sent (state s') = sent (state s) @
      (Some n, writeBulkString_bytes newID) # map (Pair (Some a)) (xread_answer k [entry]) \<and>
    mget (clients s') a = Some (Ready ra) \<and> mget (clients s') n = Some (Ready rn) \<and>
    mget (cache (state s')) k = Some (VStream (es @ [entry])) \<and> queue_at (state s') k = []"
proof -
  let ?ch = "next_chan (state s)" and ?ids = "[entryID (last es)]"
  have ids: "?ids = idsToUse [k] [''$''] (state s)"
    using assms(12,14) by (simp add: idsToUse_def top_of_def)
  have "XRead [k] ?ids (state s) = Inr [(k, [])]"
    using XRead_poll [of "state s" k es "[]"] assms(12-14) by simp
  from serve_XREAD [OF assms(1,4,5,7,8) ids this] obtain dl where
    st1: "step e (Serve a) s = Some (s\<lparr>
      state := add_waiter k ?ch ((state s)\<lparr>next_chan := ?ch + 1\<rparr>),
      clients := mput a (Blocked (WaitStream [k] ?ids ?ch dl) [] ra) (clients s)\<rparr>)" (is "_ = Some ?s1")
    by blast
  have s1: "cache (state ?s1) = cache (state s)" "expiry (state ?s1) = expiry (state s)"
      "sent (state ?s1) = sent (state s)" "chans (state ?s1) = chans (state s)"
      "spawned (state ?s1) = spawned (state s)" "queue_at (state ?s1) k = [?ch]" "clock ?s1 = clock s"
    using assms(17) by (simp_all add: same_access_add_waiter)
  define w2 where "w2 = fst (XAdd (clock ?s1) k sid fs (state ?s1))"
  have new: "snd (XAdd (clock ?s1) k sid fs (state ?s1)) = Inr newID"
    using XAdd_result_cong [OF s1(1)] assms(21) by simp
  then have add: "XAdd (clock s) k sid fs (state ?s1) = (w2, Inr newID)"
    by (simp add: w2_def prod_eq_iff)
  have "run_events e [Serve n, Run (length (spawned (state ?s1)))] ?s1 = Some (?s1\<lparr>
    state := (only_replies (Some n) [writeBulkString_bytes newID] w2)
      \<lparr>spawned := spawned (state ?s1), chans := mput ?ch newID (chans (state ?s1))\<rparr>,
    clients := mput n (Ready rn) (clients ?s1)\<rparr>)" (is "_ = Some ?s3")
    using assms(2,3,4,6,9-12,16,18) new s1
      free_client_same [OF same_access_add_waiter(1)]
    by (intro serve_XADD_and_send [OF _ _ _ _ _ _ _ _ _ _ _ w2_def]) (simp_all del: queue_at_outer)
  then have st3: "run_events e [Serve n, Run (length (spawned (state s)))] ?s1 = Some ?s3" by (simp only: s1(5))
  have es: "stream_entries k (state ?s1) = Inr es"
    using assms(12) s1(1) by (simp add: stream_entries_def)
  have c: "mget (cache w2) k = Some (VStream (es @ [entry]))"
    by (rule XAdd_ok [OF add]) (use es assms(22) in auto)
  have wf: "wf_stream (es @ [entry])"
    using XAdd_appends_above(1) [OF add assms(19,20) es assms(13,15)] assms(22) by simp
  have "XRead [k] ?ids (state ?s3) = Inr [(k, [entry])]"
    using XRead_poll [OF _ wf assms(14), of "state ?s3" k] c by simp
  from deliver_stream [of ?s3 a k ?ids ?ch dl ra newID, OF _ _ _ this] assms(3,4)
  have "step e (Deliver a) ?s3 = Some (?s3\<lparr>state := only_replies (Some a) (xread_answer k [entry])
        (CleanUpExpiredKeyWaiter k ?ch ((state ?s3)\<lparr>chans := mdel ?ch (chans (state ?s3))\<rparr>)),
      clients := mput a (Ready ra) (clients ?s3)\<rparr>)" (is "_ = Some ?s4")
    by simp
  then have "run_events e [Deliver a] ?s3 = Some ?s4" by simp
  note run_events_then [OF st3 this]
  moreover have "run_events e [Serve a] s = Some ?s1" using st1 by simp
  ultimately have run: "run_events e [Serve a, Serve n, Run (length (spawned (state s))), Deliver a] s = Some ?s4"
    using run_events_then by fastforce
  have "sent w2 = sent (state s)"
    using XAdd_rest [of "state ?s1" "clock ?s1" k sid fs] more_same [of w2 "state ?s1"] s1(3)
    by (simp add: same_rest_def w2_def)
  moreover have "queue_at w2 k = []" using XAdd_notifies [OF add] by simp
  ultimately show ?thesis
    using run c assms(3)
    by (intro exI [of _ ?s4]) (simp add: only_replies_def CleanUp_outer CleanUp_queue queue_at_outer2)
qed


text \<open>A reader of a stream that does not exist yet.\<close>

lemma absent_stream:
  assumes "mget (cache w) k = None"
  shows "idsToUse [k] [''$''] w = [''0-0'']" "XRead [k] [''0-0''] w = Inr [(k, [])]"
proof -
  show "idsToUse [k] [''$''] w = [''0-0'']" using assms by (simp add: idsToUse_def top_of_def)
  have "parseIDOptionalSeq ''0-0'' True = Inr (0, 0)"
    using parse_format [of 0 0] by (intro parseIDOptionalSeq_id) (simp add: valid_id_def max_int64_def format_id_def go_eval)
  then show "XRead [k] [''0-0''] w = Inr [(k, [])]"
    using assms by (simp add: XRead_def stream_entries_def)
qed

text \<open>
  C38: a value pushed onto a key on which a reader of a stream waits is lost. The push takes the
  waiting channel for that of a \<open>BLPOP\<close>, hands it the value, stores nothing and answers with a
  length of one; the reader is woken, drops what came and answers with an empty stream. At the
  end the keyspace is what it was and no channel holds the value.
\<close>

theorem push_lost_to_stream_reader:
  assumes "mget (clients s) a = Some (Ready (encodeRESPArray (words (xread_words k tmo ''$'')) @ ra))"
    and "mget (clients s) n = Some (Ready (encodeRESPArray (words [name, k, v]) @ rn))"
    and "a \<noteq> n" and "halted s = None" and "name \<in> {''LPUSH'', ''RPUSH''}"
    and "free_client e (Some a) (state s)" and "client_ready e n (state s)"
    and "in_int64 tmo" and "words_fit (xread_words k tmo ''$'')" and "words_fit [name, k, v]"
    and "mget (cache (state s)) k = None" and "mget (expiry (state s)) k = None"
    and "queue_at (state s) k = []" and "mget (chans (state s)) (next_chan (state s)) = None"
  shows "\<exists>s'. run_events e [Serve a, Serve n, Deliver a] s = Some s' \<and>
    sent (state s') = sent (state s) @
      map (\<lambda>r. (r, encodeRESPArray (words [name, k, v]))) (replicas (state s)) @
      (Some n, writeInteger_bytes 1) # map (Pair (Some a)) (xread_answer k []) \<and>
    mget (clients s') a = Some (Ready ra) \<and> mget (clients s') n = Some (Ready rn) \<and>
    cache (state s') = cache (state s) \<and> mget (chans (state s')) = mget (chans (state s))"
proof -
  let ?ch = "next_chan (state s)"
  note absent = absent_stream [OF assms(11)]
  from serve_XREAD [OF assms(1,4,6,8,9) absent(1) [symmetric] absent(2)] obtain dl where
    st1: "step e (Serve a) s = Some (s\<lparr>
      state := add_waiter k ?ch ((state s)\<lparr>next_chan := ?ch + 1\<rparr>),
      clients := mput a (Blocked (WaitStream [k] [''0-0''] ?ch dl) [] ra) (clients s)\<rparr>)" (is "_ = Some ?s1")
    by blast
  have s1: "cache (state ?s1) = cache (state s)" "expiry (state ?s1) = expiry (state s)"
      "sent (state ?s1) = sent (state s)" "chans (state ?s1) = chans (state s)"
      "replicas (state ?s1) = replicas (state s)" "queue_at (state ?s1) k = [?ch]"
      "client_ready e n (state ?s1)"
    using assms(7,13) client_ready_same [OF _ same_access_add_waiter(1)]
    by (simp_all add: same_access_add_waiter)
  from push_to_waiters [of "at_time e ?s1" n "state ?s1" k "[v]" name "[]"] s1 assms(5,11,12,14) obtain ws cs where
    h: "handleCommand (at_time e ?s1) (Some n) (words [name, k, v]) (state ?s1) =
      (only_replies (Some n) [writeInteger_bytes 1] (propagate (words [name, k, v])
        ((state ?s1)\<lparr>waiters := ws, chans := cs\<rparr>)), Done)"
    and cs: "mget cs = (mget (chans (state s)))(?ch \<mapsto> v)"
    by (auto simp: Let_def)
  let ?w2 = "only_replies (Some n) [writeInteger_bytes 1] (propagate (words [name, k, v])
        ((state ?s1)\<lparr>waiters := ws, chans := cs\<rparr>))"
  let ?s2 = "?s1\<lparr>state := ?w2, clients := mput n (Ready rn) (clients ?s1)\<rparr>"
  have "mget (clients ?s1) n = Some (Ready (encodeRESPArray (words [name, k, v]) @ rn))" "halted ?s1 = None"
    using assms(2-4) by simp_all
  from serve_push [OF this assms(10) h] have st2: "step e (Serve n) ?s1 = Some ?s2" .
  have w2: "cache ?w2 = cache (state s)" "chans ?w2 = cs"
      "sent ?w2 = sent (state s) @ map (\<lambda>r. (r, encodeRESPArray (words [name, k, v]))) (replicas (state s)) @
        [(Some n, writeInteger_bytes 1)]"
    using s1 by (simp_all add: sent_push) (simp add: only_replies_def propagate_def Let_def)
  have "XRead [k] [''0-0''] (state ?s2) = Inr [(k, [])]"
    using absent(2) XRead_cong [of ?w2 "state s"] w2(1) by simp
  from deliver_stream [of ?s2 a k "[''0-0'']" ?ch dl ra v, OF _ _ _ this] assms(3,4) cs w2(2)
  have "step e (Deliver a) ?s2 = Some (?s2\<lparr>state := only_replies (Some a) (xread_answer k [])
        (CleanUpExpiredKeyWaiter k ?ch (?w2\<lparr>chans := mdel ?ch cs\<rparr>)),
      clients := mput a (Ready ra) (clients ?s2)\<rparr>)" (is "_ = Some ?s3")
    by simp
  then have r3: "run_events e [Deliver a] ?s2 = Some ?s3" by simp
  have "run_events e [Serve a] s = Some ?s1" "run_events e [Serve n] ?s1 = Some ?s2"
    using st1 st2 by simp_all
  from run_events_then [OF this(1) run_events_then [OF this(2) r3]]
  have run: "run_events e [Serve a, Serve n, Deliver a] s = Some ?s3" by simp
  have "chans (state ?s3) = mdel ?ch cs"
    by (simp add: only_replies_def CleanUpExpiredKeyWaiter_def Let_def split: option.split)
  moreover have "mget (mdel ?ch cs) = mget (chans (state s))"
    using assms(14) by (simp add: cs map_of_delete fun_eq_iff)
  moreover have "sent (state ?s3) = sent ?w2 @ map (Pair (Some a)) (xread_answer k [])"
    "cache (state ?s3) = cache ?w2"
    by (simp_all add: only_replies_def CleanUp_outer)
  ultimately show ?thesis using run assms(3) w2 by (intro exI [of _ ?s3]) simp
qed


section \<open>Witnesses\<close>

definition stream_system :: "(string, cached) gomap \<Rightarrow> string list \<Rightarrow> system" where
  "stream_system data ws =
     \<lparr>state = (Authenticate (Some 1) client_world)\<lparr>cache := data\<rparr>,
      clients = [(1, Ready (encodeRESPArray (words (xread_words ''s'' 0 ''$'')))),
        (7, Ready (encodeRESPArray (words ws)))], clock = 0, halted = None\<rparr>"

lemma stream_system_fields:
  "cache (state (stream_system d ws)) = d" "expiry (state (stream_system d ws)) = []"
  "sent (state (stream_system d ws)) = []" "replicas (state (stream_system d ws)) = []"
  "spawned (state (stream_system d ws)) = []" "chans (state (stream_system d ws)) = []"
  "queue_at (state (stream_system d ws)) k = []" "clock (stream_system d ws) = 0"
  "halted (stream_system d ws) = None"
  "free_client e (Some 1) (state (stream_system d ws))" "free_client e (Some 7) (state (stream_system d ws))"
  "mget (clients (stream_system d ws)) 1 = Some (Ready (encodeRESPArray (words (xread_words ''s'' 0 ''$'')) @ []))"
  "mget (clients (stream_system d ws)) 7 = Some (Ready (encodeRESPArray (words ws) @ []))"
  by (simp_all add: stream_system_def Authenticate_def client_world_fields free_client_def
      IsAuthenticated_def IsSubscribed_def IsInTx_def mget_bool_def queue_at_def mget_list_def)
     (simp_all add: client_world_def empty_world_def initial_world_def NewStore_def Authenticate_def store.defs)

lemma stream_words_fit: "words_fit (xread_words ''s'' 0 ''$'')" "in_int64 0"
  by (simp_all add: xread_words_def words_fit_def max_int64_def max_alloc_def in_int64_def min_int64_def
      Itoa_0)

theorem stream_reader_woken_witness:
  "\<exists>s'. run_events demo_env [Serve 1, Serve 7, Run 0, Deliver 1]
      (stream_system [(''s'', VStream two_entries)] [''XADD'', ''s'', ''5-*'', ''e'', ''f'']) = Some s' \<and>
    sent (state s') = (Some 7, writeBulkString_bytes ''5-3'') #
      map (Pair (Some 1)) (xread_answer ''s'' [\<lparr>entryID = ''5-3'', entryFields = [''e'', ''f'']\<rparr>])"
proof -
  let ?s = "stream_system [(''s'', VStream two_entries)] [''XADD'', ''s'', ''5-*'', ''e'', ''f'']"
  have l: "last_id two_entries = (5, 2)" by (simp add: last_id_def two_entries_def two_entries_ids)
  have x: "\<not> seq_exhausted two_entries" by (simp add: seq_exhausted_def l max_int64_def)
  have "parseMaybeStarID ''5-*'' = Inr (5, 0, True)"
    by (simp add: parseMaybeStarID_def parse_int_err_def go_eval)
  then have r: "requested_id 0 ''5-*'' = Inr (5, 0, True)" by (simp add: requested_id_def)
  have c: "mget (cache (state ?s)) ''s'' = Some (VStream two_entries)" by (simp add: stream_system_fields)
  have w: "wrap64 3 = 3" by (simp add: wrap64_def)
  have new: "snd (XAdd (clock ?s) ''s'' ''5-*'' [''e'', ''f''] (state ?s)) = Inr ''5-3''"
    by (simp add: stream_system_fields XAdd_def r stream_entries_cases [OF c] l next_seq_def Let_def
        format_id_def w go_eval)
  have fit: "words_fit [''XADD'', ''s'', ''5-*'', ''e'', ''f'']"
    by (simp add: words_fit_def max_int64_def max_alloc_def)
  show ?thesis
    using stream_reader_woken [where e = demo_env, OF stream_system_fields(12,13) _ stream_system_fields(9,10,11)
        stream_words_fit(2,1) fit _ _ c two_entries_wf _ x _ _ _ _ _ new refl]
    by (fastforce simp: stream_system_fields two_entries_def max_int64_def simp del: run_events.simps)
qed

theorem push_lost_to_stream_reader_witness:
  "\<exists>s'. run_events demo_env [Serve 1, Serve 7, Deliver 1] (stream_system [] [''RPUSH'', ''s'', ''v'']) = Some s' \<and>
    sent (state s') = (Some 7, writeInteger_bytes 1) # map (Pair (Some 1)) (xread_answer ''s'' []) \<and>
    cache (state s') = []"
proof -
  let ?s = "stream_system [] [''RPUSH'', ''s'', ''v'']"
  have fit: "words_fit [''RPUSH'', ''s'', ''v'']"
    by (simp add: words_fit_def max_int64_def max_alloc_def)
  have ready: "client_ready demo_env 7 (state ?s)"
    by (simp add: client_ready_def stream_system_fields demo_env_def default_config_def)
  show ?thesis
    using push_lost_to_stream_reader [OF stream_system_fields(12,13) _ stream_system_fields(9) _
        stream_system_fields(10) ready stream_words_fit(2,1) fit]
    by (fastforce simp: stream_system_fields simp del: run_events.simps)
qed

end
