(* ===== verification/PublishFacts.thy ===== *)
theory PublishFacts
  imports LockingFacts
begin

text \<open>
  Channels on the level of the whole system: clients subscribe, a message is published, and the
  goroutines that \<open>PUBLISH\<close> starts write it to the subscribers' connections.
\<close>

lemma handle_SUBSCRIBE:
  assumes "free_client e (Some a) w"
  shows "\<exists>cs. handleCommand e (Some a) (words [''SUBSCRIBE'', ch]) w = finish (only_replies (Some a)
      [subscription_reply ''subscribe'' ch 1]
      (w\<lparr>pubsub := mput ch (sadd (Some a) (mget_list (pubsub w) ch)) (pubsub w), clientSubscriptions := cs\<rparr>)) \<and>
    mget_list cs (Some a) = [ch] \<and> (\<forall>b. b \<noteq> Some a \<longrightarrow> mget cs b = mget (clientSubscriptions w) b)"
proof -
  let ?w1 = "w\<lparr>pubsub := mput ch (sadd (Some a) (mget_list (pubsub w) ch)) (pubsub w),
    clientSubscriptions := mput (Some a) [ch] (clientSubscriptions w)\<rparr>"
  have none: "mget_list (clientSubscriptions w) (Some a) = []"
    using assms by (auto simp: free_client_def IsSubscribed_def mget_list_def split: option.splits)
  then have "Subscribe (Some a) ch w = (?w1, 1)"
    unfolding Subscribe_def Let_def by (simp add: sadd_def)
  then have "handleSUBSCRIBE (Some a) (words [''SUBSCRIBE'', ch]) w =
      finish (only_replies (Some a) [subscription_reply ''subscribe'' ch 1] ?w1)"
    by (simp add: handleSUBSCRIBE_def words_def asString_def remote_addr_def and_then_def
        conn_write_client finish_def)
  then have "handleCommand e (Some a) (words [''SUBSCRIBE'', ch]) w =
      finish (only_replies (Some a) [subscription_reply ''subscribe'' ch 1] ?w1)"
    by (simp add: handleCommand_free [OF assms, where cmd = "''SUBSCRIBE''"] go_eval dispatch_def handlers_def)
  then show ?thesis
    by (intro exI [of _ "mput (Some a) [ch] (clientSubscriptions w)"]) (simp add: mget_list_def)
qed

lemma handle_PUBLISH:
  assumes "free_client e (Some n) w"
  shows "handleCommand e (Some n) (words [''PUBLISH'', ch, msg]) w = finish (only_replies (Some n)
      [writeInteger_bytes (int (length (mget_list (pubsub w) ch)))]
      (w\<lparr>spawned := spawned w @ map (\<lambda>c. Push c [''message'', ch, msg]) (mget_list (pubsub w) ch)\<rparr>))"
  by (simp add: handleCommand_free [OF assms, where cmd = "''PUBLISH''"] go_eval dispatch_def
      handlers_def handlePUBLISH_def Publish_spec replies_to_client)

text \<open>The subscribers come one after the other.\<close>

lemma subscribers_come:
  assumes "distinct as" and "halted s = None" and "words_fit [''SUBSCRIBE'', ch]"
    and "list_all (\<lambda>a. mget (clients s) a = Some (Ready (encodeRESPArray (words [''SUBSCRIBE'', ch]) @ rest a)) \<and>
           free_client e (Some a) (state s)) as"
    and "set (map Some as) \<inter> set (mget_list (pubsub (state s)) ch) = {}"
  shows "\<exists>s1 ps cs. run_events e (map Serve as) s = Some s1 \<and> halted s1 = None \<and>
    state s1 = (state s)\<lparr>pubsub := ps, clientSubscriptions := cs,
      sent := sent (state s) @ map (\<lambda>a. (Some a, subscription_reply ''subscribe'' ch 1)) as\<rparr> \<and>
    mget_list ps ch = mget_list (pubsub (state s)) ch @ map Some as \<and>
    (\<forall>a \<in> set as. mget_list cs (Some a) = [ch] \<and> mget (clients s1) a = Some (Ready (rest a))) \<and>
    (\<forall>b. b \<notin> set as \<longrightarrow> mget cs (Some b) = mget (clientSubscriptions (state s)) (Some b) \<and>
       mget (clients s1) b = mget (clients s) b)"
  using assms
proof (induction as arbitrary: s)
  case Nil
  then show ?case
    by (intro exI [of _ s] exI [of _ "pubsub (state s)"] exI [of _ "clientSubscriptions (state s)"]) simp
next
  case (Cons a as)
  let ?w = "state s"
  have a: "mget (clients s) a = Some (Ready (encodeRESPArray (words [''SUBSCRIBE'', ch]) @ rest a))"
    "free_client (at_time e s) (Some a) ?w" using Cons.prems(4) by simp_all
  from handle_SUBSCRIBE [OF a(2), of ch] obtain cs0 where
    h: "handleCommand (at_time e s) (Some a) (words [''SUBSCRIBE'', ch]) ?w = finish (only_replies (Some a)
      [subscription_reply ''subscribe'' ch 1]
      (?w\<lparr>pubsub := mput ch (sadd (Some a) (mget_list (pubsub ?w) ch)) (pubsub ?w), clientSubscriptions := cs0\<rparr>))"
    and cs0: "mget_list cs0 (Some a) = [ch]" "\<forall>b. b \<noteq> Some a \<longrightarrow> mget cs0 b = mget (clientSubscriptions ?w) b"
    by blast
  note st = serve_words(1) [OF a(1) Cons.prems(2,3) h]
  let ?w1 = "only_replies (Some a) [subscription_reply ''subscribe'' ch 1]
      (?w\<lparr>pubsub := mput ch (sadd (Some a) (mget_list (pubsub ?w) ch)) (pubsub ?w), clientSubscriptions := cs0\<rparr>)"
  let ?s1 = "s\<lparr>state := ?w1, clients := mput a (Ready (rest a)) (clients s)\<rparr>"
  have ps: "mget_list (pubsub ?w1) ch = mget_list (pubsub ?w) ch @ [Some a]"
    using Cons.prems(5) by (simp add: only_replies_def sadd_def mget_list_def)
  have "free_client e (Some b) ?w1" if "b \<in> set as" for b
    using that Cons.prems(1,4) cs0(2)
    by (auto simp: list_all_iff free_client_def IsAuthenticated_def IsSubscribed_def IsInTx_def only_replies_def)
  then have "list_all (\<lambda>a. mget (clients ?s1) a = Some (Ready (encodeRESPArray (words [''SUBSCRIBE'', ch]) @ rest a)) \<and>
      free_client e (Some a) (state ?s1)) as"
    using Cons.prems(1,4) by (auto simp: list_all_iff)
  moreover have "set (map Some as) \<inter> set (mget_list (pubsub (state ?s1)) ch) = {}"
    using Cons.prems(1,5) ps by auto
  moreover have "distinct as" "halted ?s1 = None" using Cons.prems(1,2) by simp_all
  ultimately obtain s2 ps2 cs2 where
    IH: "run_events e (map Serve as) ?s1 = Some s2" "halted s2 = None"
    "state s2 = ?w1\<lparr>pubsub := ps2, clientSubscriptions := cs2,
      sent := sent ?w1 @ map (\<lambda>a. (Some a, subscription_reply ''subscribe'' ch 1)) as\<rparr>"
    "mget_list ps2 ch = mget_list (pubsub ?w1) ch @ map Some as"
    "\<forall>a \<in> set as. mget_list cs2 (Some a) = [ch] \<and> mget (clients s2) a = Some (Ready (rest a))"
    "\<forall>b. b \<notin> set as \<longrightarrow> mget cs2 (Some b) = mget (clientSubscriptions ?w1) (Some b) \<and>
       mget (clients s2) b = mget (clients ?s1) b"
    using Cons.IH [of ?s1] Cons.prems(3) by auto
  have "clientSubscriptions ?w1 = cs0" by (simp add: only_replies_def)
  with st IH ps cs0 Cons.prems(1) show ?case
    by (intro exI [of _ s2] exI [of _ ps2] exI [of _ cs2]) (auto simp: only_replies_def mget_list_def)
qed

text \<open>The goroutines write, each in its turn.\<close>

lemma pushes_run:
  assumes "halted s = None" and "spawned (state s) = gs @ map (\<lambda>a. Push (Some a) msg) as"
  shows "run_events e (replicate (length as) (Run (length gs))) s = Some (s\<lparr>state := (state s)
    \<lparr>spawned := gs, sent := sent (state s) @ map (\<lambda>a. (Some a, writeArrayResponse_bytes msg)) as\<rparr>\<rparr>)"
  using assms
proof (induction as arbitrary: s)
  case Nil
  then have "(state s)\<lparr>spawned := gs\<rparr> = state s" by simp
  then show ?case by simp
next
  case (Cons a as)
  let ?s1 = "s\<lparr>state := (state s)\<lparr>spawned := gs @ map (\<lambda>a. Push (Some a) msg) as,
      sent := sent (state s) @ [(Some a, writeArrayResponse_bytes msg)]\<rparr>\<rparr>"
  have "step e (Run (length gs)) s = Some ?s1"
    using Cons.prems by (simp add: step_def Let_def run_spawned_def run_goroutine_def replies_to_client
        only_replies_def)
  with Cons.IH [of ?s1] Cons.prems(1) show ?case by simp
qed


section \<open>Properties\<close>


definition channel_system :: system where
  "channel_system = \<lparr>state = Authenticate (Some 1) (Authenticate (Some 2) client_world),
     clients = [(1, Ready (encodeRESPArray (words [''SUBSCRIBE'', ''news'']))),
       (2, Ready (encodeRESPArray (words [''SUBSCRIBE'', ''news'']))),
       (7, Ready (encodeRESPArray (words [''PUBLISH'', ''news'', ''hi''])))], clock = 0, halted = None\<rparr>"


end
