(* ===== verification/Spec2Isabelle.thy ===== *)
theory Spec2Isabelle
  imports RespFacts StorageFacts Waiters ZSetFacts StreamFacts PubSub Transactions Config AofFacts
    RdbFacts Geo HandshakeFacts ExpiryFacts TornFacts StreamBlockingFacts PublishFacts
begin

text \<open>
  A verification development for the Redis server under \<open>src/app\<close>: a TCP server in Go that keeps
  strings, lists, sorted sets, streams and positions in memory, with expiry, blocking reads,
  publish/subscribe, transactions with optimistic locking, an append-only file, the reading of
  snapshot files, replication and passwords.

  \<^bold>\<open>The program.\<close> \<open>main\<close> (\<open>server.go\<close>) reads flags and a configuration file (\<open>config.go\<close>), loads a
  snapshot (\<open>rdb.go\<close>), replays the append-only file (\<open>aof.go\<close>), follows a master if it is a replica,
  and starts a goroutine with \<open>handleConnection\<close> (\<open>conn.go\<close>) for every client. That loop parses the
  client's bytes (\<open>resp.go\<close>) and hands each command to \<open>handleCommand\<close> (\<open>commands.go\<close>), which puts
  it through the gates for passwords, subscribers and transactions and calls one of 42 handlers.
  The handlers work on one \<open>Store\<close> (\<open>storage.go\<close>) behind a mutex; those that write call
  \<open>persistWriteCommand\<close>, which sends the command to the replicas and appends it to the log. The
  replay and the replica's loop call the same \<open>handleCommand\<close> with a nil connection.

  \<^bold>\<open>The model, bottom up.\<close>
  \<^item> \<open>Prelude\<close>: Go maps as association lists with \<open>mget\<close>, \<open>mput\<close>, \<open>mdel\<close>, sets as lists, slices.
  \<^item> \<open>GoLib\<close>, \<open>GoStrings\<close>, \<open>GoFloat\<close>, \<open>GoFloatText\<close>, \<open>GoPath\<close>: what the source uses of Go's library:
    64-bit integers with \<open>wrap64\<close> for overflow, \<open>strconv\<close>, \<open>strings\<close>, \<open>bufio\<close>, IEEE doubles as bit
    patterns, \<open>filepath\<close>.
  \<^item> \<open>Resp\<close> (\<open>resp.go\<close>, the encoder of \<open>aof.go\<close>, the bytes of the reply writers), \<open>RespFacts\<close>.
  \<^item> \<open>Storage\<close>, \<open>Waiters\<close>, \<open>ZSets\<close>, \<open>Streams\<close>, \<open>PubSub\<close>, \<open>Transactions\<close> (\<open>storage.go\<close>): the record
    \<open>store\<close> has the fields of the struct \<open>Store\<close> and \<open>spawned\<close>, the goroutines its methods start; one
    definition per method, of the method's name. \<open>StorageFacts\<close>, \<open>ZSetFacts\<close>, \<open>StreamFacts\<close> hold the
    longer proofs.
  \<^item> \<open>Config\<close> (\<open>config.go\<close> and the flags of \<open>server.go\<close>), \<open>Aof\<close>, \<open>AofFacts\<close> (the files of \<open>aof.go\<close>),
    \<open>Rdb\<close>, \<open>RdbFacts\<close> (\<open>rdb.go\<close>), \<open>Geo\<close> (\<open>geo-coordinate-helper.go\<close>).
  \<^item> \<open>World\<close>: the record \<open>world\<close> extends \<open>store\<close> by the replication manager and the password list
    (package variables of \<open>server.go\<close> and \<open>commands.go\<close>), the files, the channels and everything
    written to connections. A handler is a function from the world to the world and a \<open>signal\<close>.
  \<^item> \<open>HandlersBasic\<close>, \<open>HandlersList\<close>, \<open>HandlersData\<close>, \<open>HandlersGeo\<close>, \<open>HandlersTx\<close>, \<open>Dispatch\<close>: every
    handler of \<open>commands.go\<close>, branch by branch, and \<open>handleCommand\<close>.
  \<^item> \<open>Server\<close>: the loops over a client's bytes, over the log and over a master's stream, start-up,
    and the handshake of a replica.
  \<^item> \<open>System\<close>: clients whose commands interleave, blocked ones, goroutines and the clock, as the
    step function \<open>step\<close> and the relation \<open>reachable\<close>.

  \<^bold>\<open>Interfaces.\<close> A locale states what one part promises to another, and is interpreted on the
  definitions above: \<open>key_map\<close> (Go's maps), \<open>simulation\<close> (an abstract machine; the deque behind the
  list commands), \<open>keyspace\<close> (what a lookup returns after a write), \<open>keyed_order\<close> (a total order by
  score and member), \<open>wait_queue\<close> (first come, first served), \<open>ordered_log\<close> (a stream and its polling
  readers), \<open>registry\<close> (a relation stored in both directions), \<open>change_detection\<close> (marks of watched
  keys), \<open>framing\<close> (messages that can be read off a stream), \<open>append_log\<close> (a file that grows at its
  end), \<open>journal\<close> (commands that reproduce the data; the log and a replica's stream are two
  interpretations), and \<open>kept\<close> (an invariant that every handler keeps; well-formedness and
  optimistic locking are two interpretations).

  \<^bold>\<open>What is shown.\<close>
  \<^item> Of the parts: the wire format round trips and its parser is total; expiry is exact; counters
    count; sorted sets are sorted, ranked and counted; stream IDs increase and reads return what
    was added; marks are exact; snapshot files are read back and damaged ones refused; the files
    of the log are made and appended to; geohashes are a bijection.
  \<^item> Of \<open>handleCommand\<close>: outsiders cannot act; a transaction is its commands, one by one; the list
    commands refine a deque; which commands panic, exactly.
  \<^item> Of the system: \<open>WorldFacts\<close>, \<open>HandlerFacts\<close> and \<open>SystemFacts\<close> show that every reachable state is
    well-formed; \<open>LockingFacts\<close> that a transaction that runs finds its watched keys unchanged,
    however clients interleave; \<open>BlockingFacts\<close>, \<open>StreamBlockingFacts\<close>, \<open>WaitFacts\<close>, \<open>PublishFacts\<close> that
    blocked clients and subscribers are served.
  \<^item> Of its life: \<open>ReplayFacts\<close> and \<open>RecoveryFacts\<close> that a restart restores the data and a replica
    follows its master; \<open>TornFacts\<close> what a crash costs; \<open>HandshakeFacts\<close> that replica and master
    agree on the handshake.
  \<^item> Where the code does something else than it means to, the theorem states what it does:
    \<open>PushFacts\<close> (a push in the log stops the next start), \<open>ExpiryFacts\<close> (a restart renews the time to
    live), a push that a stream reader swallows, acknowledgements that run ahead, sequence numbers
    that overflow, a subscriber that leaves traces.

  \<^bold>\<open>Bounds and fuel.\<close> The parser's fuel bounds the nesting of arrays by the length of the input, and
  \<open>ParseRESP_total\<close> shows that it never runs out. The loops over a connection, a log and a master's
  stream have one more turn than there are bytes, of which every turn consumes some; \<open>loops_end\<close>
  shows that they end. \<open>handleCommand\<close> calls itself through \<open>EXEC\<close>; two levels are enough because no
  \<open>EXEC\<close> is ever queued, and \<open>system_invariant\<close> shows that the third is never reached.

  \<^bold>\<open>Simplifications.\<close>
  \<^item> A handler runs without interruption until it ends or waits, and sees one time. In the code,
    handlers that take the mutex several times could interleave in between.
  \<^item> \<open>Stuck\<close> (a send on a full channel) and \<open>Leaked\<close> (a return) with the mutex held end the run, as
    does a panic: every later command would wait for ever.
  \<^item> Writes to connections always succeed, as nobody can see the effect of one that does not.
  \<^item> Go's iteration over a map has no order; the model takes that of the association list, for the
    goroutines \<open>PUBLISH\<close> starts, the members \<open>GEOSEARCH\<close> looks at and the keys of \<open>KEYS\<close>.
  \<^item> Parameters of the model: which system calls fail, conversions that the hardware leaves open,
    the trigonometric functions and formatting of coordinates, the hash of \<open>ACL\<close>, Go's quoting of
    strings in error texts.

  \<^bold>\<open>Not modelled.\<close> Logging (\<open>logger.go\<close> and the calls of \<open>slog\<close>), but for log statements that panic
  on a nil connection; the listening and dialling of sockets; the parsing of the command line by
  the package \<open>flag\<close>, whose result is an argument of \<open>main_config\<close>.
\<close>

end
